(* ===== verification/Prelude.thy ===== *)
theory Prelude
  imports "HOL-Library.Word"
begin

text \<open>
  Shared vocabulary of the development: Rust's checked and saturating integer
  operations, the result of a contract function (a value, an error value or a
  trap), the state-passing composition of such functions with its inversion
  rules, and the preservation calculus used for invariants.

  Integers. The workspace is built with \<open>overflow-checks = true\<close> (Cargo.toml), so
  no operation of the program ever wraps: a plain \<open>+\<close>, \<open>-\<close>, \<open>*\<close> or \<open>+=\<close> that
  leaves the range of its type traps, \<open>saturating_*\<close> clamps and \<open>checked_*\<close>
  returns \<open>None\<close>. Unsigned values (\<open>u32\<close>, \<open>u64\<close>) are \<open>nat\<close>, \<open>i128\<close> values are
  \<open>int\<close>, and every operation carries the bound of its width.
\<close>

named_theorems exec_simps \<open>inversion of a step that returned Ok\<close>
named_theorems exec_comp \<open>unfolding of the composition, to compute a run\<close>
named_theorems const_defs \<open>numeric constants of the program\<close>
named_theorems storage_defs \<open>storage accessors as record reads and updates\<close>
named_theorems helper_defs \<open>validation helpers\<close>
named_theorems pres \<open>rules that show an operation preserves a predicate\<close>
named_theorems pres_know \<open>the same for a step whose result the rest may use\<close>

section \<open>Machine integers\<close>

definition u32_max :: nat where
  [const_defs]: "u32_max = 4294967295"

definition u64_max :: nat where
  [const_defs]: "u64_max = 18446744073709551615"

definition i128_max :: int where
  [const_defs]: "i128_max = 170141183460469231731687303715884105727"

definition i128_min :: int where
  [const_defs]: "i128_min = -170141183460469231731687303715884105728"

definition in_i128 :: "int \<Rightarrow> bool" where
  "in_i128 x \<longleftrightarrow> i128_min \<le> x \<and> x \<le> i128_max"

definition u32_sat_add :: "nat \<Rightarrow> nat \<Rightarrow> nat" where
  "u32_sat_add a b = min u32_max (a + b)"

definition u64_sat_add :: "nat \<Rightarrow> nat \<Rightarrow> nat" where
  "u64_sat_add a b = min u64_max (a + b)"

text \<open>Unsigned saturating subtraction stops at zero, as \<open>-\<close> on \<open>nat\<close> does.\<close>

definition sat_sub :: "nat \<Rightarrow> nat \<Rightarrow> nat" where
  [simp]: "sat_sub a b = a - b"

definition i128_clamp :: "int \<Rightarrow> int" where
  "i128_clamp x = max i128_min (min i128_max x)"

definition i128_sat_add :: "int \<Rightarrow> int \<Rightarrow> int" where
  "i128_sat_add a b = i128_clamp (a + b)"

definition i128_sat_sub :: "int \<Rightarrow> int \<Rightarrow> int" where
  "i128_sat_sub a b = i128_clamp (a - b)"

definition i128_sat_mul :: "int \<Rightarrow> int \<Rightarrow> int" where
  "i128_sat_mul a b = i128_clamp (a * b)"

text \<open>Rust's \<open>/\<close> truncates towards zero.\<close>

definition rust_div :: "int \<Rightarrow> int \<Rightarrow> int" where
  "rust_div a b = sgn a * sgn b * (\<bar>a\<bar> div \<bar>b\<bar>)"

lemma rust_div_nonneg: "0 \<le> a \<Longrightarrow> 0 < b \<Longrightarrow> rust_div a b = a div b"
  by (cases "a = 0") (simp_all add: rust_div_def)

lemma i128_clamp_id: "in_i128 x \<Longrightarrow> i128_clamp x = x"
  by (simp add: i128_clamp_def in_i128_def)

lemma in_i128_clamp [simp]: "in_i128 (i128_clamp x)"
  by (simp add: i128_clamp_def in_i128_def const_defs)

lemma i128_clamp_mono: "x \<le> y \<Longrightarrow> i128_clamp x \<le> i128_clamp y"
  by (simp add: i128_clamp_def)

lemma in_i128_sat [simp]:
  "in_i128 (i128_sat_add a b)" "in_i128 (i128_sat_sub a b)" "in_i128 (i128_sat_mul a b)"
  by (simp_all add: i128_sat_add_def i128_sat_sub_def i128_sat_mul_def)

lemma in_i128_0 [simp]: "in_i128 0"
  by (simp add: in_i128_def const_defs)

section \<open>Results\<close>

text \<open>
  A contract function returns \<open>Ok\<close>, returns \<open>Err\<close>, or does not return because
  the host stops it: a missing authorisation, a rejected signature, a failing
  token call, an integer overflow, or a failed \<open>assert!\<close> / \<open>expect\<close>.
\<close>

datatype trap = AuthTrap | CryptoTrap | TokenTrap | ArithTrap | PanicTrap

datatype ('e, 'a) outcome = Ok 'a | Err 'e | Trap trap

type_synonym ('s, 'e, 'a) exec = "'s \<Rightarrow> ('e, 'a) outcome \<times> 's"

primrec is_Ok :: "('e, 'a) outcome \<Rightarrow> bool" where
  "is_Ok (Ok x) = True"
| "is_Ok (Err e) = False"
| "is_Ok (Trap r) = False"

lemma is_Ok_unit: "is_Ok (fst r) \<Longrightarrow> r = (Ok (), snd r)"
  by (cases r, cases "fst r") auto

lemma is_Ok_ex: "is_Ok (fst r) \<Longrightarrow> \<exists>x. r = (Ok x, snd r)"
  by (cases r, cases "fst r") auto

definition ret :: "'a \<Rightarrow> ('s, 'e, 'a) exec" where
  [exec_comp]: "ret x s = (Ok x, s)"

definition fail :: "'e \<Rightarrow> ('s, 'e, 'a) exec" where
  [exec_comp]: "fail e s = (Err e, s)"

definition trap :: "trap \<Rightarrow> ('s, 'e, 'a) exec" where
  [exec_comp]: "trap r s = (Trap r, s)"

definition bind :: "('s, 'e, 'a) exec \<Rightarrow> ('a \<Rightarrow> ('s, 'e, 'b) exec) \<Rightarrow> ('s, 'e, 'b) exec" where
  [exec_comp]: "bind m k s =
     (case m s of (Ok x, t) \<Rightarrow> k x t | (Err e, t) \<Rightarrow> (Err e, t) | (Trap r, t) \<Rightarrow> (Trap r, t))"

definition gets :: "('s \<Rightarrow> 'a) \<Rightarrow> ('s, 'e, 'a) exec" where
  [exec_comp]: "gets f s = (Ok (f s), s)"

definition modify :: "('s \<Rightarrow> 's) \<Rightarrow> ('s, 'e, unit) exec" where
  [exec_comp]: "modify f s = (Ok (), f s)"

text \<open>\<open>if !c { return Err(e); }\<close> and \<open>assert!(c)\<close>.\<close>

definition guard :: "bool \<Rightarrow> 'e \<Rightarrow> ('s, 'e, unit) exec" where
  [exec_comp]: "guard c e s = (if c then (Ok (), s) else (Err e, s))"

definition assert_that :: "bool \<Rightarrow> trap \<Rightarrow> ('s, 'e, unit) exec" where
  [exec_comp]: "assert_that c r s = (if c then (Ok (), s) else (Trap r, s))"

text \<open>\<open>option.ok_or(e)?\<close> on a value read from the state, and \<open>.expect(..)\<close>.\<close>

definition require_some :: "('s \<Rightarrow> 'a option) \<Rightarrow> 'e \<Rightarrow> ('s, 'e, 'a) exec" where
  [exec_comp]: "require_some f e s = (case f s of Some x \<Rightarrow> (Ok x, s) | None \<Rightarrow> (Err e, s))"

definition expect_some :: "('s \<Rightarrow> 'a option) \<Rightarrow> ('s, 'e, 'a) exec" where
  [exec_comp]: "expect_some f s = (case f s of Some x \<Rightarrow> (Ok x, s) | None \<Rightarrow> (Trap PanicTrap, s))"

definition run_if :: "bool \<Rightarrow> ('s, 'e, unit) exec \<Rightarrow> ('s, 'e, unit) exec" where
  [exec_comp]: "run_if c m s = (if c then m s else (Ok (), s))"

text \<open>\<open>if let Some(x) = o { .. }\<close>.\<close>

definition if_some :: "'a option \<Rightarrow> ('a \<Rightarrow> ('s, 'e, unit) exec) \<Rightarrow> ('s, 'e, unit) exec" where
  [exec_comp]: "if_some o' k s = (case o' of Some x \<Rightarrow> k x s | None \<Rightarrow> (Ok (), s))"

text \<open>\<open>let _ = m;\<close>: an error result is dropped, a trap is not.\<close>

definition ignore_result :: "('s, 'e, 'a) exec \<Rightarrow> ('s, 'e, unit) exec" where
  [exec_comp]: "ignore_result m s =
     (case m s of (Ok x, t) \<Rightarrow> (Ok (), t) | (Err e, t) \<Rightarrow> (Ok (), t) | (Trap r, t) \<Rightarrow> (Trap r, t))"

text \<open>A loop over a vector, without and with an accumulator.\<close>

primrec for_each :: "'a list \<Rightarrow> ('a \<Rightarrow> ('s, 'e, unit) exec) \<Rightarrow> ('s, 'e, unit) exec" where
  "for_each [] body = ret ()"
| "for_each (x # xs) body = bind (body x) (\<lambda>_. for_each xs body)"

primrec fold_each :: "'a list \<Rightarrow> ('b \<Rightarrow> 'a \<Rightarrow> ('s, 'e, 'b) exec) \<Rightarrow> 'b \<Rightarrow> ('s, 'e, 'b) exec" where
  "fold_each [] body acc = ret acc"
| "fold_each (x # xs) body acc = bind (body acc x) (\<lambda>acc'. fold_each xs body acc')"

section \<open>Checked arithmetic\<close>

definition u32_add :: "nat \<Rightarrow> nat \<Rightarrow> ('s, 'e, nat) exec" where
  [exec_comp]: "u32_add a b s = (if a + b \<le> u32_max then (Ok (a + b), s) else (Trap ArithTrap, s))"

definition u64_add :: "nat \<Rightarrow> nat \<Rightarrow> ('s, 'e, nat) exec" where
  [exec_comp]: "u64_add a b s = (if a + b \<le> u64_max then (Ok (a + b), s) else (Trap ArithTrap, s))"

definition u32_sub :: "nat \<Rightarrow> nat \<Rightarrow> ('s, 'e, nat) exec" where
  [exec_comp]: "u32_sub a b s = (if b \<le> a then (Ok (a - b), s) else (Trap ArithTrap, s))"

definition i128_add :: "int \<Rightarrow> int \<Rightarrow> ('s, 'e, int) exec" where
  [exec_comp]: "i128_add a b s = (if in_i128 (a + b) then (Ok (a + b), s) else (Trap ArithTrap, s))"

definition i128_sub :: "int \<Rightarrow> int \<Rightarrow> ('s, 'e, int) exec" where
  [exec_comp]: "i128_sub a b s = (if in_i128 (a - b) then (Ok (a - b), s) else (Trap ArithTrap, s))"

definition i128_mul :: "int \<Rightarrow> int \<Rightarrow> ('s, 'e, int) exec" where
  [exec_comp]: "i128_mul a b s = (if in_i128 (a * b) then (Ok (a * b), s) else (Trap ArithTrap, s))"

text \<open>\<open>u64::checked_add\<close>.\<close>

definition u64_checked_add :: "nat \<Rightarrow> nat \<Rightarrow> nat option" where
  "u64_checked_add a b = (if a + b \<le> u64_max then Some (a + b) else None)"

section \<open>Inversion of a run that returned\<close>

lemma bind_Ok_iff [exec_simps]:
  "bind m k s = (Ok y, u) \<longleftrightarrow> (\<exists>x t. m s = (Ok x, t) \<and> k x t = (Ok y, u))"
  by (auto simp: bind_def split: prod.splits outcome.splits)

lemma basic_Ok_iff [exec_simps]:
  "ret x s = (Ok y, u) \<longleftrightarrow> y = x \<and> u = s"
  "fail e s = (Ok y, u) \<longleftrightarrow> False"
  "trap r s = (Ok y, u) \<longleftrightarrow> False"
  "gets f s = (Ok y, u) \<longleftrightarrow> y = f s \<and> u = s"
  "modify g s = (Ok z, u) \<longleftrightarrow> u = g s"
  by (auto simp: exec_comp)

lemma guard_Ok_iff [exec_simps]:
  "guard c e s = (Ok z, u) \<longleftrightarrow> c \<and> u = s"
  "assert_that c r s = (Ok z, u) \<longleftrightarrow> c \<and> u = s"
  by (auto simp: exec_comp)

lemma require_some_Ok_iff [exec_simps]:
  "require_some f e s = (Ok y, u) \<longleftrightarrow> f s = Some y \<and> u = s"
  "expect_some f s = (Ok y, u) \<longleftrightarrow> f s = Some y \<and> u = s"
  by (auto simp: exec_comp split: option.splits)

lemma when_Ok_iff [exec_simps]:
  "run_if c m s = (Ok z, u) \<longleftrightarrow> (if c then m s = (Ok (), u) else u = s)"
  by (auto simp: exec_comp)

lemma if_some_Ok_iff [exec_simps]:
  "if_some o' k s = (Ok z, u) \<longleftrightarrow>
     (case o' of Some x \<Rightarrow> k x s = (Ok (), u) | None \<Rightarrow> u = s)"
  by (auto simp: exec_comp split: option.splits)

lemma if_some_guard_Ok_iff:
  "if_some x (\<lambda>y. guard (P y) e) s = (Ok z, t) \<longleftrightarrow> (\<forall>y. x = Some y \<longrightarrow> P y) \<and> t = s"
  by (auto simp: exec_comp split: option.splits)

lemma ignore_result_Ok_iff [exec_simps]:
  "ignore_result m s = (Ok z, u) \<longleftrightarrow> (\<exists>x. m s = (Ok x, u)) \<or> (\<exists>e. m s = (Err e, u))"
  by (auto simp: exec_comp split: prod.splits outcome.splits)

lemma arith_Ok_iff [exec_simps]:
  "u32_add a b s = (Ok c, u) \<longleftrightarrow> c = a + b \<and> a + b \<le> u32_max \<and> u = s"
  "u64_add a b s = (Ok c, u) \<longleftrightarrow> c = a + b \<and> a + b \<le> u64_max \<and> u = s"
  "u32_sub a b s = (Ok c, u) \<longleftrightarrow> c = a - b \<and> b \<le> a \<and> u = s"
  "i128_add i j s = (Ok k, u) \<longleftrightarrow> k = i + j \<and> in_i128 (i + j) \<and> u = s"
  "i128_sub i j s = (Ok k, u) \<longleftrightarrow> k = i - j \<and> in_i128 (i - j) \<and> u = s"
  "i128_mul i j s = (Ok k, u) \<longleftrightarrow> k = i * j \<and> in_i128 (i * j) \<and> u = s"
  by (auto simp: exec_comp)

lemmas order_exec_simps [exec_simps] = not_less not_le

text \<open>The composition satisfies the monad laws.\<close>

lemma bind_ret [simp]: "bind (ret x) k = k x" "bind m ret = m"
  by (auto simp: exec_comp fun_eq_iff split: prod.splits outcome.splits)

lemma bind_assoc: "bind (bind m k) h = bind m (\<lambda>x. bind (k x) h)"
  by (auto simp: exec_comp fun_eq_iff split: prod.splits outcome.splits)

lemma for_each_append:
  "for_each (xs @ ys) body = bind (for_each xs body) (\<lambda>_. for_each ys body)"
  by (induction xs) (simp_all add: bind_assoc)

section \<open>Preservation\<close>

text \<open>
  \<open>preserves I m\<close>: a run of \<open>m\<close> that returns \<open>Ok\<close> from a state with \<open>I\<close> ends in
  a state with \<open>I\<close>. A run that returns \<open>Err\<close> or traps is rolled back by the
  host, so it needs no clause.
\<close>

definition preserves :: "('s \<Rightarrow> bool) \<Rightarrow> ('s, 'e, 'a) exec \<Rightarrow> bool" where
  "preserves I m \<longleftrightarrow> (\<forall>s x t. m s = (Ok x, t) \<longrightarrow> I s \<longrightarrow> I t)"

lemma preservesI: "(\<And>s x t. m s = (Ok x, t) \<Longrightarrow> I s \<Longrightarrow> I t) \<Longrightarrow> preserves I m"
  by (auto simp: preserves_def)

lemma preservesD: "preserves I m \<Longrightarrow> m s = (Ok x, t) \<Longrightarrow> I s \<Longrightarrow> I t"
  by (auto simp: preserves_def)

lemma preserves_bind [pres]:
  "preserves I m \<Longrightarrow> (\<And>x. preserves I (k x)) \<Longrightarrow> preserves I (bind m k)"
  unfolding preserves_def bind_Ok_iff by blast

lemma preserves_pure [pres]:
  "preserves I (ret x)" "preserves I (fail e)" "preserves I (trap r)" "preserves I (gets f)"
  "preserves I (guard c e)" "preserves I (assert_that c r)"
  "preserves I (require_some g e)" "preserves I (expect_some g)"
  by (auto simp: preserves_def exec_simps)

lemma preserves_arith [pres]:
  "preserves I (u32_add a b)" "preserves I (u64_add a b)" "preserves I (u32_sub a b)"
  "preserves I (i128_add i j)" "preserves I (i128_sub i j)" "preserves I (i128_mul i j)"
  by (auto simp: preserves_def exec_simps)

lemma preserves_modify: "(\<And>s. I s \<Longrightarrow> I (f s)) \<Longrightarrow> preserves I (modify f)"
  by (auto simp: preserves_def exec_simps)

lemma preserves_when [pres]: "preserves I m \<Longrightarrow> preserves I (run_if c m)"
  by (auto simp: preserves_def exec_simps)

lemma preserves_if [pres]:
  "preserves I m \<Longrightarrow> preserves I n \<Longrightarrow> preserves I (if c then m else n)"
  by simp

lemma preserves_if_some [pres]:
  "(\<And>x. o' = Some x \<Longrightarrow> preserves I (k x)) \<Longrightarrow> preserves I (if_some o' k)"
  by (auto simp: preserves_def exec_simps split: option.splits)

lemma preserves_case_option [pres]:
  "preserves I m \<Longrightarrow> (\<And>x. preserves I (k x)) \<Longrightarrow>
   preserves I (case o' of None \<Rightarrow> m | Some x \<Rightarrow> k x)"
  by (auto split: option.splits)

lemma preserves_case_prod [pres]:
  "(\<And>a b. p = (a, b) \<Longrightarrow> preserves I (f a b)) \<Longrightarrow> preserves I (case p of (a, b) \<Rightarrow> f a b)"
  by (cases p) auto

lemma preserves_let [pres]: "preserves I (f v) \<Longrightarrow> preserves I (let x = v in f x)"
  by simp

lemma preserves_for_each [pres]:
  "(\<And>x. x \<in> set xs \<Longrightarrow> preserves I (body x)) \<Longrightarrow> preserves I (for_each xs body)"
  by (induction xs) (auto intro!: preserves_bind preserves_pure)

lemma preserves_fold_each [pres]:
  "(\<And>acc x. preserves I (body acc x)) \<Longrightarrow> preserves I (fold_each xs body acc)"
  by (induction xs arbitrary: acc) (auto intro!: preserves_bind preserves_pure)

lemma preserves_ignore_result:
  "(\<And>s r t. m s = (r, t) \<Longrightarrow> (\<forall>q. r \<noteq> Trap q) \<Longrightarrow> I s \<Longrightarrow> I t) \<Longrightarrow> preserves I (ignore_result m)"
  unfolding preserves_def ignore_result_Ok_iff
  by (metis outcome.distinct(3) outcome.distinct(5))

text \<open>What a step returned or checked is known to what follows it.\<close>

lemma preserves_bind_require_some [pres_know]:
  "(\<And>x s. I s \<Longrightarrow> f s = Some x \<Longrightarrow> preserves I (k x)) \<Longrightarrow> preserves I (bind (require_some f e) k)"
  unfolding preserves_def by (auto simp: exec_simps)

lemma preserves_bind_gets [pres_know]:
  "(\<And>x s. I s \<Longrightarrow> f s = x \<Longrightarrow> preserves I (k x)) \<Longrightarrow> preserves I (bind (gets f) k)"
  unfolding preserves_def by (auto simp: exec_simps)

lemma preserves_bind_guard [pres_know]:
  "(c \<Longrightarrow> preserves I (k ())) \<Longrightarrow> preserves I (bind (guard c e) k)"
  unfolding preserves_def by (auto simp: exec_simps)

section \<open>Totals over a store\<close>

text \<open>The sum of a measure over the records of a finite map.\<close>

definition map_total :: "('r \<Rightarrow> int) \<Rightarrow> ('k \<Rightarrow> 'r option) \<Rightarrow> int" where
  "map_total v m = (\<Sum>k \<in> dom m. v (the (m k)))"

lemma map_total_empty [simp]: "map_total v (\<lambda>_. None) = 0"
  by (simp add: map_total_def dom_def)

lemma map_total_upd:
  assumes "finite (dom m)"
  shows "map_total v (m(k := Some r)) =
    map_total v m + v r - (case m k of Some r' \<Rightarrow> v r' | None \<Rightarrow> 0)"
proof -
  have "map_total v (m(k := Some r)) = v r + (\<Sum>i \<in> dom m - {k}. v (the (m i)))"
    using assms by (simp add: map_total_def sum.insert_remove)
  also have "(\<Sum>i \<in> dom m - {k}. v (the (m i))) =
      map_total v m - (case m k of Some r' \<Rightarrow> v r' | None \<Rightarrow> 0)"
    using assms by (cases "m k") (auto simp: map_total_def sum_diff1 domI dom_def)
  finally show ?thesis by (simp add: fun_upd_def)
qed

lemma map_total_nonneg: "(\<And>k r. m k = Some r \<Longrightarrow> 0 \<le> v r) \<Longrightarrow> 0 \<le> map_total v m"
  by (auto simp: map_total_def intro: sum_nonneg)

lemma map_total_member:
  assumes "finite (dom m)" and "m k = Some r" and "\<And>k r. m k = Some r \<Longrightarrow> 0 \<le> v r"
  shows "v r \<le> map_total v m"
proof -
  have "v (the (m k)) \<le> map_total v m"
    unfolding map_total_def using assms by (intro member_le_sum) auto
  with assms(2) show ?thesis by simp
qed

section \<open>Big-endian bytes\<close>

type_synonym bytes = "8 word list"

text \<open>\<open>to_be_bytes\<close> of an integer of \<open>n\<close> bytes, in two's complement.\<close>

primrec be_bytes :: "nat \<Rightarrow> int \<Rightarrow> bytes" where
  "be_bytes 0 x = []"
| "be_bytes (Suc n) x = be_bytes n (x div 256) @ [word_of_int x]"

lemma length_be_bytes [simp]: "length (be_bytes n x) = n"
  by (induction n arbitrary: x) simp_all

lemma word8_of_int_eq_iff: "(word_of_int x :: 8 word) = word_of_int y \<longleftrightarrow> x mod 256 = y mod 256"
  by (simp add: word_of_int_eq_iff take_bit_eq_mod)

lemma be_bytes_eq_mod: "be_bytes n x = be_bytes n y \<longleftrightarrow> x mod 256 ^ n = y mod 256 ^ n"
proof (induction n arbitrary: x y)
  case 0
  show ?case by simp
next
  case (Suc n)
  have split: "z mod 256 ^ Suc n = 256 * (z div 256 mod 256 ^ n) + z mod 256" for z :: int
    by (metis mult.commute power_Suc zero_le_numeral zmod_zmult2_eq zero_le_power add.commute)
  have "x mod 256 ^ Suc n = y mod 256 ^ Suc n \<longleftrightarrow>
      x div 256 mod 256 ^ n = y div 256 mod 256 ^ n \<and> x mod 256 = y mod 256"
    unfolding split
    by (smt (verit, best) pos_mod_bound pos_mod_sign)
  then show ?case by (auto simp: Suc.IH word8_of_int_eq_iff)
qed

text \<open>Within the range of the type the encoding is injective.\<close>

lemma be_bytes_u64_inj:
  assumes "be_bytes 8 (int m) = be_bytes 8 (int n)" "m \<le> u64_max" "n \<le> u64_max"
  shows "m = n"
  using assms by (simp add: be_bytes_eq_mod const_defs)

lemma be_bytes_i128_inj:
  assumes "be_bytes 16 x = be_bytes 16 y" "in_i128 x" "in_i128 y"
  shows "x = y"
proof -
  from assms(1) have "x mod 256 ^ 16 = y mod 256 ^ 16" by (simp only: be_bytes_eq_mod)
  then have "(256 :: int) ^ 16 dvd x - y" by (simp only: mod_eq_dvd_iff)
  then obtain q where q: "x - y = 256 ^ 16 * q" by (elim dvdE)
  with assms(2,3) have "q = 0" by (simp add: in_i128_def const_defs)
  with q show ?thesis by simp
qed

end
