(* ===== verification/Types.thy ===== *)
theory Types
  imports Prelude
begin

text \<open>
  The data model: the error codes of \<open>error.rs\<close>, the structs and enums of
  \<open>types.rs\<close>, the storage keys of \<open>storage.rs\<close> and the events the contract
  publishes. Field selectors carry a short prefix for their struct (\<open>p_amount\<close> is
  \<open>PaymentOrder.amount\<close>), since a selector is a global name in HOL. \<open>Address\<close> is
  opaque in the SDK; only its equality is used.
\<close>

datatype address = Addr nat

section \<open>Errors\<close>

text \<open>
  The variants in the order of \<open>error.rs\<close>. The last three are used by the code
  (\<open>helper.rs\<close> and \<open>create_payment_request\<close>) but the enum does not declare them.
\<close>

datatype (plugins only:) payment_error =
    Unauthorized | AdminAlreadySet | InvalidAdminAddress | InvalidNonce | AuthLockedOut
  | MerchantNotFound | MerchantAlreadyRegistered | MerchantInactive
  | PaymentNotFound | PaymentAlreadyExists | InvalidAmount | InvalidSignature | PaymentExpired
  | SignatureExpired | InsufficientBalance | TokenNotAllowed
  | RefundNotFound | RefundAlreadyExists | RefundWindowExpired | RefundExceedsOriginal
  | RefundNotApproved | RefundAlreadyCompleted | RefundBelowMinimum | RefundLimitExceeded
  | TooManySigners | MultisigNotFound | MultisigAlreadySigned | MultisigAlreadyExecuted
  | InsufficientSignatures | MultisigAlreadyCancelled | MultisigCancelled | MultisigExpired
  | ContractPaused | PaymentHistoryLimitExceeded | TimelockActive | InsufficientUnpauseSignatures
  | AlreadyApprovedUnpause | NotAPauseGuardian | VersionMismatch | InvalidIssuer
  | StorageVersionTooNew | StorageMigrationRequired | CommitmentAlreadyExists | CommitmentNotFound
  | CommitmentExpired | CommitmentHashMismatch
  | InvalidInput | PaginationLimitExceeded | BatchSizeExceeded | DuplicateOrderId | InvalidTags
  | SerializedPayloadTooLarge | InvalidOrderId | OrderIdTooLong
  | InvalidReferral
  | SubscriptionPlanAlreadyExists | SubscriptionAlreadyExists | SubscriptionPlanNotFound
  | SubscriptionNotFound | SubscriptionNotActive | SubscriptionMaxCyclesReached
  | SubscriptionIntervalNotElapsed
  | RateLimitExceeded
  | EscrowNotFound | EscrowAlreadyExists | EscrowNotUnlocked | EscrowAlreadyFinalised
  | EscrowUnauthorised | EscrowLockExpired
  | DisputeNotFound | DisputeAlreadyExists | DisputeRefundNotRejected | DisputeAlreadyResolved
  | DisputeNotOpen | DisputeAlreadyEscalated
  | InvalidCategory | InvalidMemoLength | InvalidTtl

text \<open>The declared discriminants (\<open>#[repr(u32)]\<close>); \<open>None\<close> for an undeclared variant.\<close>

primrec error_code :: "payment_error \<Rightarrow> nat option" where
  "error_code Unauthorized = Some 1"
| "error_code AdminAlreadySet = Some 2"
| "error_code InvalidAdminAddress = Some 3"
| "error_code InvalidNonce = Some 4"
| "error_code AuthLockedOut = Some 5"
| "error_code MerchantNotFound = Some 10"
| "error_code MerchantAlreadyRegistered = Some 11"
| "error_code MerchantInactive = Some 12"
| "error_code PaymentNotFound = Some 20"
| "error_code PaymentAlreadyExists = Some 21"
| "error_code InvalidAmount = Some 22"
| "error_code InvalidSignature = Some 23"
| "error_code PaymentExpired = Some 24"
| "error_code SignatureExpired = Some 27"
| "error_code InsufficientBalance = Some 25"
| "error_code TokenNotAllowed = Some 26"
| "error_code RefundNotFound = Some 30"
| "error_code RefundAlreadyExists = Some 31"
| "error_code RefundWindowExpired = Some 32"
| "error_code RefundExceedsOriginal = Some 33"
| "error_code RefundNotApproved = Some 34"
| "error_code RefundAlreadyCompleted = Some 35"
| "error_code RefundBelowMinimum = Some 36"
| "error_code RefundLimitExceeded = Some 37"
| "error_code TooManySigners = Some 47"
| "error_code MultisigNotFound = Some 40"
| "error_code MultisigAlreadySigned = Some 41"
| "error_code MultisigAlreadyExecuted = Some 42"
| "error_code InsufficientSignatures = Some 43"
| "error_code MultisigAlreadyCancelled = Some 44"
| "error_code MultisigCancelled = Some 45"
| "error_code MultisigExpired = Some 46"
| "error_code ContractPaused = Some 70"
| "error_code PaymentHistoryLimitExceeded = Some 71"
| "error_code TimelockActive = Some 72"
| "error_code InsufficientUnpauseSignatures = Some 73"
| "error_code AlreadyApprovedUnpause = Some 74"
| "error_code NotAPauseGuardian = Some 75"
| "error_code VersionMismatch = Some 79"
| "error_code InvalidIssuer = Some 80"
| "error_code StorageVersionTooNew = Some 81"
| "error_code StorageMigrationRequired = Some 82"
| "error_code CommitmentAlreadyExists = Some 84"
| "error_code CommitmentNotFound = Some 85"
| "error_code CommitmentExpired = Some 86"
| "error_code CommitmentHashMismatch = Some 87"
| "error_code InvalidInput = Some 50"
| "error_code PaginationLimitExceeded = Some 51"
| "error_code BatchSizeExceeded = Some 52"
| "error_code DuplicateOrderId = Some 55"
| "error_code InvalidTags = Some 53"
| "error_code SerializedPayloadTooLarge = Some 54"
| "error_code InvalidOrderId = Some 55"
| "error_code OrderIdTooLong = Some 56"
| "error_code InvalidReferral = Some 83"
| "error_code SubscriptionPlanAlreadyExists = Some 60"
| "error_code SubscriptionAlreadyExists = Some 61"
| "error_code SubscriptionPlanNotFound = Some 62"
| "error_code SubscriptionNotFound = Some 63"
| "error_code SubscriptionNotActive = Some 64"
| "error_code SubscriptionMaxCyclesReached = Some 65"
| "error_code SubscriptionIntervalNotElapsed = Some 66"
| "error_code RateLimitExceeded = Some 90"
| "error_code EscrowNotFound = Some 100"
| "error_code EscrowAlreadyExists = Some 101"
| "error_code EscrowNotUnlocked = Some 102"
| "error_code EscrowAlreadyFinalised = Some 103"
| "error_code EscrowUnauthorised = Some 104"
| "error_code EscrowLockExpired = Some 105"
| "error_code DisputeNotFound = Some 110"
| "error_code DisputeAlreadyExists = Some 111"
| "error_code DisputeRefundNotRejected = Some 112"
| "error_code DisputeAlreadyResolved = Some 113"
| "error_code DisputeNotOpen = Some 114"
| "error_code DisputeAlreadyEscalated = Some 115"
| "error_code InvalidCategory = None"
| "error_code InvalidMemoLength = None"
| "error_code InvalidTtl = None"

section \<open>Structs and enums\<close>

datatype merchant_category = Retail | Food | Services | Digital | OtherCategory | Custom string

record merchant =
  m_address :: address
  m_name :: string
  m_description :: string
  m_contact_info :: string
  m_category :: merchant_category
  m_active :: bool
  m_verified :: bool
  m_registered_at :: nat
  m_total_received :: int
  m_referral_count :: nat

datatype payment_status = PCompleted | PPartiallyRefunded | PFullyRefunded

record payment_order =
  p_order_id :: string
  p_merchant_address :: address
  p_payer :: address
  p_token :: address
  p_amount :: int
  p_version :: nat
  p_status :: payment_status
  p_paid_at :: nat
  p_refunded_amount :: int
  p_memo :: string
  p_tags :: "string list option"
  p_platform_fee :: int

record payment_summary =
  psum_order_id :: string
  psum_merchant_address :: address
  psum_amount :: int
  psum_token :: address
  psum_status :: payment_status
  psum_paid_at :: nat

record payment_request =
  pr_request_id :: string
  pr_merchant :: address
  pr_token :: address
  pr_amount :: int
  pr_memo :: string
  pr_expires_at :: nat

record batch_payment_item =
  bi_order_id :: string
  bi_merchant_address :: address
  bi_token_address :: address
  bi_amount :: int
  bi_memo :: string
  bi_tags :: "string list option"
  bi_signature :: bytes
  bi_merchant_public_key :: bytes

datatype refund_status = RPending | RApproved | RRejected | RCompleted

record refund_record =
  r_refund_id :: string
  r_order_id :: string
  r_initiator :: address
  r_amount :: int
  r_reason :: string
  r_status :: refund_status
  r_created_at :: nat

record signature_entry =
  se_signer :: address
  se_signature :: bytes

record multisig_payment =
  ms_payment_id :: string
  ms_initiator :: address
  ms_merchant_address :: address
  ms_token :: address
  ms_amount :: int
  ms_required_signatures :: nat
  ms_signers :: "address list"
  ms_collected :: "signature_entry list"
  ms_executed :: bool
  ms_cancelled :: bool
  ms_created_at :: nat
  ms_expires_at :: "nat option"

datatype sort_field = DateField | AmountField

datatype sort_order = Ascending | Descending

datatype status_filter = SAny | SCompleted | SPartiallyRefunded | SFullyRefunded

record payment_filter =
  pf_date_start :: "nat option"
  pf_date_end :: "nat option"
  pf_amount_min :: "int option"
  pf_amount_max :: "int option"
  pf_token :: "address option"
  pf_status :: status_filter
  pf_tag :: "string option"

record merchant_page =
  mpg_merchants :: "merchant list"
  mpg_next_cursor :: "address option"
  mpg_total :: nat

record payment_page =
  ppg_payments :: "payment_order list"
  ppg_next_cursor :: "string option"
  ppg_total_matching :: nat

record merchant_commitment =
  mc_merchant_address :: address
  mc_commitment_hash :: bytes
  mc_committed_at_ledger :: nat

record global_stats =
  gs_total_payments :: nat
  gs_total_volume :: int
  gs_total_refunds :: nat
  gs_total_refund_volume :: int
  gs_active_merchants :: nat

record merchant_stats =
  mst_total_payments :: nat
  mst_total_volume :: int
  mst_total_refunds :: nat
  mst_total_refund_volume :: int

datatype escrow_status = ELocked | EReleased | ECancelled

record escrow_record =
  e_order_id :: string
  e_payer :: address
  e_merchant :: address
  e_token :: address
  e_amount :: int
  e_unlock_at :: nat
  e_status :: escrow_status
  e_created_at :: nat

datatype escrow_hold_status = HHeld | HReleased | HCancelled

record escrow_hold_record =
  eh_escrow_id :: string
  eh_payer :: address
  eh_merchant :: address
  eh_token :: address
  eh_amount :: int
  eh_condition_hash :: bytes
  eh_arbiter :: address
  eh_timeout_at :: nat
  eh_status :: escrow_hold_status
  eh_created_at :: nat

datatype dispute_status = DOpen | DUnderReview | DResolved | DEscalated

datatype dispute_outcome = MerchantFavor | PayerFavor

record dispute_record =
  d_dispute_id :: string
  d_order_id :: string
  d_refund_id :: string
  d_initiator :: address
  d_reason :: string
  d_status :: dispute_status
  d_outcome :: "dispute_outcome option"
  d_resolution :: "string option"
  d_created_at :: nat

datatype suspicious_activity_reason = LargePayment | RapidRefunds | ManyAuthFailures

datatype subscription_status = SubActive | SubCancelled | SubCompleted

record subscription_plan =
  sp_plan_id :: string
  sp_token :: address
  sp_amount :: int
  sp_interval_secs :: nat
  sp_max_cycles :: nat
  sp_created_at :: nat

record subscription =
  sub_subscription_id :: string
  sub_plan_id :: string
  sub_merchant :: address
  sub_subscriber :: address
  sub_status :: subscription_status
  sub_cycles_charged :: nat
  sub_last_charged_at :: nat
  sub_created_at :: nat

datatype (plugins only:) admin_action_type =
    SetAdmin | TransferAdmin | PauseContract | UnpauseContract | AddAllowedToken
  | RemoveAllowedToken | SetPlatformFee | SetLargePaymentThreshold | SetPaymentCleanupPeriod
  | SetMultisigExpiryDuration | SetRefundWindow | SetMinRefundAmount | DeactivateMerchant
  | ReactivateMerchant | VerifyMerchant | UnverifyMerchant | ArchivePaymentRecord
  | CleanupExpiredPayments | SetPauseGuardians | UpgradeContract | ConfirmMerchantDataDeletion
  | OtherAction

record admin_audit_entry =
  ae_index :: nat
  ae_action :: admin_action_type
  ae_caller :: address
  ae_params :: string
  ae_timestamp :: nat
  ae_ledger_sequence :: nat

section \<open>Events\<close>

text \<open>
  A published event is its topic (every topic tuple starts with the symbol
  \<open>lumenflow\<close>), the address some topics carry as a third element, and the data
  tuple. The structs used as event payloads are their fields in declaration order.
\<close>

datatype event_val =
    AddrV address
  | StrV string
  | OptStrV "string option"
  | I128V int
  | UintV nat
  | BoolV bool
  | BytesV bytes
  | ReasonV suspicious_activity_reason
  | StatusV payment_status

datatype (plugins only:) topic =
    T_admin_set | T_admin_transferred | T_admin_action | T_max_signers_updated
  | T_refund_window_set | T_contract_paused | T_contract_unpaused | T_signature_expiry_window_set
  | T_auth_lockout_reset | T_rate_limit_set | T_token_allowed | T_token_disallowed
  | T_issuer_allowed | T_issuer_disallowed | T_config_updated | T_suspicious_activity
  | T_merchant_committed | T_merchant_registered | T_merchant_referred | T_merchant_updated
  | T_merchant_deactivated | T_merchant_reactivated | T_merchant_verified | T_merchant_unverified
  | T_payment_processed | T_payment_history_near_limit | T_payment_status_updated
  | T_payment_archived | T_refund_initiated | T_refund_approved | T_refund_rejected
  | T_refund_executed | T_dispute_raised | T_dispute_resolved | T_dispute_initiated
  | T_dispute_under_review | T_dispute_escalated | T_multisig_initiated | T_multisig_executed
  | T_contract_upgraded | T_storage_migrated | T_payment_request_paid
  | T_payment_request_cancelled | T_subscription_plan_created | T_subscription_created
  | T_subscription_charged | T_subscription_cancelled | T_escrow_created | T_escrow_released
  | T_escrow_cancelled | T_escrow_held

datatype event = Event topic "address option" "event_val list"

section \<open>Storage keys\<close>

text \<open>
  The keys of \<open>DataKey\<close>; the last three are used by \<open>storage.rs\<close> but are missing
  from the enum. A key names one slot of one of the three stores of \<^verbatim>\<open>Ledger\<close>.
\<close>

datatype (plugins only:) data_key =
    K_Admin | K_Paused | K_CP | K_GlobalStats | K_Merchant address | K_ML | K_MS address
  | K_Payment string | K_MP address | K_PP address | K_Refund string | K_RefundRetentionPeriod
  | K_OR string | K_Dispute string | K_Multisig string | K_PaymentRequest string
  | K_PaymentRequestIndex | K_LPT | K_AT address | K_MED | K_MRA | K_PFB | K_FR | K_RW
  | K_Nonce address | K_MerchantNonce address | K_StoredVersion | K_SubscriptionPlan string
  | K_Subscription string | K_SubscriptionReserve address address | K_SP string | K_Sub string
  | K_SR address address | K_RateLimitPerWindow | K_RateLimitCounter address nat
  | K_Escrow string | K_AuthFailCount address | K_AuthLockoutUntil address
  | K_StoredContractVersion | K_StorageVersion | K_SV | K_PR | K_ULU | K_PG | K_EPA
  | K_AllowedIssuer address | K_DeletionRequest address | K_ReferralFeeBps
  | K_MerchantCommitment address | K_EscrowHold string | K_AdminAuditEntry nat
  | K_AdminAuditCount | K_AdminAuditMaxEntries | K_MSL
  | K_SEW | K_MaxActivePaymentRequests | K_MerchantActiveRequests address

section \<open>Error codes\<close>

text \<open>A client sees only the number. The declared variants, in the order above.\<close>

definition declared_errors :: "payment_error list" where
  "declared_errors =
    [Unauthorized, AdminAlreadySet, InvalidAdminAddress, InvalidNonce, AuthLockedOut,
     MerchantNotFound, MerchantAlreadyRegistered, MerchantInactive, PaymentNotFound,
     PaymentAlreadyExists, InvalidAmount, InvalidSignature, PaymentExpired, SignatureExpired,
     InsufficientBalance, TokenNotAllowed, RefundNotFound, RefundAlreadyExists,
     RefundWindowExpired, RefundExceedsOriginal, RefundNotApproved, RefundAlreadyCompleted,
     RefundBelowMinimum, RefundLimitExceeded, TooManySigners, MultisigNotFound,
     MultisigAlreadySigned, MultisigAlreadyExecuted, InsufficientSignatures,
     MultisigAlreadyCancelled, MultisigCancelled, MultisigExpired, ContractPaused,
     PaymentHistoryLimitExceeded, TimelockActive, InsufficientUnpauseSignatures,
     AlreadyApprovedUnpause, NotAPauseGuardian, VersionMismatch, InvalidIssuer,
     StorageVersionTooNew, StorageMigrationRequired, CommitmentAlreadyExists,
     CommitmentNotFound, CommitmentExpired, CommitmentHashMismatch, InvalidInput,
     PaginationLimitExceeded, BatchSizeExceeded, DuplicateOrderId, InvalidTags,
     SerializedPayloadTooLarge, InvalidOrderId, OrderIdTooLong, InvalidReferral,
     SubscriptionPlanAlreadyExists, SubscriptionAlreadyExists, SubscriptionPlanNotFound,
     SubscriptionNotFound, SubscriptionNotActive, SubscriptionMaxCyclesReached,
     SubscriptionIntervalNotElapsed, RateLimitExceeded, EscrowNotFound, EscrowAlreadyExists,
     EscrowNotUnlocked, EscrowAlreadyFinalised, EscrowUnauthorised, EscrowLockExpired,
     DisputeNotFound, DisputeAlreadyExists, DisputeRefundNotRejected, DisputeAlreadyResolved,
     DisputeNotOpen, DisputeAlreadyEscalated]"

definition error_of_code :: "nat \<Rightarrow> payment_error option" where
  "error_of_code n = find (\<lambda>e. error_code e = Some n) declared_errors"

lemma declared_errors_iff: "e \<in> set declared_errors \<longleftrightarrow> error_code e \<noteq> None"
  by (cases e) (simp_all add: declared_errors_def)

text \<open>
  C29. The numeric code determines the error, so that decoding it gives the error back,
  with one exception: \<open>DuplicateOrderId\<close> and \<open>InvalidOrderId\<close> share the code 55, and
  a client takes the second for the first.
\<close>

theorem error_codes_round_trip:
  "error_code e = Some n \<Longrightarrow> error_of_code n = Some (if e = InvalidOrderId then DuplicateOrderId else e)"
  by (cases e) (simp_all add: error_of_code_def declared_errors_def)

theorem error_codes_round_trip_witness: "error_of_code 55 = Some DuplicateOrderId"
  using error_codes_round_trip [of InvalidOrderId 55] by simp

end
