(* ===== verification/Ledger.thy ===== *)
theory Ledger
  imports Types
begin

text \<open>
  What the contract sees of the Soroban host (\<open>Env\<close>): the ledger header, its own
  address, the addresses whose authorisation the invocation carries, the three
  stores with one slot per \<open>DataKey\<close>, the published events, and the requests to the
  host that the contract cannot observe (lifetime extensions, a code upgrade).
  The parts of the host that are not under src/ are the record \<open>host\<close>, a parameter
  of every operation that uses it: ed25519, SHA-256, XDR, and the token contracts,
  whose own state is the opaque \<open>world\<close>.
\<close>

section \<open>The stores\<close>

text \<open>
  Instance storage. The last nine slots are the keys of version 1, raw symbols that
  only \<open>migrate_storage_keys\<close> reads.
\<close>

record instance_store =
  i_Admin :: "address option"
  i_Paused :: "bool option"
  i_CP :: "nat option"
  i_GlobalStats :: "global_stats option"
  i_ML :: "address list option"
  i_MS :: "address \<Rightarrow> merchant_stats option"
  i_RefundRetentionPeriod :: "nat option"
  i_LPT :: "int option"
  i_AT :: "address \<Rightarrow> unit option"
  i_MED :: "nat option"
  i_MRA :: "int option"
  i_PFB :: "nat option"
  i_FR :: "address option"
  i_RW :: "nat option"
  i_RateLimitPerWindow :: "nat option"
  i_StorageVersion :: "nat option"
  i_SV :: "string option"
  i_PR :: "string option"
  i_ULU :: "nat option"
  i_PG :: "address list option"
  i_EPA :: "address list option"
  i_AllowedIssuer :: "address \<Rightarrow> unit option"
  i_ReferralFeeBps :: "nat option"
  i_AdminAuditCount :: "nat option"
  i_AdminAuditMaxEntries :: "nat option"
  i_MSL :: "nat option"
  i_SEW :: "nat option"
  i_MaxActivePaymentRequests :: "nat option"
  i_MerchantActiveRequests :: "address \<Rightarrow> nat option"
  v1_CleanupPeriod :: "nat option"
  v1_PlatformFeeBps :: "nat option"
  v1_RefundWindow :: "nat option"
  v1_LargePaymentThreshold :: "int option"
  v1_MinRefundAmount :: "int option"
  v1_MultisigExpiryDuration :: "nat option"
  v1_StoredVersion :: "string option"
  v1_MerchantList :: "address list option"
  v1_FeeRecipient :: "address option"

record persistent_store =
  k_Merchant :: "address \<Rightarrow> merchant option"
  k_Payment :: "string \<Rightarrow> payment_order option"
  k_MP :: "address \<Rightarrow> string list option"
  k_PP :: "address \<Rightarrow> string list option"
  k_Refund :: "string \<Rightarrow> refund_record option"
  k_OR :: "string \<Rightarrow> string list option"
  k_Dispute :: "string \<Rightarrow> dispute_record option"
  k_Multisig :: "string \<Rightarrow> multisig_payment option"
  k_Nonce :: "address \<Rightarrow> nat option"
  k_MerchantNonce :: "address \<Rightarrow> nat option"
  k_SP :: "string \<Rightarrow> subscription_plan option"
  k_Sub :: "string \<Rightarrow> subscription option"
  k_SR :: "address \<Rightarrow> address \<Rightarrow> int option"
  k_Escrow :: "string \<Rightarrow> escrow_record option"
  k_DeletionRequest :: "address \<Rightarrow> nat option"
  k_EscrowHold :: "string \<Rightarrow> escrow_hold_record option"
  k_AdminAuditEntry :: "nat \<Rightarrow> admin_audit_entry option"

record temporary_store =
  t_PaymentRequest :: "string \<Rightarrow> payment_request option"
  t_PaymentRequestIndex :: "string list option"
  t_RateLimitCounter :: "address \<Rightarrow> nat \<Rightarrow> nat option"
  t_AuthFailCount :: "address \<Rightarrow> (nat \<times> nat) option"
  t_AuthLockoutUntil :: "address \<Rightarrow> nat option"
  t_MerchantCommitment :: "address \<Rightarrow> merchant_commitment option"

section \<open>The environment of an invocation\<close>

record ledger_info =
  timestamp :: nat
  sequence_number :: nat
  network_id :: bytes
  max_live_until_ledger :: nat

datatype host_call = ExtendTtl data_key nat nat | UpdateWasm bytes

record 'w env =
  ledger :: ledger_info
  self :: address
  auths :: "address set"
  instance_st :: instance_store
  persistent_st :: persistent_store
  temporary_st :: temporary_store
  world :: 'w
  events :: "event list"
  host_calls :: "host_call list"

type_synonym ('w, 'a) contract = "('w env, payment_error, 'a) exec"

text \<open>
  Code outside src/. A token operation gets the token's address and the state of
  the token contracts and returns their new state, or \<open>None\<close> when the token
  traps. \<open>max_memo_length\<close> is the constant \<open>MAX_MEMO_LENGTH\<close> that \<open>helper.rs\<close> uses
  without any definition in the repository, and \<open>sort_payments\<close> is
  \<open>slice::sort_unstable_by\<close>, whose order of equal elements Rust leaves open.
\<close>

record 'w host =
  ed25519_verify :: "bytes \<Rightarrow> bytes \<Rightarrow> bytes \<Rightarrow> bool"
  sha256 :: "bytes \<Rightarrow> bytes"
  address_xdr :: "address \<Rightarrow> bytes"
  string_xdr :: "string \<Rightarrow> bytes"
  token_transfer :: "address \<Rightarrow> address \<Rightarrow> address \<Rightarrow> int \<Rightarrow> 'w \<Rightarrow> 'w option"
  token_transfer_from :: "address \<Rightarrow> address \<Rightarrow> address \<Rightarrow> address \<Rightarrow> int \<Rightarrow> 'w \<Rightarrow> 'w option"
  token_approve :: "address \<Rightarrow> address \<Rightarrow> address \<Rightarrow> int \<Rightarrow> nat \<Rightarrow> 'w \<Rightarrow> 'w option"
  max_memo_length :: nat
  sort_payments :: "(payment_order \<Rightarrow> payment_order \<Rightarrow> int) \<Rightarrow> payment_order list \<Rightarrow> payment_order list"

definition now :: "'w env \<Rightarrow> nat" where
  [storage_defs]: "now s = timestamp (ledger s)"

definition seq_no :: "'w env \<Rightarrow> nat" where
  [storage_defs]: "seq_no s = sequence_number (ledger s)"

section \<open>Host functions\<close>

definition require_auth :: "address \<Rightarrow> ('w, unit) contract" where
  "require_auth a s = (if a \<in> auths s then (Ok (), s) else (Trap AuthTrap, s))"

definition publish :: "topic \<Rightarrow> address option \<Rightarrow> event_val list \<Rightarrow> ('w, unit) contract" where
  "publish t a d = modify (\<lambda>s. s\<lparr>events := events s @ [Event t a d]\<rparr>)"

definition extend_ttl :: "data_key \<Rightarrow> nat \<Rightarrow> nat \<Rightarrow> 'w env \<Rightarrow> 'w env" where
  [storage_defs]: "extend_ttl k threshold extend_to s =
     s\<lparr>host_calls := host_calls s @ [ExtendTtl k threshold extend_to]\<rparr>"

definition update_current_contract_wasm :: "bytes \<Rightarrow> ('w, unit) contract" where
  "update_current_contract_wasm hash =
     modify (\<lambda>s. s\<lparr>host_calls := host_calls s @ [UpdateWasm hash]\<rparr>)"

text \<open>A failing token call traps the whole invocation.\<close>

definition on_world :: "('w \<Rightarrow> 'w option) \<Rightarrow> ('w, unit) contract" where
  "on_world f s = (case f (world s) of Some w \<Rightarrow> (Ok (), s\<lparr>world := w\<rparr>) | None \<Rightarrow> (Trap TokenTrap, s))"

definition transfer :: "'w host \<Rightarrow> address \<Rightarrow> address \<Rightarrow> address \<Rightarrow> int \<Rightarrow> ('w, unit) contract" where
  "transfer h tok from to amount = on_world (token_transfer h tok from to amount)"

definition transfer_from ::
  "'w host \<Rightarrow> address \<Rightarrow> address \<Rightarrow> address \<Rightarrow> address \<Rightarrow> int \<Rightarrow> ('w, unit) contract" where
  "transfer_from h tok spender from to amount =
     on_world (token_transfer_from h tok spender from to amount)"

definition approve ::
  "'w host \<Rightarrow> address \<Rightarrow> address \<Rightarrow> address \<Rightarrow> int \<Rightarrow> nat \<Rightarrow> ('w, unit) contract" where
  "approve h tok from spender amount live_until =
     on_world (token_approve h tok from spender amount live_until)"

lemma require_auth_Ok_iff [exec_simps]:
  "require_auth a s = (Ok z, u) \<longleftrightarrow> a \<in> auths s \<and> u = s"
  by (auto simp: require_auth_def)

lemma publish_Ok_iff [exec_simps]:
  "publish t a d s = (Ok z, u) \<longleftrightarrow> u = s\<lparr>events := events s @ [Event t a d]\<rparr>"
  by (auto simp: publish_def exec_simps)

lemma update_wasm_Ok_iff [exec_simps]:
  "update_current_contract_wasm hash s = (Ok z, u) \<longleftrightarrow>
     u = s\<lparr>host_calls := host_calls s @ [UpdateWasm hash]\<rparr>"
  by (auto simp: update_current_contract_wasm_def exec_simps)

lemma on_world_Ok_iff [exec_simps]:
  "on_world f s = (Ok z, u) \<longleftrightarrow> (\<exists>w. f (world s) = Some w \<and> u = s\<lparr>world := w\<rparr>)"
  by (auto simp: on_world_def split: option.splits)

lemma token_Ok_iff [exec_simps]:
  "transfer h tok from to amount s = (Ok z, u) \<longleftrightarrow>
     (\<exists>w. token_transfer h tok from to amount (world s) = Some w \<and> u = s\<lparr>world := w\<rparr>)"
  "transfer_from h tok spender from to amount s = (Ok z, u) \<longleftrightarrow>
     (\<exists>w. token_transfer_from h tok spender from to amount (world s) = Some w \<and> u = s\<lparr>world := w\<rparr>)"
  "approve h tok from spender amount live_until s = (Ok z, u) \<longleftrightarrow>
     (\<exists>w. token_approve h tok from spender amount live_until (world s) = Some w \<and> u = s\<lparr>world := w\<rparr>)"
  by (auto simp: transfer_def transfer_from_def approve_def exec_simps)

lemmas host_comp [exec_comp] =
  require_auth_def publish_def update_current_contract_wasm_def on_world_def
  transfer_def transfer_from_def approve_def

text \<open>Host functions preserve every predicate that does not read what they write.\<close>

lemma preserves_require_auth [pres]: "preserves I (require_auth a)"
  by (auto simp: preserves_def exec_simps)

lemma preserves_publish:
  "(\<And>s es. I s \<Longrightarrow> I (s\<lparr>events := es\<rparr>)) \<Longrightarrow> preserves I (publish t a d)"
  by (auto simp: preserves_def exec_simps)

lemma preserves_token:
  assumes "\<And>s w. I s \<Longrightarrow> I (s\<lparr>world := w\<rparr>)"
  shows "preserves I (transfer h tok from to amount)"
    "preserves I (transfer_from h tok spender from to amount)"
    "preserves I (approve h tok from spender amount live_until)"
  using assms by (auto simp: preserves_def exec_simps)

section \<open>Invocations\<close>

text \<open>
  The host commits an invocation only when it returns \<open>Ok\<close>: an \<open>Err\<close> or a trap
  reverts every write, event and token call made so far.
\<close>

definition invoke :: "('w, 'a) contract \<Rightarrow> 'w env \<Rightarrow> (payment_error, 'a) outcome \<times> 'w env" where
  "invoke m s = (case m s of (Ok x, t) \<Rightarrow> (Ok x, t) | (r, t) \<Rightarrow> (r, s))"

lemma invoke_Ok_iff [exec_simps]: "invoke m s = (Ok x, t) \<longleftrightarrow> m s = (Ok x, t)"
  by (auto simp: invoke_def split: prod.splits outcome.splits)

lemma invoke_not_Ok: "\<forall>x. fst (m s) \<noteq> Ok x \<Longrightarrow> snd (invoke m s) = s"
  by (auto simp: invoke_def split: prod.splits outcome.splits)

lemma invoke_Err: "fst (m s) = Err e \<Longrightarrow> invoke m s = (Err e, s)"
  by (auto simp: invoke_def split: prod.splits outcome.splits)

lemma preserves_invoke: "preserves I m \<Longrightarrow> I s \<Longrightarrow> I (snd (invoke m s))"
  by (auto simp: invoke_def preserves_def split: prod.splits outcome.splits)

end
