(* ===== verification/Storage.thy ===== *)
theory Storage
  imports Ledger
begin

text \<open>
  The accessors of \<open>storage.rs\<close>, one definition per function, prefixed \<open>st_\<close> where
  the contract has an entry point of the same name or where the name is common. A
  reader that has a default returns it when the slot is empty (\<open>unwrap_or\<close>); a writer
  is a state transformer that also records the lifetime extension it requests. A
  writer that can overflow or return an error is an operation of type \<open>contract\<close>.
\<close>

section \<open>Constants\<close>

definition MIN_REFUND_AMOUNT :: int where
  [const_defs]: "MIN_REFUND_AMOUNT = 100"

definition MAX_PAYMENT_IDS_PER_ACCOUNT :: nat where
  [const_defs]: "MAX_PAYMENT_IDS_PER_ACCOUNT = 10000"

definition PAYMENT_HISTORY_WARNING_THRESHOLD :: nat where
  [const_defs]: "PAYMENT_HISTORY_WARNING_THRESHOLD = MAX_PAYMENT_IDS_PER_ACCOUNT * 9 div 10"

definition DEFAULT_PLATFORM_FEE_BPS :: nat where
  [const_defs]: "DEFAULT_PLATFORM_FEE_BPS = 0"

definition MAX_PLATFORM_FEE_BPS :: nat where
  [const_defs]: "MAX_PLATFORM_FEE_BPS = 10000"

definition DEFAULT_REFUND_WINDOW_SECS :: nat where
  [const_defs]: "DEFAULT_REFUND_WINDOW_SECS = 30 * 24 * 3600"

definition MIN_REFUND_WINDOW_SECS :: nat where
  [const_defs]: "MIN_REFUND_WINDOW_SECS = 3600"

definition DEFAULT_CLEANUP_PERIOD_SECS :: nat where
  [const_defs]: "DEFAULT_CLEANUP_PERIOD_SECS = 30 * 24 * 3600"

definition DEFAULT_LARGE_PAYMENT_THRESHOLD :: int where
  [const_defs]: "DEFAULT_LARGE_PAYMENT_THRESHOLD = 10000000"

definition MERCHANT_TTL_LEDGERS :: nat where
  [const_defs]: "MERCHANT_TTL_LEDGERS = 12614400"

definition PAYMENT_TTL_LEDGERS :: nat where
  [const_defs]: "PAYMENT_TTL_LEDGERS = 12614400"

definition REFUND_TTL_LEDGERS :: nat where
  [const_defs]: "REFUND_TTL_LEDGERS = 6307200"

definition MULTISIG_TTL_LEDGERS :: nat where
  [const_defs]: "MULTISIG_TTL_LEDGERS = 6307200"

definition SUBSCRIPTION_TTL_LEDGERS :: nat where
  [const_defs]: "SUBSCRIPTION_TTL_LEDGERS = 12614400"

definition SOROBAN_MAX_ENTRY_TTL :: nat where
  [const_defs]: "SOROBAN_MAX_ENTRY_TTL = 3110400"

definition CURRENT_STORAGE_VERSION :: nat where
  [const_defs]: "CURRENT_STORAGE_VERSION = 1"

definition DEFAULT_MAX_ACTIVE_PAYMENT_REQUESTS :: nat where
  [const_defs]: "DEFAULT_MAX_ACTIVE_PAYMENT_REQUESTS = 100"

definition DEFAULT_MULTISIG_EXPIRY :: nat where
  [const_defs]: "DEFAULT_MULTISIG_EXPIRY = 7 * 24 * 3600"

definition DEFAULT_MAX_MULTISIG_SIGNERS :: nat where
  [const_defs]: "DEFAULT_MAX_MULTISIG_SIGNERS = 10"

definition ESCROW_TTL_LEDGERS :: nat where
  [const_defs]: "ESCROW_TTL_LEDGERS = 6307200"

definition DEFAULT_RATE_LIMIT_PER_WINDOW :: nat where
  [const_defs]: "DEFAULT_RATE_LIMIT_PER_WINDOW = 100"

definition RATE_LIMIT_WINDOW_LEDGERS :: nat where
  [const_defs]: "RATE_LIMIT_WINDOW_LEDGERS = 300"

definition RATE_LIMIT_TTL_LEDGERS :: nat where
  [const_defs]: "RATE_LIMIT_TTL_LEDGERS = 600"

definition AUTH_MAX_FAILURES :: nat where
  [const_defs]: "AUTH_MAX_FAILURES = 10"

definition AUTH_FAILURE_WINDOW_LEDGERS :: nat where
  [const_defs]: "AUTH_FAILURE_WINDOW_LEDGERS = 100"

definition AUTH_LOCKOUT_LEDGERS :: nat where
  [const_defs]: "AUTH_LOCKOUT_LEDGERS = 1000"

definition AUTH_TTL_LEDGERS :: nat where
  [const_defs]: "AUTH_TTL_LEDGERS = 2000"

definition COMMITMENT_TTL_LEDGERS :: nat where
  [const_defs]: "COMMITMENT_TTL_LEDGERS = 100"

definition ESCROW_HOLD_TTL_LEDGERS :: nat where
  [const_defs]: "ESCROW_HOLD_TTL_LEDGERS = 6307200"

definition DEFAULT_ADMIN_AUDIT_MAX_ENTRIES :: nat where
  [const_defs]: "DEFAULT_ADMIN_AUDIT_MAX_ENTRIES = 10000"

definition ADMIN_AUDIT_TTL_LEDGERS :: nat where
  [const_defs]: "ADMIN_AUDIT_TTL_LEDGERS = 12614400"

definition DEFAULT_SIGNATURE_EXPIRY_WINDOW_SECS :: nat where
  [const_defs]: "DEFAULT_SIGNATURE_EXPIRY_WINDOW_SECS = 5 * 60"

text \<open>The \<open>const\<close> assertions of \<open>storage.rs\<close> (lines 57-78 and 817-820).\<close>

definition ttl_assertions :: bool where
  "ttl_assertions \<longleftrightarrow>
     MERCHANT_TTL_LEDGERS \<le> SOROBAN_MAX_ENTRY_TTL * 5 \<and>
     PAYMENT_TTL_LEDGERS \<le> SOROBAN_MAX_ENTRY_TTL * 5 \<and>
     REFUND_TTL_LEDGERS \<le> SOROBAN_MAX_ENTRY_TTL * 5 \<and>
     MULTISIG_TTL_LEDGERS \<le> SOROBAN_MAX_ENTRY_TTL * 5 \<and>
     SUBSCRIPTION_TTL_LEDGERS \<le> SOROBAN_MAX_ENTRY_TTL * 5 \<and>
     ESCROW_TTL_LEDGERS \<le> SOROBAN_MAX_ENTRY_TTL * 5"

section \<open>The three stores\<close>

definition upd_instance :: "(instance_store \<Rightarrow> instance_store) \<Rightarrow> 'w env \<Rightarrow> 'w env" where
  [storage_defs]: "upd_instance f s = s\<lparr>instance_st := f (instance_st s)\<rparr>"

definition upd_persistent :: "(persistent_store \<Rightarrow> persistent_store) \<Rightarrow> 'w env \<Rightarrow> 'w env" where
  [storage_defs]: "upd_persistent f s = s\<lparr>persistent_st := f (persistent_st s)\<rparr>"

definition upd_temporary :: "(temporary_store \<Rightarrow> temporary_store) \<Rightarrow> 'w env \<Rightarrow> 'w env" where
  [storage_defs]: "upd_temporary f s = s\<lparr>temporary_st := f (temporary_st s)\<rparr>"

definition unwrap_or :: "'a option \<Rightarrow> 'a \<Rightarrow> 'a" where
  [storage_defs]: "unwrap_or o' d = (case o' of Some x \<Rightarrow> x | None \<Rightarrow> d)"

section \<open>Admin, pause and configuration\<close>

definition st_get_admin :: "'w env \<Rightarrow> address option" where
  [storage_defs]: "st_get_admin s = i_Admin (instance_st s)"

definition st_set_admin :: "address \<Rightarrow> 'w env \<Rightarrow> 'w env" where
  [storage_defs]: "st_set_admin v = upd_instance (\<lambda>i. i\<lparr>i_Admin := Some v\<rparr>)"

definition st_get_paused :: "'w env \<Rightarrow> bool" where
  [storage_defs]: "st_get_paused s = unwrap_or (i_Paused (instance_st s)) False"

definition st_set_paused :: "bool \<Rightarrow> 'w env \<Rightarrow> 'w env" where
  [storage_defs]: "st_set_paused v = upd_instance (\<lambda>i. i\<lparr>i_Paused := Some v\<rparr>)"

definition st_get_cleanup_period :: "'w env \<Rightarrow> nat" where
  [storage_defs]: "st_get_cleanup_period s = unwrap_or (i_CP (instance_st s)) DEFAULT_CLEANUP_PERIOD_SECS"

definition st_set_cleanup_period :: "nat \<Rightarrow> 'w env \<Rightarrow> 'w env" where
  [storage_defs]: "st_set_cleanup_period v = upd_instance (\<lambda>i. i\<lparr>i_CP := Some v\<rparr>)"

definition st_get_platform_fee_bps :: "'w env \<Rightarrow> nat" where
  [storage_defs]: "st_get_platform_fee_bps s = unwrap_or (i_PFB (instance_st s)) DEFAULT_PLATFORM_FEE_BPS"

definition st_set_platform_fee_bps :: "nat \<Rightarrow> 'w env \<Rightarrow> 'w env" where
  [storage_defs]: "st_set_platform_fee_bps v = upd_instance (\<lambda>i. i\<lparr>i_PFB := Some v\<rparr>)"

definition st_get_fee_recipient :: "'w env \<Rightarrow> address option" where
  [storage_defs]: "st_get_fee_recipient s = i_FR (instance_st s)"

definition st_set_fee_recipient :: "address \<Rightarrow> 'w env \<Rightarrow> 'w env" where
  [storage_defs]: "st_set_fee_recipient v = upd_instance (\<lambda>i. i\<lparr>i_FR := Some v\<rparr>)"

definition st_get_refund_window :: "'w env \<Rightarrow> nat" where
  [storage_defs]: "st_get_refund_window s = unwrap_or (i_RW (instance_st s)) DEFAULT_REFUND_WINDOW_SECS"

definition st_set_refund_window :: "nat \<Rightarrow> 'w env \<Rightarrow> 'w env" where
  [storage_defs]: "st_set_refund_window v = upd_instance (\<lambda>i. i\<lparr>i_RW := Some v\<rparr>)"

definition st_get_refund_retention_period :: "'w env \<Rightarrow> nat" where
  [storage_defs]: "st_get_refund_retention_period s = unwrap_or (i_RefundRetentionPeriod (instance_st s)) (90 * 24 * 3600)"

definition st_set_refund_retention_period :: "nat \<Rightarrow> 'w env \<Rightarrow> 'w env" where
  [storage_defs]: "st_set_refund_retention_period v = upd_instance (\<lambda>i. i\<lparr>i_RefundRetentionPeriod := Some v\<rparr>)"

definition st_get_large_payment_threshold :: "'w env \<Rightarrow> int" where
  [storage_defs]: "st_get_large_payment_threshold s = unwrap_or (i_LPT (instance_st s)) DEFAULT_LARGE_PAYMENT_THRESHOLD"

definition st_set_large_payment_threshold :: "int \<Rightarrow> 'w env \<Rightarrow> 'w env" where
  [storage_defs]: "st_set_large_payment_threshold v = upd_instance (\<lambda>i. i\<lparr>i_LPT := Some v\<rparr>)"

definition st_get_min_refund_amount :: "'w env \<Rightarrow> int" where
  [storage_defs]: "st_get_min_refund_amount s = unwrap_or (i_MRA (instance_st s)) MIN_REFUND_AMOUNT"

definition st_set_min_refund_amount :: "int \<Rightarrow> 'w env \<Rightarrow> 'w env" where
  [storage_defs]: "st_set_min_refund_amount v = upd_instance (\<lambda>i. i\<lparr>i_MRA := Some v\<rparr>)"

section \<open>Statistics\<close>

definition empty_global_stats :: global_stats where
  [storage_defs]: "empty_global_stats =
     \<lparr>gs_total_payments = 0, gs_total_volume = 0, gs_total_refunds = 0,
      gs_total_refund_volume = 0, gs_active_merchants = 0\<rparr>"

definition empty_merchant_stats :: merchant_stats where
  [storage_defs]: "empty_merchant_stats =
     \<lparr>mst_total_payments = 0, mst_total_volume = 0, mst_total_refunds = 0,
      mst_total_refund_volume = 0\<rparr>"

definition st_get_global_stats :: "'w env \<Rightarrow> global_stats" where
  [storage_defs]: "st_get_global_stats s = unwrap_or (i_GlobalStats (instance_st s)) empty_global_stats"

definition st_set_global_stats :: "global_stats \<Rightarrow> 'w env \<Rightarrow> 'w env" where
  [storage_defs]: "st_set_global_stats v = upd_instance (\<lambda>i. i\<lparr>i_GlobalStats := Some v\<rparr>)"

definition st_get_merchant_stats :: "address \<Rightarrow> 'w env \<Rightarrow> merchant_stats" where
  [storage_defs]: "st_get_merchant_stats k s = unwrap_or (i_MS (instance_st s) k) empty_merchant_stats"

definition st_set_merchant_stats :: "address \<Rightarrow> merchant_stats \<Rightarrow> 'w env \<Rightarrow> 'w env" where
  [storage_defs]: "st_set_merchant_stats k v = upd_instance (\<lambda>i. i\<lparr>i_MS := (i_MS i)(k := Some v)\<rparr>)"

section \<open>Merchants\<close>

definition st_get_merchant :: "address \<Rightarrow> 'w env \<Rightarrow> merchant option" where
  [storage_defs]: "st_get_merchant k s = k_Merchant (persistent_st s) k"

definition st_set_merchant :: "merchant \<Rightarrow> 'w env \<Rightarrow> 'w env" where
  [storage_defs]: "st_set_merchant r s = extend_ttl (K_Merchant (m_address r)) MERCHANT_TTL_LEDGERS MERCHANT_TTL_LEDGERS
     (upd_persistent (\<lambda>p. p\<lparr>k_Merchant := (k_Merchant p)(m_address r := Some r)\<rparr>) s)"

definition st_get_merchant_list :: "'w env \<Rightarrow> address list" where
  [storage_defs]: "st_get_merchant_list s = unwrap_or (i_ML (instance_st s)) []"

definition st_add_to_merchant_list :: "address \<Rightarrow> 'w env \<Rightarrow> 'w env" where
  [storage_defs]: "st_add_to_merchant_list a s =
     upd_instance (\<lambda>i. i\<lparr>i_ML := Some (st_get_merchant_list s @ [a])\<rparr>) s"

section \<open>Payments\<close>

definition st_get_payment :: "string \<Rightarrow> 'w env \<Rightarrow> payment_order option" where
  [storage_defs]: "st_get_payment k s = k_Payment (persistent_st s) k"

definition st_set_payment :: "payment_order \<Rightarrow> 'w env \<Rightarrow> 'w env" where
  [storage_defs]: "st_set_payment r s = extend_ttl (K_Payment (p_order_id r)) PAYMENT_TTL_LEDGERS PAYMENT_TTL_LEDGERS
     (upd_persistent (\<lambda>p. p\<lparr>k_Payment := (k_Payment p)(p_order_id r := Some r)\<rparr>) s)"

definition st_remove_payment :: "string \<Rightarrow> 'w env \<Rightarrow> 'w env" where
  [storage_defs]: "st_remove_payment k = upd_persistent (\<lambda>p. p\<lparr>k_Payment := (k_Payment p)(k := None)\<rparr>)"

definition st_get_merchant_payment_ids :: "address \<Rightarrow> 'w env \<Rightarrow> string list" where
  [storage_defs]: "st_get_merchant_payment_ids k s = unwrap_or (k_MP (persistent_st s) k) []"

definition st_get_merchant_payment_count :: "address \<Rightarrow> 'w env \<Rightarrow> nat" where
  [storage_defs]: "st_get_merchant_payment_count k s = length (st_get_merchant_payment_ids k s)"

definition st_add_merchant_payment_id :: "address \<Rightarrow> string \<Rightarrow> ('w, unit) contract" where
  "st_add_merchant_payment_id a order_id =
     bind (gets (st_get_merchant_payment_ids a)) (\<lambda>ids.
     bind (guard (\<not> MAX_PAYMENT_IDS_PER_ACCOUNT \<le> length ids) PaymentHistoryLimitExceeded) (\<lambda>_.
     let old_len = length ids; ids' = ids @ [order_id]; new_len = length ids' in
     bind (modify (\<lambda>s. extend_ttl (K_MP a) PAYMENT_TTL_LEDGERS PAYMENT_TTL_LEDGERS
       (upd_persistent (\<lambda>p. p\<lparr>k_MP := (k_MP p)(a := Some ids')\<rparr>) s))) (\<lambda>_.
     run_if (old_len < PAYMENT_HISTORY_WARNING_THRESHOLD \<and> PAYMENT_HISTORY_WARNING_THRESHOLD \<le> new_len)
       (publish T_payment_history_near_limit (Some a)
          [UintV new_len, UintV MAX_PAYMENT_IDS_PER_ACCOUNT]))))"

definition st_get_payer_payment_ids :: "address \<Rightarrow> 'w env \<Rightarrow> string list" where
  [storage_defs]: "st_get_payer_payment_ids k s = unwrap_or (k_PP (persistent_st s) k) []"

definition st_get_payer_payment_count :: "address \<Rightarrow> 'w env \<Rightarrow> nat" where
  [storage_defs]: "st_get_payer_payment_count k s = length (st_get_payer_payment_ids k s)"

definition st_add_payer_payment_id :: "address \<Rightarrow> string \<Rightarrow> ('w, unit) contract" where
  "st_add_payer_payment_id a order_id =
     bind (gets (st_get_payer_payment_ids a)) (\<lambda>ids.
     bind (guard (\<not> MAX_PAYMENT_IDS_PER_ACCOUNT \<le> length ids) PaymentHistoryLimitExceeded) (\<lambda>_.
     let old_len = length ids; ids' = ids @ [order_id]; new_len = length ids' in
     bind (modify (\<lambda>s. extend_ttl (K_PP a) PAYMENT_TTL_LEDGERS PAYMENT_TTL_LEDGERS
       (upd_persistent (\<lambda>p. p\<lparr>k_PP := (k_PP p)(a := Some ids')\<rparr>) s))) (\<lambda>_.
     run_if (old_len < PAYMENT_HISTORY_WARNING_THRESHOLD \<and> PAYMENT_HISTORY_WARNING_THRESHOLD \<le> new_len)
       (publish T_payment_history_near_limit (Some a)
          [UintV new_len, UintV MAX_PAYMENT_IDS_PER_ACCOUNT]))))"

section \<open>Refunds and disputes\<close>

definition st_get_refund :: "string \<Rightarrow> 'w env \<Rightarrow> refund_record option" where
  [storage_defs]: "st_get_refund k s = k_Refund (persistent_st s) k"

definition st_set_refund :: "refund_record \<Rightarrow> 'w env \<Rightarrow> 'w env" where
  [storage_defs]: "st_set_refund r s = extend_ttl (K_Refund (r_refund_id r)) REFUND_TTL_LEDGERS REFUND_TTL_LEDGERS
     (upd_persistent (\<lambda>p. p\<lparr>k_Refund := (k_Refund p)(r_refund_id r := Some r)\<rparr>) s)"

definition st_remove_refund :: "string \<Rightarrow> 'w env \<Rightarrow> 'w env" where
  [storage_defs]: "st_remove_refund k = upd_persistent (\<lambda>p. p\<lparr>k_Refund := (k_Refund p)(k := None)\<rparr>)"

definition st_get_order_refund_ids :: "string \<Rightarrow> 'w env \<Rightarrow> string list" where
  [storage_defs]: "st_get_order_refund_ids k s = unwrap_or (k_OR (persistent_st s) k) []"

definition st_add_order_refund_id :: "string \<Rightarrow> string \<Rightarrow> 'w env \<Rightarrow> 'w env" where
  [storage_defs]: "st_add_order_refund_id order_id refund_id s =
     upd_persistent (\<lambda>p. p\<lparr>k_OR :=
       (k_OR p)(order_id := Some (st_get_order_refund_ids order_id s @ [refund_id]))\<rparr>) s"

definition st_remove_order_refund_index :: "string \<Rightarrow> 'w env \<Rightarrow> 'w env" where
  [storage_defs]: "st_remove_order_refund_index k = upd_persistent (\<lambda>p. p\<lparr>k_OR := (k_OR p)(k := None)\<rparr>)"

definition st_get_dispute :: "string \<Rightarrow> 'w env \<Rightarrow> dispute_record option" where
  [storage_defs]: "st_get_dispute k s = k_Dispute (persistent_st s) k"

definition st_set_dispute :: "dispute_record \<Rightarrow> 'w env \<Rightarrow> 'w env" where
  [storage_defs]: "st_set_dispute r s = extend_ttl (K_Dispute (d_dispute_id r)) REFUND_TTL_LEDGERS REFUND_TTL_LEDGERS
     (upd_persistent (\<lambda>p. p\<lparr>k_Dispute := (k_Dispute p)(d_dispute_id r := Some r)\<rparr>) s)"

section \<open>Multisig payments\<close>

definition st_get_multisig :: "string \<Rightarrow> 'w env \<Rightarrow> multisig_payment option" where
  [storage_defs]: "st_get_multisig k s = k_Multisig (persistent_st s) k"

definition st_set_multisig :: "multisig_payment \<Rightarrow> 'w env \<Rightarrow> 'w env" where
  [storage_defs]: "st_set_multisig r s = extend_ttl (K_Multisig (ms_payment_id r)) MULTISIG_TTL_LEDGERS MULTISIG_TTL_LEDGERS
     (upd_persistent (\<lambda>p. p\<lparr>k_Multisig := (k_Multisig p)(ms_payment_id r := Some r)\<rparr>) s)"

definition st_remove_multisig :: "string \<Rightarrow> 'w env \<Rightarrow> 'w env" where
  [storage_defs]: "st_remove_multisig k = upd_persistent (\<lambda>p. p\<lparr>k_Multisig := (k_Multisig p)(k := None)\<rparr>)"

definition st_get_multisig_expiry_duration :: "'w env \<Rightarrow> nat" where
  [storage_defs]: "st_get_multisig_expiry_duration s = unwrap_or (i_MED (instance_st s)) DEFAULT_MULTISIG_EXPIRY"

definition st_set_multisig_expiry_duration :: "nat \<Rightarrow> 'w env \<Rightarrow> 'w env" where
  [storage_defs]: "st_set_multisig_expiry_duration v = upd_instance (\<lambda>i. i\<lparr>i_MED := Some v\<rparr>)"

definition st_get_max_multisig_signers :: "'w env \<Rightarrow> nat" where
  [storage_defs]: "st_get_max_multisig_signers s = unwrap_or (i_MSL (instance_st s)) DEFAULT_MAX_MULTISIG_SIGNERS"

definition st_set_max_multisig_signers :: "nat \<Rightarrow> 'w env \<Rightarrow> 'w env" where
  [storage_defs]: "st_set_max_multisig_signers v = upd_instance (\<lambda>i. i\<lparr>i_MSL := Some v\<rparr>)"

section \<open>Payment requests\<close>

definition st_get_payment_request :: "string \<Rightarrow> 'w env \<Rightarrow> payment_request option" where
  [storage_defs]: "st_get_payment_request k s = t_PaymentRequest (temporary_st s) k"

definition st_get_payment_request_ids :: "'w env \<Rightarrow> string list" where
  [storage_defs]: "st_get_payment_request_ids s = unwrap_or (t_PaymentRequestIndex (temporary_st s)) []"

definition st_set_payment_request :: "payment_request \<Rightarrow> 'w env \<Rightarrow> 'w env" where
  [storage_defs]: "st_set_payment_request pr s =
     (let s1 = upd_temporary (\<lambda>t. t\<lparr>t_PaymentRequest :=
                 (t_PaymentRequest t)(pr_request_id pr := Some pr)\<rparr>) s;
          ids = st_get_payment_request_ids s1
      in if pr_request_id pr \<notin> set ids
         then upd_temporary (\<lambda>t. t\<lparr>t_PaymentRequestIndex := Some (ids @ [pr_request_id pr])\<rparr>) s1
         else s1)"

definition st_remove_payment_request :: "string \<Rightarrow> 'w env \<Rightarrow> 'w env" where
  [storage_defs]: "st_remove_payment_request request_id s =
     (let s1 = upd_temporary (\<lambda>t. t\<lparr>t_PaymentRequest := (t_PaymentRequest t)(request_id := None)\<rparr>) s;
          ids = st_get_payment_request_ids s1
      in if request_id \<in> set ids
         then upd_temporary (\<lambda>t. t\<lparr>t_PaymentRequestIndex :=
                Some (filter (\<lambda>i. i \<noteq> request_id) ids)\<rparr>) s1
         else s1)"

definition st_get_max_active_payment_requests :: "'w env \<Rightarrow> nat" where
  [storage_defs]: "st_get_max_active_payment_requests s = unwrap_or (i_MaxActivePaymentRequests (instance_st s)) DEFAULT_MAX_ACTIVE_PAYMENT_REQUESTS"

definition st_set_max_active_payment_requests :: "nat \<Rightarrow> 'w env \<Rightarrow> 'w env" where
  [storage_defs]: "st_set_max_active_payment_requests v = upd_instance (\<lambda>i. i\<lparr>i_MaxActivePaymentRequests := Some v\<rparr>)"

definition st_get_merchant_active_request_count :: "address \<Rightarrow> 'w env \<Rightarrow> nat" where
  [storage_defs]: "st_get_merchant_active_request_count k s =
     unwrap_or (i_MerchantActiveRequests (instance_st s) k) 0"

definition st_increment_merchant_active_requests :: "address \<Rightarrow> ('w, unit) contract" where
  "st_increment_merchant_active_requests a =
     bind (gets (st_get_merchant_active_request_count a)) (\<lambda>count.
     bind (u32_add count 1) (\<lambda>count'.
     modify (upd_instance (\<lambda>i. i\<lparr>i_MerchantActiveRequests :=
       (i_MerchantActiveRequests i)(a := Some count')\<rparr>))))"

definition st_decrement_merchant_active_requests :: "address \<Rightarrow> 'w env \<Rightarrow> 'w env" where
  [storage_defs]: "st_decrement_merchant_active_requests a s =
     upd_instance (\<lambda>i. i\<lparr>i_MerchantActiveRequests := (i_MerchantActiveRequests i)
       (a := Some (sat_sub (st_get_merchant_active_request_count a s) 1))\<rparr>) s"

section \<open>Nonces\<close>

definition st_get_nonce :: "address \<Rightarrow> 'w env \<Rightarrow> nat" where
  [storage_defs]: "st_get_nonce k s = unwrap_or (k_Nonce (persistent_st s) k) 0"

definition st_increment_nonce :: "address \<Rightarrow> 'w env \<Rightarrow> 'w env" where
  [storage_defs]: "st_increment_nonce a s = extend_ttl (K_Nonce a) PAYMENT_TTL_LEDGERS PAYMENT_TTL_LEDGERS
     (upd_persistent (\<lambda>p. p\<lparr>k_Nonce := (k_Nonce p)
       (a := Some (u64_sat_add (st_get_nonce a s) 1))\<rparr>) s)"

definition st_get_merchant_nonce :: "address \<Rightarrow> 'w env \<Rightarrow> nat" where
  [storage_defs]: "st_get_merchant_nonce k s = unwrap_or (k_MerchantNonce (persistent_st s) k) 0"

definition st_increment_merchant_nonce :: "address \<Rightarrow> 'w env \<Rightarrow> 'w env" where
  [storage_defs]: "st_increment_merchant_nonce a s = extend_ttl (K_MerchantNonce a) PAYMENT_TTL_LEDGERS PAYMENT_TTL_LEDGERS
     (upd_persistent (\<lambda>p. p\<lparr>k_MerchantNonce := (k_MerchantNonce p)
       (a := Some (u64_sat_add (st_get_merchant_nonce a s) 1))\<rparr>) s)"

section \<open>Allow-lists\<close>

definition st_is_token_allowed :: "address \<Rightarrow> 'w env \<Rightarrow> bool" where
  [storage_defs]: "st_is_token_allowed a s \<longleftrightarrow> i_AT (instance_st s) a \<noteq> None"

definition st_set_token_allowed :: "address \<Rightarrow> bool \<Rightarrow> 'w env \<Rightarrow> 'w env" where
  [storage_defs]: "st_set_token_allowed a allowed =
     upd_instance (\<lambda>i. i\<lparr>i_AT := (i_AT i)(a := (if allowed then Some () else None))\<rparr>)"

definition st_is_issuer_allowed :: "address \<Rightarrow> 'w env \<Rightarrow> bool" where
  [storage_defs]: "st_is_issuer_allowed a s \<longleftrightarrow> i_AllowedIssuer (instance_st s) a \<noteq> None"

definition st_set_issuer_allowed :: "address \<Rightarrow> bool \<Rightarrow> 'w env \<Rightarrow> 'w env" where
  [storage_defs]: "st_set_issuer_allowed a allowed =
     upd_instance (\<lambda>i. i\<lparr>i_AllowedIssuer := (i_AllowedIssuer i)(a := (if allowed then Some () else None))\<rparr>)"

section \<open>Subscriptions\<close>

definition st_get_subscription_plan :: "string \<Rightarrow> 'w env \<Rightarrow> subscription_plan option" where
  [storage_defs]: "st_get_subscription_plan k s = k_SP (persistent_st s) k"

definition st_set_subscription_plan :: "subscription_plan \<Rightarrow> 'w env \<Rightarrow> 'w env" where
  [storage_defs]: "st_set_subscription_plan r s = extend_ttl (K_SP (sp_plan_id r)) SUBSCRIPTION_TTL_LEDGERS SUBSCRIPTION_TTL_LEDGERS
     (upd_persistent (\<lambda>p. p\<lparr>k_SP := (k_SP p)(sp_plan_id r := Some r)\<rparr>) s)"

definition st_get_subscription :: "string \<Rightarrow> 'w env \<Rightarrow> subscription option" where
  [storage_defs]: "st_get_subscription k s = k_Sub (persistent_st s) k"

definition st_set_subscription :: "subscription \<Rightarrow> 'w env \<Rightarrow> 'w env" where
  [storage_defs]: "st_set_subscription r s = extend_ttl (K_Sub (sub_subscription_id r)) SUBSCRIPTION_TTL_LEDGERS SUBSCRIPTION_TTL_LEDGERS
     (upd_persistent (\<lambda>p. p\<lparr>k_Sub := (k_Sub p)(sub_subscription_id r := Some r)\<rparr>) s)"

definition st_get_subscription_reserve :: "address \<Rightarrow> address \<Rightarrow> 'w env \<Rightarrow> int" where
  [storage_defs]: "st_get_subscription_reserve subscriber tok s =
     unwrap_or (k_SR (persistent_st s) subscriber tok) 0"

definition st_set_subscription_reserve :: "address \<Rightarrow> address \<Rightarrow> int \<Rightarrow> 'w env \<Rightarrow> 'w env" where
  [storage_defs]: "st_set_subscription_reserve subscriber tok amount s =
     (if amount \<le> 0
      then upd_persistent (\<lambda>p. p\<lparr>k_SR := (k_SR p)(subscriber := (k_SR p subscriber)(tok := None))\<rparr>) s
      else extend_ttl (K_SR subscriber tok) SUBSCRIPTION_TTL_LEDGERS SUBSCRIPTION_TTL_LEDGERS
        (upd_persistent (\<lambda>p. p\<lparr>k_SR :=
           (k_SR p)(subscriber := (k_SR p subscriber)(tok := Some amount))\<rparr>) s))"

section \<open>Escrows\<close>

definition st_get_escrow :: "string \<Rightarrow> 'w env \<Rightarrow> escrow_record option" where
  [storage_defs]: "st_get_escrow k s = k_Escrow (persistent_st s) k"

definition st_set_escrow :: "escrow_record \<Rightarrow> 'w env \<Rightarrow> 'w env" where
  [storage_defs]: "st_set_escrow r s = extend_ttl (K_Escrow (e_order_id r)) ESCROW_TTL_LEDGERS ESCROW_TTL_LEDGERS
     (upd_persistent (\<lambda>p. p\<lparr>k_Escrow := (k_Escrow p)(e_order_id r := Some r)\<rparr>) s)"

definition st_get_escrow_hold :: "string \<Rightarrow> 'w env \<Rightarrow> escrow_hold_record option" where
  [storage_defs]: "st_get_escrow_hold k s = k_EscrowHold (persistent_st s) k"

definition st_set_escrow_hold :: "escrow_hold_record \<Rightarrow> 'w env \<Rightarrow> 'w env" where
  [storage_defs]: "st_set_escrow_hold r s = extend_ttl (K_EscrowHold (eh_escrow_id r)) ESCROW_HOLD_TTL_LEDGERS ESCROW_HOLD_TTL_LEDGERS
     (upd_persistent (\<lambda>p. p\<lparr>k_EscrowHold := (k_EscrowHold p)(eh_escrow_id r := Some r)\<rparr>) s)"

section \<open>Rate limiting\<close>

definition st_set_payment_rate_limit :: "nat \<Rightarrow> 'w env \<Rightarrow> 'w env" where
  [storage_defs]: "st_set_payment_rate_limit v = upd_instance (\<lambda>i. i\<lparr>i_RateLimitPerWindow := Some v\<rparr>)"

text \<open>The rate window is written to the slot \<open>RW\<close> of the refund window.\<close>

definition st_set_payment_rate_window :: "nat \<Rightarrow> 'w env \<Rightarrow> 'w env" where
  [storage_defs]: "st_set_payment_rate_window v = upd_instance (\<lambda>i. i\<lparr>i_RW := Some v\<rparr>)"

definition st_get_rate_limit_per_window :: "'w env \<Rightarrow> nat" where
  [storage_defs]: "st_get_rate_limit_per_window s = unwrap_or (i_RateLimitPerWindow (instance_st s)) DEFAULT_RATE_LIMIT_PER_WINDOW"

definition st_set_rate_limit_per_window :: "nat \<Rightarrow> 'w env \<Rightarrow> 'w env" where
  [storage_defs]: "st_set_rate_limit_per_window v = upd_instance (\<lambda>i. i\<lparr>i_RateLimitPerWindow := Some v\<rparr>)"

definition current_window_start :: "'w env \<Rightarrow> nat" where
  [storage_defs]: "current_window_start s =
     (seq_no s div RATE_LIMIT_WINDOW_LEDGERS) * RATE_LIMIT_WINDOW_LEDGERS"

definition st_get_rate_limit_counter :: "address \<Rightarrow> nat \<Rightarrow> 'w env \<Rightarrow> nat" where
  [storage_defs]: "st_get_rate_limit_counter m window_start s =
     unwrap_or (t_RateLimitCounter (temporary_st s) m window_start) 0"

definition st_increment_rate_limit_counter :: "address \<Rightarrow> nat \<Rightarrow> ('w, unit) contract" where
  "st_increment_rate_limit_counter m window_start =
     bind (gets (st_get_rate_limit_counter m window_start)) (\<lambda>count.
     bind (u32_add count 1) (\<lambda>count'.
     modify (\<lambda>s. extend_ttl (K_RateLimitCounter m window_start) RATE_LIMIT_TTL_LEDGERS RATE_LIMIT_TTL_LEDGERS
       (upd_temporary (\<lambda>t. t\<lparr>t_RateLimitCounter := (t_RateLimitCounter t)
         (m := (t_RateLimitCounter t m)(window_start := Some count'))\<rparr>) s))))"

section \<open>Versions, pause details, guardians\<close>

definition st_get_stored_version :: "'w env \<Rightarrow> string option" where
  [storage_defs]: "st_get_stored_version s = i_SV (instance_st s)"

definition st_set_stored_version :: "string \<Rightarrow> 'w env \<Rightarrow> 'w env" where
  [storage_defs]: "st_set_stored_version v = upd_instance (\<lambda>i. i\<lparr>i_SV := Some v\<rparr>)"

definition st_get_pause_reason :: "'w env \<Rightarrow> string option" where
  [storage_defs]: "st_get_pause_reason s = i_PR (instance_st s)"

definition st_set_pause_reason :: "string \<Rightarrow> 'w env \<Rightarrow> 'w env" where
  [storage_defs]: "st_set_pause_reason v = upd_instance (\<lambda>i. i\<lparr>i_PR := Some v\<rparr>)"

definition st_clear_pause_reason :: "'w env \<Rightarrow> 'w env" where
  [storage_defs]: "st_clear_pause_reason = upd_instance (\<lambda>i. i\<lparr>i_PR := None\<rparr>)"

definition st_get_unpause_lock_until :: "'w env \<Rightarrow> nat option" where
  [storage_defs]: "st_get_unpause_lock_until s = i_ULU (instance_st s)"

definition st_set_unpause_lock_until :: "nat \<Rightarrow> 'w env \<Rightarrow> 'w env" where
  [storage_defs]: "st_set_unpause_lock_until v = upd_instance (\<lambda>i. i\<lparr>i_ULU := Some v\<rparr>)"

definition st_clear_unpause_lock_until :: "'w env \<Rightarrow> 'w env" where
  [storage_defs]: "st_clear_unpause_lock_until = upd_instance (\<lambda>i. i\<lparr>i_ULU := None\<rparr>)"

definition st_get_pause_guardians :: "'w env \<Rightarrow> address list" where
  [storage_defs]: "st_get_pause_guardians s = unwrap_or (i_PG (instance_st s)) []"

definition st_set_pause_guardians :: "address list \<Rightarrow> 'w env \<Rightarrow> 'w env" where
  [storage_defs]: "st_set_pause_guardians v = upd_instance (\<lambda>i. i\<lparr>i_PG := Some v\<rparr>)"

definition st_get_early_unpause_approvals :: "'w env \<Rightarrow> address list" where
  [storage_defs]: "st_get_early_unpause_approvals s = unwrap_or (i_EPA (instance_st s)) []"

definition st_set_early_unpause_approvals :: "address list \<Rightarrow> 'w env \<Rightarrow> 'w env" where
  [storage_defs]: "st_set_early_unpause_approvals v = upd_instance (\<lambda>i. i\<lparr>i_EPA := Some v\<rparr>)"

definition st_clear_early_unpause_approvals :: "'w env \<Rightarrow> 'w env" where
  [storage_defs]: "st_clear_early_unpause_approvals = upd_instance (\<lambda>i. i\<lparr>i_EPA := None\<rparr>)"

definition st_get_storage_version :: "'w env \<Rightarrow> nat" where
  [storage_defs]: "st_get_storage_version s = unwrap_or (i_StorageVersion (instance_st s)) 0"

definition st_set_storage_version :: "nat \<Rightarrow> 'w env \<Rightarrow> 'w env" where
  [storage_defs]: "st_set_storage_version v = upd_instance (\<lambda>i. i\<lparr>i_StorageVersion := Some v\<rparr>)"

definition st_get_referral_fee_bps :: "'w env \<Rightarrow> nat" where
  [storage_defs]: "st_get_referral_fee_bps s = unwrap_or (i_ReferralFeeBps (instance_st s)) 0"

definition st_set_referral_fee_bps :: "nat \<Rightarrow> 'w env \<Rightarrow> 'w env" where
  [storage_defs]: "st_set_referral_fee_bps v = upd_instance (\<lambda>i. i\<lparr>i_ReferralFeeBps := Some v\<rparr>)"

definition st_get_signature_expiry_window :: "'w env \<Rightarrow> nat" where
  [storage_defs]: "st_get_signature_expiry_window s = unwrap_or (i_SEW (instance_st s)) DEFAULT_SIGNATURE_EXPIRY_WINDOW_SECS"

definition st_set_signature_expiry_window :: "nat \<Rightarrow> 'w env \<Rightarrow> 'w env" where
  [storage_defs]: "st_set_signature_expiry_window v = upd_instance (\<lambda>i. i\<lparr>i_SEW := Some v\<rparr>)"

section \<open>Migration of the version 1 keys\<close>

text \<open>The macro \<open>migrate_instance!\<close>: move a slot, if it holds a value.\<close>

definition migrate_instance ::
  "(instance_store \<Rightarrow> 'a option) \<Rightarrow> ('a option \<Rightarrow> instance_store \<Rightarrow> instance_store) \<Rightarrow>
   ('a option \<Rightarrow> instance_store \<Rightarrow> instance_store) \<Rightarrow> instance_store \<Rightarrow> instance_store" where
  "migrate_instance read_old write_old write_new i =
     (case read_old i of
        Some v \<Rightarrow> write_old None (write_new (Some v) i)
      | None \<Rightarrow> i)"

definition migrate_keys :: "instance_store \<Rightarrow> instance_store" where
  "migrate_keys i0 =
     (let i1 = migrate_instance v1_CleanupPeriod (\<lambda>v i. i\<lparr>v1_CleanupPeriod := v\<rparr>) (\<lambda>v i. i\<lparr>i_CP := v\<rparr>) i0;
          i2 = migrate_instance v1_PlatformFeeBps (\<lambda>v i. i\<lparr>v1_PlatformFeeBps := v\<rparr>) (\<lambda>v i. i\<lparr>i_PFB := v\<rparr>) i1;
          i3 = migrate_instance v1_RefundWindow (\<lambda>v i. i\<lparr>v1_RefundWindow := v\<rparr>) (\<lambda>v i. i\<lparr>i_RW := v\<rparr>) i2;
          i4 = migrate_instance v1_LargePaymentThreshold (\<lambda>v i. i\<lparr>v1_LargePaymentThreshold := v\<rparr>) (\<lambda>v i. i\<lparr>i_LPT := v\<rparr>) i3;
          i5 = migrate_instance v1_MinRefundAmount (\<lambda>v i. i\<lparr>v1_MinRefundAmount := v\<rparr>) (\<lambda>v i. i\<lparr>i_MRA := v\<rparr>) i4;
          i6 = migrate_instance v1_MultisigExpiryDuration (\<lambda>v i. i\<lparr>v1_MultisigExpiryDuration := v\<rparr>) (\<lambda>v i. i\<lparr>i_MED := v\<rparr>) i5;
          i7 = migrate_instance v1_StoredVersion (\<lambda>v i. i\<lparr>v1_StoredVersion := v\<rparr>) (\<lambda>v i. i\<lparr>i_SV := v\<rparr>) i6;
          i8 = migrate_instance v1_MerchantList (\<lambda>v i. i\<lparr>v1_MerchantList := v\<rparr>) (\<lambda>v i. i\<lparr>i_ML := v\<rparr>) i7
      in migrate_instance v1_FeeRecipient (\<lambda>v i. i\<lparr>v1_FeeRecipient := v\<rparr>) (\<lambda>v i. i\<lparr>i_FR := v\<rparr>) i8)"

definition st_migrate_storage_keys :: "'w env \<Rightarrow> 'w env" where
  [storage_defs]: "st_migrate_storage_keys = upd_instance migrate_keys"

section \<open>Data deletion requests\<close>

definition st_get_deletion_request :: "address \<Rightarrow> 'w env \<Rightarrow> nat option" where
  [storage_defs]: "st_get_deletion_request k s = k_DeletionRequest (persistent_st s) k"

definition st_set_deletion_request :: "address \<Rightarrow> nat \<Rightarrow> 'w env \<Rightarrow> 'w env" where
  [storage_defs]: "st_set_deletion_request m requested_at s =
     extend_ttl (K_DeletionRequest m) REFUND_TTL_LEDGERS REFUND_TTL_LEDGERS
       (upd_persistent (\<lambda>p. p\<lparr>k_DeletionRequest := (k_DeletionRequest p)(m := Some requested_at)\<rparr>) s)"

definition st_remove_deletion_request :: "address \<Rightarrow> 'w env \<Rightarrow> 'w env" where
  [storage_defs]: "st_remove_deletion_request k = upd_persistent (\<lambda>p. p\<lparr>k_DeletionRequest := (k_DeletionRequest p)(k := None)\<rparr>)"

section \<open>Authorisation failures and lockout\<close>

definition st_get_auth_fail_count :: "address \<Rightarrow> 'w env \<Rightarrow> nat \<times> nat" where
  [storage_defs]: "st_get_auth_fail_count a s = unwrap_or (t_AuthFailCount (temporary_st s) a) (0, 0)"

definition st_set_auth_fail_count :: "address \<Rightarrow> nat \<Rightarrow> nat \<Rightarrow> 'w env \<Rightarrow> 'w env" where
  [storage_defs]: "st_set_auth_fail_count a count window_start s =
     extend_ttl (K_AuthFailCount a) AUTH_TTL_LEDGERS AUTH_TTL_LEDGERS
       (upd_temporary (\<lambda>t. t\<lparr>t_AuthFailCount := (t_AuthFailCount t)(a := Some (count, window_start))\<rparr>) s)"

definition st_clear_auth_fail_count :: "address \<Rightarrow> 'w env \<Rightarrow> 'w env" where
  [storage_defs]: "st_clear_auth_fail_count k = upd_temporary (\<lambda>p. p\<lparr>t_AuthFailCount := (t_AuthFailCount p)(k := None)\<rparr>)"

definition st_get_auth_lockout_until :: "address \<Rightarrow> 'w env \<Rightarrow> nat" where
  [storage_defs]: "st_get_auth_lockout_until k s = unwrap_or (t_AuthLockoutUntil (temporary_st s) k) 0"

definition st_set_auth_lockout :: "address \<Rightarrow> ('w, unit) contract" where
  "st_set_auth_lockout a =
     bind (gets seq_no) (\<lambda>sq.
     bind (u32_add sq AUTH_LOCKOUT_LEDGERS) (\<lambda>lock_until.
     modify (\<lambda>s. extend_ttl (K_AuthLockoutUntil a) AUTH_TTL_LEDGERS AUTH_TTL_LEDGERS
       (upd_temporary (\<lambda>t. t\<lparr>t_AuthLockoutUntil := (t_AuthLockoutUntil t)(a := Some lock_until)\<rparr>) s))))"

definition st_clear_auth_lockout :: "address \<Rightarrow> 'w env \<Rightarrow> 'w env" where
  [storage_defs]: "st_clear_auth_lockout a s = st_clear_auth_fail_count a
     (upd_temporary (\<lambda>t. t\<lparr>t_AuthLockoutUntil := (t_AuthLockoutUntil t)(a := None)\<rparr>) s)"

definition st_is_auth_locked_out :: "address \<Rightarrow> 'w env \<Rightarrow> bool" where
  [storage_defs]: "st_is_auth_locked_out a s \<longleftrightarrow>
     0 < st_get_auth_lockout_until a s \<and> seq_no s < st_get_auth_lockout_until a s"

definition st_record_auth_failure :: "address \<Rightarrow> ('w, bool) contract" where
  "st_record_auth_failure a =
     bind (gets seq_no) (\<lambda>sq.
     bind (gets (st_get_auth_fail_count a)) (\<lambda>(count, window_start).
     bind (if window_start = 0 then ret (1, sq)
           else bind (u32_add window_start AUTH_FAILURE_WINDOW_LEDGERS) (\<lambda>window_end.
                if window_end \<le> sq then ret (1, sq)
                else bind (u32_add count 1) (\<lambda>count'. ret (count', window_start))))
       (\<lambda>(new_count, new_window).
     bind (modify (st_set_auth_fail_count a new_count new_window)) (\<lambda>_.
     if AUTH_MAX_FAILURES \<le> new_count
     then bind (st_set_auth_lockout a) (\<lambda>_. ret True)
     else ret False))))"

section \<open>Merchant commitments\<close>

definition st_get_merchant_commitment :: "address \<Rightarrow> 'w env \<Rightarrow> merchant_commitment option" where
  [storage_defs]: "st_get_merchant_commitment k s = t_MerchantCommitment (temporary_st s) k"

definition st_set_merchant_commitment :: "merchant_commitment \<Rightarrow> 'w env \<Rightarrow> 'w env" where
  [storage_defs]: "st_set_merchant_commitment c s =
     extend_ttl (K_MerchantCommitment (mc_merchant_address c)) COMMITMENT_TTL_LEDGERS COMMITMENT_TTL_LEDGERS
       (upd_temporary (\<lambda>t. t\<lparr>t_MerchantCommitment :=
          (t_MerchantCommitment t)(mc_merchant_address c := Some c)\<rparr>) s)"

definition st_remove_merchant_commitment :: "address \<Rightarrow> 'w env \<Rightarrow> 'w env" where
  [storage_defs]: "st_remove_merchant_commitment k = upd_temporary (\<lambda>p. p\<lparr>t_MerchantCommitment := (t_MerchantCommitment p)(k := None)\<rparr>)"

section \<open>Keyed records\<close>

text \<open>
  The contract every record store of \<open>storage.rs\<close> meets: a record is written under
  its own key and read back under that key, and no other key changes. The clients
  (the life cycles of refunds, escrows, multisig payments and so on) only use these
  laws.
\<close>

locale record_store =
  fixes get :: "'k \<Rightarrow> 's \<Rightarrow> 'r option"
    and put :: "'r \<Rightarrow> 's \<Rightarrow> 's"
    and key :: "'r \<Rightarrow> 'k"
  assumes get_put: "get k (put r s) = (if k = key r then Some r else get k s)"
begin

lemma get_put_same [simp]: "get (key r) (put r s) = Some r"
  by (simp add: get_put)

lemma get_put_other: "k \<noteq> key r \<Longrightarrow> get k (put r s) = get k s"
  by (simp add: get_put)

text \<open>Every stored record sits under its own key.\<close>

definition well_keyed :: "'s \<Rightarrow> bool" where
  "well_keyed s \<longleftrightarrow> (\<forall>k r. get k s = Some r \<longrightarrow> key r = k)"

lemma well_keyed_put: "well_keyed s \<Longrightarrow> well_keyed (put r s)"
  by (auto simp: well_keyed_def get_put)

lemma well_keyedD: "well_keyed s \<Longrightarrow> get k s = Some r \<Longrightarrow> key r = k"
  by (simp add: well_keyed_def)

lemma get_fold_put_other:
  "k \<notin> key ` set rs \<Longrightarrow> get k (fold put rs s) = get k s"
  by (induction rs arbitrary: s) (auto simp: get_put)

lemma get_fold_put:
  "distinct (map key rs) \<Longrightarrow> r \<in> set rs \<Longrightarrow> get (key r) (fold put rs s) = Some r"
  by (induction rs arbitrary: s) (auto simp: get_fold_put_other)

end

text \<open>
  A record with a life cycle: \<open>follows\<close> relates a record to what it may become, and
  nothing but itself follows a final one. \<open>evolves\<close> says that no record is lost and
  that each follows its former self.
\<close>

locale lifecycle = record_store get put key
  for get :: "'k \<Rightarrow> 's \<Rightarrow> 'r option" and put :: "'r \<Rightarrow> 's \<Rightarrow> 's" and key :: "'r \<Rightarrow> 'k" +
  fixes follows :: "'r \<Rightarrow> 'r \<Rightarrow> bool"
    and final :: "'r \<Rightarrow> bool"
  assumes follows_refl: "follows r r"
    and follows_trans: "follows r r' \<Longrightarrow> follows r' r'' \<Longrightarrow> follows r r''"
    and follows_final: "final r \<Longrightarrow> follows r r' \<Longrightarrow> r' = r"
begin

definition evolves :: "'s \<Rightarrow> 's \<Rightarrow> bool" where
  "evolves s t \<longleftrightarrow> (\<forall>k r. get k s = Some r \<longrightarrow> (\<exists>r'. get k t = Some r' \<and> follows r r'))"

lemma evolves_refl: "evolves s s"
  by (auto simp: evolves_def intro: follows_refl)

lemma evolves_trans: "evolves s t \<Longrightarrow> evolves t u \<Longrightarrow> evolves s u"
  unfolding evolves_def by (meson follows_trans)

lemma evolves_same: "(\<And>k. get k t = get k s) \<Longrightarrow> evolves s t"
  by (auto simp: evolves_def intro: follows_refl)

lemma evolves_put_new: "get (key r) s = None \<Longrightarrow> evolves s (put r s)"
  by (auto simp: evolves_def get_put intro: follows_refl)

lemma evolves_put: "get (key r) s = Some r0 \<Longrightarrow> follows r0 r \<Longrightarrow> evolves s (put r s)"
  by (auto simp: evolves_def get_put intro: follows_refl)

lemma final_stays: "evolves s t \<Longrightarrow> get k s = Some r \<Longrightarrow> final r \<Longrightarrow> get k t = Some r"
  unfolding evolves_def by (blast dest: follows_final)

lemma evolves_get: "evolves s t \<Longrightarrow> get k s = Some r \<Longrightarrow> \<exists>r'. get k t = Some r' \<and> follows r r'"
  by (auto simp: evolves_def)

end

interpretation merchants: record_store st_get_merchant st_set_merchant m_address
  by unfold_locales (simp add: storage_defs)

interpretation payments: record_store st_get_payment st_set_payment p_order_id
  by unfold_locales (simp add: storage_defs)

interpretation refunds: record_store st_get_refund st_set_refund r_refund_id
  by unfold_locales (simp add: storage_defs)

interpretation disputes: record_store st_get_dispute st_set_dispute d_dispute_id
  by unfold_locales (simp add: storage_defs)

interpretation multisigs: record_store st_get_multisig st_set_multisig ms_payment_id
  by unfold_locales (simp add: storage_defs)

interpretation plans: record_store st_get_subscription_plan st_set_subscription_plan sp_plan_id
  by unfold_locales (simp add: storage_defs)

interpretation subscriptions: record_store st_get_subscription st_set_subscription sub_subscription_id
  by unfold_locales (simp add: storage_defs)

interpretation escrows: record_store st_get_escrow st_set_escrow e_order_id
  by unfold_locales (simp add: storage_defs)

interpretation holds: record_store st_get_escrow_hold st_set_escrow_hold eh_escrow_id
  by unfold_locales (simp add: storage_defs)

interpretation requests: record_store st_get_payment_request st_set_payment_request pr_request_id
  by unfold_locales (auto simp: storage_defs Let_def split: option.splits)

interpretation commitments: record_store
  st_get_merchant_commitment st_set_merchant_commitment mc_merchant_address
  by unfold_locales (simp add: storage_defs)

end
