(* ===== verification/Reference.thy ===== *)
theory Reference
  imports Storage
begin

text \<open>
  A concrete environment for evaluating the model: a freshly deployed contract and a
  host whose token contracts keep balances and allowances as SEP-41 describes. The
  theorems do not depend on it; it shows that their hypotheses can hold.
\<close>

section \<open>A token ledger\<close>

record book =
  balance :: "address \<Rightarrow> address \<Rightarrow> int"
  allowance :: "address \<Rightarrow> address \<Rightarrow> address \<Rightarrow> int"

definition balance_of :: "address \<Rightarrow> address \<Rightarrow> book \<Rightarrow> int" where
  "balance_of tok a b = balance b tok a"

definition move :: "address \<Rightarrow> address \<Rightarrow> address \<Rightarrow> int \<Rightarrow> book \<Rightarrow> book option" where
  "move tok src dst n b =
     (if 0 \<le> n \<and> n \<le> balance b tok src
      then let m = (balance b tok)(src := balance b tok src - n)
           in Some (b\<lparr>balance := (balance b)(tok := m(dst := m dst + n))\<rparr>)
      else None)"

definition spend ::
  "address \<Rightarrow> address \<Rightarrow> address \<Rightarrow> address \<Rightarrow> int \<Rightarrow> book \<Rightarrow> book option" where
  "spend tok sp src dst n b =
     (if n \<le> allowance b tok src sp
      then move tok src dst n (b\<lparr>allowance := (allowance b)(tok := (allowance b tok)(src :=
             (allowance b tok src)(sp := allowance b tok src sp - n)))\<rparr>)
      else None)"

definition allow :: "address \<Rightarrow> address \<Rightarrow> address \<Rightarrow> int \<Rightarrow> nat \<Rightarrow> book \<Rightarrow> book option" where
  "allow tok src sp n live_until b =
     (if 0 \<le> n
      then Some (b\<lparr>allowance := (allowance b)(tok := (allowance b tok)(src :=
             (allowance b tok src)(sp := n)))\<rparr>)
      else None)"

primrec insort_cmp :: "('a \<Rightarrow> 'a \<Rightarrow> int) \<Rightarrow> 'a \<Rightarrow> 'a list \<Rightarrow> 'a list" where
  "insort_cmp cmp x [] = [x]"
| "insort_cmp cmp x (y # ys) = (if cmp x y \<le> 0 then x # y # ys else y # insort_cmp cmp x ys)"

definition sort_cmp :: "('a \<Rightarrow> 'a \<Rightarrow> int) \<Rightarrow> 'a list \<Rightarrow> 'a list" where
  "sort_cmp cmp xs = foldr (insort_cmp cmp) xs []"

definition sample_host :: "book host" where
  "sample_host =
     \<lparr>ed25519_verify = (\<lambda>pk payload sg. take 32 sg = pk),
      sha256 = (\<lambda>b. take 32 (b @ replicate 32 0)),
      address_xdr = (\<lambda>a. case a of Addr n \<Rightarrow> be_bytes 4 (int n)),
      string_xdr = (\<lambda>s. be_bytes 4 (int (length s)) @ map (\<lambda>c. of_nat (of_char c)) s),
      token_transfer = move, token_transfer_from = spend, token_approve = allow,
      max_memo_length = 128, sort_payments = sort_cmp\<rparr>"

section \<open>A freshly deployed contract\<close>

definition empty_instance :: instance_store where
  "empty_instance =
     \<lparr>i_Admin = None, i_Paused = None, i_CP = None, i_GlobalStats = None, i_ML = None,
      i_MS = (\<lambda>_. None), i_RefundRetentionPeriod = None, i_LPT = None, i_AT = (\<lambda>_. None),
      i_MED = None, i_MRA = None, i_PFB = None, i_FR = None, i_RW = None,
      i_RateLimitPerWindow = None, i_StorageVersion = None, i_SV = None, i_PR = None,
      i_ULU = None, i_PG = None, i_EPA = None, i_AllowedIssuer = (\<lambda>_. None),
      i_ReferralFeeBps = None, i_AdminAuditCount = None, i_AdminAuditMaxEntries = None,
      i_MSL = None, i_SEW = None, i_MaxActivePaymentRequests = None,
      i_MerchantActiveRequests = (\<lambda>_. None), v1_CleanupPeriod = None,
      v1_PlatformFeeBps = None, v1_RefundWindow = None, v1_LargePaymentThreshold = None,
      v1_MinRefundAmount = None, v1_MultisigExpiryDuration = None, v1_StoredVersion = None,
      v1_MerchantList = None, v1_FeeRecipient = None\<rparr>"

definition empty_persistent :: persistent_store where
  "empty_persistent =
     \<lparr>k_Merchant = (\<lambda>_. None), k_Payment = (\<lambda>_. None), k_MP = (\<lambda>_. None), k_PP = (\<lambda>_. None),
      k_Refund = (\<lambda>_. None), k_OR = (\<lambda>_. None), k_Dispute = (\<lambda>_. None), k_Multisig = (\<lambda>_. None),
      k_Nonce = (\<lambda>_. None), k_MerchantNonce = (\<lambda>_. None), k_SP = (\<lambda>_. None), k_Sub = (\<lambda>_. None),
      k_SR = (\<lambda>_ _. None), k_Escrow = (\<lambda>_. None), k_DeletionRequest = (\<lambda>_. None),
      k_EscrowHold = (\<lambda>_. None), k_AdminAuditEntry = (\<lambda>_. None)\<rparr>"

definition empty_temporary :: temporary_store where
  "empty_temporary =
     \<lparr>t_PaymentRequest = (\<lambda>_. None), t_PaymentRequestIndex = None,
      t_RateLimitCounter = (\<lambda>_ _. None), t_AuthFailCount = (\<lambda>_. None),
      t_AuthLockoutUntil = (\<lambda>_. None), t_MerchantCommitment = (\<lambda>_. None)\<rparr>"

text \<open>The contract is \<open>Addr 0\<close>; everybody else may have signed.\<close>

definition deployed :: "'w \<Rightarrow> address set \<Rightarrow> nat \<Rightarrow> 'w env" where
  "deployed w signers ts =
     \<lparr>ledger = \<lparr>timestamp = ts, sequence_number = 1000, network_id = replicate 32 7,
                max_live_until_ledger = 3111400\<rparr>,
      self = Addr 0, auths = signers, instance_st = empty_instance,
      persistent_st = empty_persistent, temporary_st = empty_temporary, world = w,
      events = [], host_calls = []\<rparr>"

text \<open>Every account owns one million of every token.\<close>

definition rich :: book where
  "rich = \<lparr>balance = (\<lambda>_ a. if a = Addr 0 then 0 else 1000000), allowance = (\<lambda>_ _ _. 0)\<rparr>"

lemmas reference_defs =
  move_def spend_def allow_def insort_cmp.simps sort_cmp_def sample_host_def empty_instance_def
  empty_persistent_def empty_temporary_def deployed_def rich_def

text \<open>A registered merchant and an allowed token; the administrator is \<open>Addr 5\<close>.\<close>

definition sample_merchant :: "address \<Rightarrow> merchant" where
  "sample_merchant a =
     \<lparr>m_address = a, m_name = ''shop'', m_description = '''', m_contact_info = '''',
      m_category = Retail, m_active = True, m_verified = False, m_registered_at = 0,
      m_total_received = 0, m_referral_count = 0\<rparr>"

definition shop :: "address set \<Rightarrow> nat \<Rightarrow> book env" where
  "shop signers ts = (deployed rich signers ts)
     \<lparr>instance_st := empty_instance\<lparr>i_Admin := Some (Addr 5), i_ML := Some [Addr 1],
        i_AT := (\<lambda>_. None)(Addr 9 := Some ()), i_PFB := Some 250, i_FR := Some (Addr 6)\<rparr>,
      persistent_st := empty_persistent\<lparr>k_Merchant :=
        (\<lambda>_. None)(Addr 1 := Some (sample_merchant (Addr 1)))\<rparr>\<rparr>"

lemmas shop_defs = shop_def sample_merchant_def

text \<open>
  Several observations of one state: the state is evaluated once and then observed, where
  a conjunction would evaluate it again for each of its parts.
\<close>

definition observe :: "('s \<Rightarrow> 'a) \<Rightarrow> 's \<Rightarrow> 'a" where
  "observe f s = f s"

end
