(* ===== verification/Helper.thy ===== *)
theory Helper
  imports Reference
begin

text \<open>
  The validation helpers of \<open>helper.rs\<close>. \<open>verify_signature\<close> is the production
  build: the all-zero shortcut exists only under \<open>cfg(test)\<close>. A signature that does
  not verify makes the host trap; only a key or signature of the wrong length is
  the error \<open>InvalidSignature\<close>.
\<close>

section \<open>Constants\<close>

definition MAX_PAGE_LIMIT :: nat where
  [const_defs]: "MAX_PAGE_LIMIT = 100"

definition REFUND_WINDOW_SECS :: nat where
  [const_defs]: "REFUND_WINDOW_SECS = 30 * 24 * 3600"

definition MULTISIG_EXPIRY_SECS :: nat where
  [const_defs]: "MULTISIG_EXPIRY_SECS = 7 * 24 * 3600"

definition MAX_NAME_LEN :: nat where [const_defs]: "MAX_NAME_LEN = 64"

definition MAX_DESCRIPTION_LEN :: nat where [const_defs]: "MAX_DESCRIPTION_LEN = 256"

definition MAX_MEMO_LEN :: nat where [const_defs]: "MAX_MEMO_LEN = 128"

definition MAX_REASON_LEN :: nat where [const_defs]: "MAX_REASON_LEN = 256"

definition MAX_CONTACT_INFO_LEN :: nat where [const_defs]: "MAX_CONTACT_INFO_LEN = 128"

section \<open>Byte strings\<close>

text \<open>
  \<open>constant_time_eq_bytes\<close>: the loop ORs the differences of all bytes and compares
  the result with zero at the end.
\<close>

definition xor_byte :: "8 word \<Rightarrow> 8 word \<Rightarrow> 8 word" where
  "xor_byte x y = Bit_Operations.xor x y"

definition or_byte :: "8 word \<Rightarrow> 8 word \<Rightarrow> 8 word" where
  "or_byte x y = Bit_Operations.or x y"

primrec diff_loop :: "(8 word \<times> 8 word) list \<Rightarrow> 8 word \<Rightarrow> 8 word" where
  "diff_loop [] diff = diff"
| "diff_loop (xy # rest) diff = diff_loop rest (or_byte diff (xor_byte (fst xy) (snd xy)))"

definition constant_time_eq_bytes :: "bytes \<Rightarrow> bytes \<Rightarrow> bool" where
  "constant_time_eq_bytes a b =
     (if length a \<noteq> length b then False else diff_loop (zip a b) 0 = 0)"

definition append_length_prefixed :: "bytes \<Rightarrow> bytes \<Rightarrow> bytes" where
  "append_length_prefixed buf field = buf @ be_bytes 4 (int (length field)) @ field"

definition build_canonical_payload :: "'w host \<Rightarrow> string \<Rightarrow> int \<Rightarrow> bytes" where
  "build_canonical_payload h order_id amount =
     (let payload = [];
          order_id_bytes = string_xdr h order_id;
          amount_bytes = be_bytes 16 amount;
          payload = append_length_prefixed payload order_id_bytes;
          payload = append_length_prefixed payload amount_bytes
      in payload)"

section \<open>Checks on arguments\<close>

definition require_bounded_string :: "string \<Rightarrow> nat \<Rightarrow> nat \<Rightarrow> ('w, unit) contract" where
  [helper_defs]: "require_bounded_string v mn mx =
     guard (\<not> (length v < mn \<or> mx < length v)) InvalidInput"

definition require_not_paused :: "('w, unit) contract" where
  [helper_defs]: "require_not_paused =
     bind (gets st_get_paused) (\<lambda>paused. guard (\<not> paused) ContractPaused)"

definition require_positive :: "int \<Rightarrow> ('w, unit) contract" where
  [helper_defs]: "require_positive amount = guard (0 < amount) InvalidAmount"

definition require_min_refund_amount :: "int \<Rightarrow> ('w, unit) contract" where
  [helper_defs]: "require_min_refund_amount amount =
     bind (gets st_get_min_refund_amount) (\<lambda>m. guard (m \<le> amount) RefundBelowMinimum)"

definition require_valid_limit :: "nat \<Rightarrow> ('w, unit) contract" where
  [helper_defs]: "require_valid_limit limit =
     (if limit = 0 then fail InvalidInput
      else if MAX_PAGE_LIMIT < limit then fail PaginationLimitExceeded
      else ret ())"

definition require_non_empty_string :: "string \<Rightarrow> ('w, unit) contract" where
  [helper_defs]: "require_non_empty_string v = guard (length v \<noteq> 0) InvalidInput"

definition require_valid_id :: "string \<Rightarrow> ('w, unit) contract" where
  [helper_defs]: "require_valid_id v =
     bind (guard (length v \<noteq> 0) InvalidOrderId) (\<lambda>_.
     guard (\<not> 64 < length v) OrderIdTooLong)"

definition validate_tags :: "string list option \<Rightarrow> ('w, unit) contract" where
  [helper_defs]: "validate_tags tags =
     if_some tags (\<lambda>t.
       bind (guard (\<not> 5 < length t) InvalidTags) (\<lambda>_.
       for_each t (\<lambda>tag. guard (\<not> (length tag = 0 \<or> 32 < length tag)) InvalidTags)))"

definition validate_merchant_category :: "merchant_category \<Rightarrow> ('w, unit) contract" where
  [helper_defs]: "validate_merchant_category category =
     (case category of
        Custom v \<Rightarrow> guard (\<not> (length v = 0 \<or> 64 < length v)) InvalidCategory
      | _ \<Rightarrow> ret ())"

definition require_valid_memo :: "'w host \<Rightarrow> string \<Rightarrow> ('w, unit) contract" where
  [helper_defs]: "require_valid_memo h memo =
     guard (\<not> max_memo_length h < length memo) InvalidMemoLength"

definition verify_signature :: "'w host \<Rightarrow> bytes \<Rightarrow> bytes \<Rightarrow> bytes \<Rightarrow> ('w, unit) contract" where
  [helper_defs]: "verify_signature h public_key payload signature =
     bind (guard (length public_key = 32) InvalidSignature) (\<lambda>_.
     bind (guard (length signature = 64) InvalidSignature) (\<lambda>_.
     assert_that (ed25519_verify h public_key payload signature) CryptoTrap))"

section \<open>Checks on the caller\<close>

definition require_admin :: "address \<Rightarrow> ('w, unit) contract" where
  [helper_defs]: "require_admin caller =
     bind (require_auth caller) (\<lambda>_.
     bind (gets st_get_admin) (\<lambda>admin.
     guard (admin = Some caller) Unauthorized))"

definition require_admin_rate_limited :: "address \<Rightarrow> ('w, unit) contract" where
  "require_admin_rate_limited caller =
     bind (gets (st_is_auth_locked_out caller)) (\<lambda>locked.
     bind (guard (\<not> locked) AuthLockedOut) (\<lambda>_.
     bind (require_auth caller) (\<lambda>_.
     bind (gets st_get_admin) (\<lambda>admin.
     if admin = Some caller
     then modify (st_clear_auth_fail_count caller)
     else bind (st_record_auth_failure caller) (\<lambda>triggered_lockout.
          bind (run_if triggered_lockout
                  (publish T_suspicious_activity None [ReasonV ManyAuthFailures, AddrV caller])) (\<lambda>_.
          fail Unauthorized))))))"

definition is_admin :: "address \<Rightarrow> 'w env \<Rightarrow> bool" where
  [storage_defs]: "is_admin caller s \<longleftrightarrow>
     (case st_get_admin s of Some a \<Rightarrow> a = caller | None \<Rightarrow> False)"

definition require_admin_or :: "address \<Rightarrow> address \<Rightarrow> ('w, unit) contract" where
  [helper_defs]: "require_admin_or caller allowed =
     bind (require_auth caller) (\<lambda>_.
     bind (gets (is_admin caller)) (\<lambda>adm.
     guard (adm \<or> caller = allowed) Unauthorized))"

section \<open>What a check that passed establishes\<close>

lemma require_bounded_string_Ok_iff [exec_simps]:
  "require_bounded_string v mn mx s = (Ok z, u) \<longleftrightarrow> mn \<le> length v \<and> length v \<le> mx \<and> u = s"
  by (auto simp: require_bounded_string_def exec_simps)

lemma require_not_paused_Ok_iff [exec_simps]:
  "require_not_paused s = (Ok z, u) \<longleftrightarrow> \<not> st_get_paused s \<and> u = s"
  by (auto simp: require_not_paused_def exec_simps)

lemma require_positive_Ok_iff [exec_simps]:
  "require_positive amount s = (Ok z, u) \<longleftrightarrow> 0 < amount \<and> u = s"
  by (auto simp: require_positive_def exec_simps)

lemma require_min_refund_amount_Ok_iff [exec_simps]:
  "require_min_refund_amount amount s = (Ok z, u) \<longleftrightarrow> st_get_min_refund_amount s \<le> amount \<and> u = s"
  by (auto simp: require_min_refund_amount_def exec_simps)

lemma require_valid_limit_Ok_iff [exec_simps]:
  "require_valid_limit limit s = (Ok z, u) \<longleftrightarrow> limit \<noteq> 0 \<and> limit \<le> MAX_PAGE_LIMIT \<and> u = s"
  by (auto simp: require_valid_limit_def exec_simps)

lemma require_non_empty_string_Ok_iff [exec_simps]:
  "require_non_empty_string v s = (Ok z, u) \<longleftrightarrow> v \<noteq> [] \<and> u = s"
  by (auto simp: require_non_empty_string_def exec_simps)

lemma require_valid_id_Ok_iff [exec_simps]:
  "require_valid_id v s = (Ok z, u) \<longleftrightarrow> v \<noteq> [] \<and> length v \<le> 64 \<and> u = s"
  by (auto simp: require_valid_id_def exec_simps)

lemma require_valid_memo_Ok_iff [exec_simps]:
  "require_valid_memo h v s = (Ok z, u) \<longleftrightarrow> length v \<le> max_memo_length h \<and> u = s"
  by (auto simp: require_valid_memo_def exec_simps)

lemma for_each_guard_Ok_iff:
  "for_each xs (\<lambda>x. guard (P x) e) s = (Ok z, u) \<longleftrightarrow> (\<forall>x \<in> set xs. P x) \<and> u = s"
  by (induction xs) (auto simp: exec_simps)

definition tags_ok :: "string list option \<Rightarrow> bool" where
  "tags_ok tags \<longleftrightarrow> (case tags of None \<Rightarrow> True
     | Some t \<Rightarrow> length t \<le> 5 \<and> (\<forall>tag \<in> set t. tag \<noteq> [] \<and> length tag \<le> 32))"


lemma validate_tags_Ok_iff [exec_simps]:
  "validate_tags tags s = (Ok z, u) \<longleftrightarrow> tags_ok tags \<and> u = s"
  by (cases tags) (simp_all add: validate_tags_def tags_ok_def exec_simps for_each_guard_Ok_iff)

definition category_ok :: "merchant_category \<Rightarrow> bool" where
  "category_ok c \<longleftrightarrow> (case c of Custom v \<Rightarrow> v \<noteq> [] \<and> length v \<le> 64 | _ \<Rightarrow> True)"

lemma validate_merchant_category_Ok_iff [exec_simps]:
  "validate_merchant_category c s = (Ok z, u) \<longleftrightarrow> category_ok c \<and> u = s"
  by (auto simp: validate_merchant_category_def category_ok_def exec_simps split: merchant_category.splits)

lemma verify_signature_Ok_iff [exec_simps]:
  "verify_signature h pk payload sg s = (Ok z, u) \<longleftrightarrow>
     length pk = 32 \<and> length sg = 64 \<and> ed25519_verify h pk payload sg \<and> u = s"
  by (auto simp: verify_signature_def exec_simps)

lemma require_admin_Ok_iff [exec_simps]:
  "require_admin a s = (Ok z, u) \<longleftrightarrow> a \<in> auths s \<and> st_get_admin s = Some a \<and> u = s"
  by (auto simp: require_admin_def exec_simps)

lemma require_admin_rate_limited_Ok_iff [exec_simps]:
  "require_admin_rate_limited a s = (Ok z, u) \<longleftrightarrow>
     \<not> st_is_auth_locked_out a s \<and> a \<in> auths s \<and> st_get_admin s = Some a \<and>
     u = st_clear_auth_fail_count a s"
  by (auto simp: require_admin_rate_limited_def exec_simps split: if_splits)

lemma require_admin_or_Ok_iff [exec_simps]:
  "require_admin_or a b s = (Ok z, u) \<longleftrightarrow>
     a \<in> auths s \<and> (st_get_admin s = Some a \<or> a = b) \<and> u = s"
  by (auto simp: require_admin_or_def is_admin_def exec_simps split: option.splits)

lemma preserves_checks [pres]:
  "preserves I (require_bounded_string v mn mx)" "preserves I require_not_paused"
  "preserves I (require_positive amount)" "preserves I (require_min_refund_amount amount)"
  "preserves I (require_valid_limit limit)" "preserves I (require_non_empty_string v)"
  "preserves I (require_valid_id v)" "preserves I (require_valid_memo h v)"
  "preserves I (validate_tags tags)" "preserves I (validate_merchant_category c)"
  "preserves I (verify_signature h pk payload sg)" "preserves I (require_admin a)"
  "preserves I (require_admin_or a b)"
  by (auto simp: preserves_def exec_simps)

lemma preserves_require_admin_rate_limited:
  "(\<And>s. I s \<Longrightarrow> I (st_clear_auth_fail_count a s)) \<Longrightarrow> preserves I (require_admin_rate_limited a)"
  by (auto simp: preserves_def exec_simps)

section \<open>Byte comparison and payload encoding\<close>

lemma or_byte_eq_0: "or_byte x y = 0 \<longleftrightarrow> x = 0 \<and> y = 0"
  by (auto simp: or_byte_def or_eq_0_iff)

lemma xor_byte_eq_0: "xor_byte x y = 0 \<longleftrightarrow> x = y"
  by (simp add: xor_byte_def bit_eq_iff bit_simps)

lemma diff_loop_eq_0:
  "diff_loop xys d = 0 \<longleftrightarrow> d = 0 \<and> (\<forall>xy \<in> set xys. fst xy = snd xy)"
  by (induction xys arbitrary: d) (auto simp: or_byte_eq_0 xor_byte_eq_0)

text \<open>
  The branch-free byte comparison is equality of byte strings.
\<close>

theorem constant_time_eq_bytes_iff: "constant_time_eq_bytes a b \<longleftrightarrow> a = b"
proof (cases "length a = length b")
  case True
  then have "(\<forall>xy \<in> set (zip a b). fst xy = snd xy) \<longleftrightarrow> a = b"
    by (induction a b rule: list_induct2) auto
  with True show ?thesis by (simp add: constant_time_eq_bytes_def diff_loop_eq_0)
next
  case False
  then show ?thesis by (auto simp: constant_time_eq_bytes_def)
qed

lemma length_prefixed_inj:
  assumes "be_bytes 4 (int (length a)) @ a @ r = be_bytes 4 (int (length b)) @ b @ q"
    and "length a \<le> u32_max" "length b \<le> u32_max"
  shows "a = b \<and> r = q"
proof -
  from assms(1) have "be_bytes 4 (int (length a)) = be_bytes 4 (int (length b))"
    and rest: "a @ r = b @ q"
    by (simp_all add: append_eq_append_conv)
  with assms(2,3) have "length a = length b"
    by (simp add: be_bytes_eq_mod const_defs)
  with rest show ?thesis by simp
qed

text \<open>
  The canonical payload determines the order id (its XDR form) and the amount: the
  length prefixes leave no second way to parse it.
\<close>

theorem build_canonical_payload_injective:
  assumes "build_canonical_payload h a m = build_canonical_payload h b n"
    and "length (string_xdr h a) \<le> u32_max" "length (string_xdr h b) \<le> u32_max"
    and "in_i128 m" "in_i128 n"
  shows "string_xdr h a = string_xdr h b \<and> m = n"
proof -
  have eq: "be_bytes 4 (int (length (string_xdr h a))) @ string_xdr h a @
        be_bytes 4 (int 16) @ be_bytes 16 m =
      be_bytes 4 (int (length (string_xdr h b))) @ string_xdr h b @
        be_bytes 4 (int 16) @ be_bytes 16 n"
    using assms(1) by (simp add: build_canonical_payload_def append_length_prefixed_def Let_def)
  from length_prefixed_inj [OF eq assms(2,3)]
  have "string_xdr h a = string_xdr h b" and "be_bytes 16 m = be_bytes 16 n" by auto
  then show ?thesis using be_bytes_i128_inj assms(4,5) by blast
qed

theorem build_canonical_payload_injective_witness:
  "build_canonical_payload sample_host ''order-1'' 250 = build_canonical_payload sample_host ''order-1'' 250 \<and>
   (250::int) = 250"
  using build_canonical_payload_injective [of sample_host "''order-1''" 250 "''order-1''" 250]
  by (simp add: reference_defs const_defs in_i128_def)

end
