(* ===== verification/Frames.thy ===== *)
theory Frames
  imports Helper
begin

text \<open>
  Interfaces for invariants that span components. A component's operations preserve
  a predicate \<open>I\<close> as soon as \<open>I\<close> survives the writes they make; the locales below
  name those writes, and every component proves once, inside its own extension,
  that all its operations preserve such an \<open>I\<close>. An invariant of the whole contract
  is then an interpretation. \<open>ok\<close> marks addresses that \<open>I\<close> allows to be debited
  by a token transfer: signers of the invocation are, and the predicate may extend
  it to addresses found in records.
\<close>

locale frame =
  fixes I :: "'w env \<Rightarrow> bool"
    and ok :: "address \<Rightarrow> bool"
  assumes I_events: "I s \<Longrightarrow> I (s\<lparr>events := es\<rparr>)"
    and I_calls: "I s \<Longrightarrow> I (s\<lparr>host_calls := cs\<rparr>)"
    and signer_ok: "I s \<Longrightarrow> a \<in> auths s \<Longrightarrow> ok a"
begin

lemma pres_publish [pres]: "preserves I (publish t a d)"
  by (rule preserves_publish) (rule I_events)

lemma pres_update_wasm [pres]: "preserves I (update_current_contract_wasm hash)"
  by (auto simp: preserves_def exec_simps I_calls)

lemma I_extend_ttl: "I s \<Longrightarrow> I (extend_ttl k m n s)"
  by (simp add: extend_ttl_def I_calls)

lemma pres_bind_require_auth [pres_know]:
  "(ok a \<Longrightarrow> preserves I (k ())) \<Longrightarrow> preserves I (bind (require_auth a) k)"
  unfolding preserves_def using signer_ok by (auto simp: exec_simps)

end

text \<open>
  The counters of the authorisation lockout. A call that counts a failure returns an
  error and is rolled back, so only the resets reach the ledger.
\<close>

locale auth_frame = frame +
  assumes I_clear_auth_fail_count: "I s \<Longrightarrow> I (st_clear_auth_fail_count a s)"
    and I_clear_auth_lockout: "I s \<Longrightarrow> I (st_clear_auth_lockout a s)"
begin

lemma pres_require_admin_rate_limited [pres]: "preserves I (require_admin_rate_limited a)"
  by (rule preserves_require_admin_rate_limited) (rule I_clear_auth_fail_count)

end

text \<open>
  The configuration in instance storage: everything there except the administrator, the
  merchant list and the audit counters, and except the statistics and the pause with its
  timelock and guardians, which have frames of their own.
\<close>

definition base_instance ::
  "instance_store \<Rightarrow> address option \<times> address list option \<times> nat option \<times> nat option" where
  "base_instance i = (i_Admin i, i_ML i, i_AdminAuditCount i, i_AdminAuditMaxEntries i)"

definition pause_instance ::
  "instance_store \<Rightarrow> bool option \<times> nat option \<times> address list option \<times> address list option" where
  "pause_instance i = (i_Paused i, i_ULU i, i_EPA i, i_PG i)"

definition stats_instance :: "instance_store \<Rightarrow> global_stats option \<times> (address \<Rightarrow> merchant_stats option)" where
  "stats_instance i = (i_GlobalStats i, i_MS i)"

definition kept_instance where
  "kept_instance i = (base_instance i, pause_instance i, stats_instance i)"

lemmas kept_instance_defs = kept_instance_def base_instance_def pause_instance_def stats_instance_def

locale config_frame = frame +
  assumes I_instance:
    "I s \<Longrightarrow> kept_instance i = kept_instance (instance_st s) \<Longrightarrow> I (s\<lparr>instance_st := i\<rparr>)"
begin

lemma I_upd_instance:
  "I s \<Longrightarrow> kept_instance (f (instance_st s)) = kept_instance (instance_st s) \<Longrightarrow> I (upd_instance f s)"
  by (simp add: upd_instance_def I_instance)

lemma I_config:
  assumes "I s"
  shows "I (st_set_cleanup_period n s)" "I (st_set_platform_fee_bps n s)"
    "I (st_set_fee_recipient a s)" "I (st_set_refund_window n s)"
    "I (st_set_refund_retention_period n s)" "I (st_set_large_payment_threshold x s)"
    "I (st_set_min_refund_amount x s)"
    "I (st_set_multisig_expiry_duration n s)"
    "I (st_set_max_multisig_signers n s)" "I (st_set_token_allowed a b s)"
    "I (st_set_issuer_allowed a b s)" "I (st_set_payment_rate_limit n s)"
    "I (st_set_payment_rate_window n s)" "I (st_set_rate_limit_per_window n s)"
    "I (st_set_stored_version v s)" "I (st_set_pause_reason v s)" "I (st_clear_pause_reason s)"
    "I (st_set_storage_version n s)"
    "I (st_set_signature_expiry_window n s)"
  unfolding st_set_cleanup_period_def st_set_platform_fee_bps_def
    st_set_fee_recipient_def st_set_refund_window_def st_set_refund_retention_period_def
    st_set_large_payment_threshold_def st_set_min_refund_amount_def
    st_set_multisig_expiry_duration_def st_set_max_multisig_signers_def
    st_set_token_allowed_def st_set_issuer_allowed_def st_set_payment_rate_limit_def
    st_set_payment_rate_window_def st_set_rate_limit_per_window_def st_set_stored_version_def
    st_set_pause_reason_def st_clear_pause_reason_def st_set_unpause_lock_until_def
    st_clear_unpause_lock_until_def st_set_pause_guardians_def st_set_early_unpause_approvals_def
    st_clear_early_unpause_approvals_def st_set_storage_version_def
    st_set_signature_expiry_window_def
  by (rule I_upd_instance, rule assms, simp add: kept_instance_defs)+

lemma pres_config [pres]:
  "preserves I (modify (st_set_cleanup_period n))"
  "preserves I (modify (st_set_platform_fee_bps n))" "preserves I (modify (st_set_fee_recipient a))"
  "preserves I (modify (st_set_refund_window n))"
  "preserves I (modify (st_set_refund_retention_period n))"
  "preserves I (modify (st_set_large_payment_threshold x))"
  "preserves I (modify (st_set_min_refund_amount x))"
  "preserves I (modify (st_set_multisig_expiry_duration n))"
  "preserves I (modify (st_set_max_multisig_signers n))"
  "preserves I (modify (st_set_token_allowed a b))" "preserves I (modify (st_set_issuer_allowed a b))"
  "preserves I (modify (st_set_payment_rate_limit n))"
  "preserves I (modify (st_set_payment_rate_window n))"
  "preserves I (modify (st_set_rate_limit_per_window n))"
  "preserves I (modify (st_set_stored_version v))" "preserves I (modify (st_set_pause_reason v))"
  "preserves I (modify st_clear_pause_reason)"
  "preserves I (modify (st_set_storage_version n))"
  "preserves I (modify (st_set_signature_expiry_window n))"
  by (rule preserves_modify, erule I_config)+

end

locale pause_frame = config_frame +
  assumes I_pause_instance:
    "I s \<Longrightarrow> base_instance i = base_instance (instance_st s) \<Longrightarrow>
     stats_instance i = stats_instance (instance_st s) \<Longrightarrow> I (s\<lparr>instance_st := i\<rparr>)"
begin

lemma I_pause:
  assumes "I s"
  shows "I (st_set_paused b s)" "I (st_set_unpause_lock_until n s)" "I (st_clear_unpause_lock_until s)"
    "I (st_set_pause_guardians as s)" "I (st_set_early_unpause_approvals as s)"
    "I (st_clear_early_unpause_approvals s)"
  unfolding st_set_paused_def st_set_unpause_lock_until_def st_clear_unpause_lock_until_def
    st_set_pause_guardians_def st_set_early_unpause_approvals_def st_clear_early_unpause_approvals_def
    upd_instance_def
  by (rule I_pause_instance, rule assms, simp_all add: base_instance_def stats_instance_def)+

lemma pres_pause_writes [pres]:
  "preserves I (modify (st_set_paused b))" "preserves I (modify (st_set_unpause_lock_until n))"
  "preserves I (modify st_clear_unpause_lock_until)"
  "preserves I (modify (st_set_pause_guardians as))"
  "preserves I (modify (st_set_early_unpause_approvals as))"
  "preserves I (modify st_clear_early_unpause_approvals)"
  by (rule preserves_modify, erule I_pause)+

end

locale stats_frame = config_frame +
  assumes I_stats_instance:
    "I s \<Longrightarrow> base_instance i = base_instance (instance_st s) \<Longrightarrow>
     pause_instance i = pause_instance (instance_st s) \<Longrightarrow> I (s\<lparr>instance_st := i\<rparr>)"
begin

lemma I_stats:
  assumes "I s"
  shows "I (st_set_global_stats g s)" "I (st_set_merchant_stats a ms s)"
  unfolding st_set_global_stats_def st_set_merchant_stats_def upd_instance_def
  by (rule I_stats_instance, rule assms, simp_all add: base_instance_def pause_instance_def)+

lemma pres_stats_writes [pres]:
  "preserves I (modify (st_set_global_stats g))" "preserves I (modify (st_set_merchant_stats a ms))"
  by (rule preserves_modify, erule I_stats)+

end

text \<open>Token calls that debit an address the predicate allows to be debited.\<close>

locale token_frame = frame I ok for I :: "'w env \<Rightarrow> bool" and ok +
  fixes h :: "'w host"
  assumes I_transfer:
      "I s \<Longrightarrow> ok src \<Longrightarrow> token_transfer h tok src dst n (world s) = Some w \<Longrightarrow> I (s\<lparr>world := w\<rparr>)"
    and I_transfer_from:
      "I s \<Longrightarrow> ok src \<Longrightarrow> token_transfer_from h tok sp src dst n (world s) = Some w \<Longrightarrow>
       I (s\<lparr>world := w\<rparr>)"
    and I_approve:
      "I s \<Longrightarrow> token_approve h tok src sp n l (world s) = Some w \<Longrightarrow> I (s\<lparr>world := w\<rparr>)"
begin

lemma pres_transfer [pres]: "ok src \<Longrightarrow> preserves I (transfer h tok src dst n)"
  by (auto simp: preserves_def exec_simps intro: I_transfer)

lemma pres_transfer_from [pres]: "ok src \<Longrightarrow> preserves I (transfer_from h tok sp src dst n)"
  by (auto simp: preserves_def exec_simps intro: I_transfer_from)

lemma pres_approve [pres]: "preserves I (approve h tok src sp n l)"
  by (auto simp: preserves_def exec_simps intro: I_approve)

end

end
