(* ===== verification/AuditLog.thy ===== *)
theory AuditLog
  imports Frames
begin

text \<open>
  The admin audit log (\<open>storage.rs\<close>, \<open>append_audit\<close> and \<open>get_admin_audit_log\<close> of
  \<open>lib.rs\<close>): entries at indices 0, 1, 2, ..., a counter of all entries ever written,
  and eviction of the oldest entry once the configured maximum is reached.
\<close>

section \<open>Operations\<close>

definition get_admin_audit_count :: "'w env \<Rightarrow> nat" where
  [storage_defs]: "get_admin_audit_count s = unwrap_or (i_AdminAuditCount (instance_st s)) 0"

definition set_admin_audit_count :: "nat \<Rightarrow> 'w env \<Rightarrow> 'w env" where
  [storage_defs]: "set_admin_audit_count count = upd_instance (\<lambda>i. i\<lparr>i_AdminAuditCount := Some count\<rparr>)"

definition get_admin_audit_max_entries :: "'w env \<Rightarrow> nat" where
  [storage_defs]: "get_admin_audit_max_entries s =
     unwrap_or (i_AdminAuditMaxEntries (instance_st s)) DEFAULT_ADMIN_AUDIT_MAX_ENTRIES"

definition set_admin_audit_max_entries :: "nat \<Rightarrow> 'w env \<Rightarrow> 'w env" where
  [storage_defs]: "set_admin_audit_max_entries mx =
     upd_instance (\<lambda>i. i\<lparr>i_AdminAuditMaxEntries := Some mx\<rparr>)"

definition get_admin_audit_entry :: "nat \<Rightarrow> 'w env \<Rightarrow> admin_audit_entry option" where
  [storage_defs]: "get_admin_audit_entry index s = k_AdminAuditEntry (persistent_st s) index"

definition append_admin_audit_entry :: "admin_audit_entry \<Rightarrow> ('w, unit) contract" where
  "append_admin_audit_entry entry =
     bind (gets get_admin_audit_max_entries) (\<lambda>mx.
     bind (gets get_admin_audit_count) (\<lambda>count.
     bind (run_if (mx \<le> count)
       (modify (upd_persistent (\<lambda>p. p\<lparr>k_AdminAuditEntry :=
          (k_AdminAuditEntry p)(sat_sub count mx := None)\<rparr>)))) (\<lambda>_.
     bind (modify (\<lambda>s. extend_ttl (K_AdminAuditEntry (ae_index entry))
         ADMIN_AUDIT_TTL_LEDGERS ADMIN_AUDIT_TTL_LEDGERS
       (upd_persistent (\<lambda>p. p\<lparr>k_AdminAuditEntry :=
          (k_AdminAuditEntry p)(ae_index entry := Some entry)\<rparr>) s))) (\<lambda>_.
     bind (u32_add count 1) (\<lambda>count'.
     modify (set_admin_audit_count count'))))))"

definition append_audit :: "admin_action_type \<Rightarrow> address \<Rightarrow> string \<Rightarrow> ('w, unit) contract" where
  "append_audit action caller params =
     bind (gets get_admin_audit_count) (\<lambda>index.
     bind (gets now) (\<lambda>ts.
     bind (gets seq_no) (\<lambda>sq.
     append_admin_audit_entry
       \<lparr>ae_index = index, ae_action = action, ae_caller = caller, ae_params = params,
        ae_timestamp = ts, ae_ledger_sequence = sq\<rparr>)))"

text \<open>The loop of \<open>query_admin_audit_log\<close>, from the newest index downwards.\<close>

fun query_loop ::
  "(nat \<Rightarrow> admin_audit_entry option) \<Rightarrow> nat \<Rightarrow> nat \<Rightarrow> nat \<Rightarrow> nat \<Rightarrow>
   admin_audit_entry list \<Rightarrow> nat \<Rightarrow> admin_audit_entry list" where
  "query_loop look from_ledger to_ledger limit 0 results collected = results"
| "query_loop look from_ledger to_ledger limit (Suc i) results collected =
     (if collected < limit then
        (case look i of
           None \<Rightarrow> query_loop look from_ledger to_ledger limit i results collected
         | Some entry \<Rightarrow>
             (let hit = (from_ledger \<le> ae_ledger_sequence entry \<and> ae_ledger_sequence entry \<le> to_ledger);
                  results' = (if hit then results @ [entry] else results);
                  collected' = (if hit then collected + 1 else collected)
              in if ae_ledger_sequence entry < from_ledger then results'
                 else query_loop look from_ledger to_ledger limit i results' collected'))
      else results)"

definition query_admin_audit_log :: "nat \<Rightarrow> nat \<Rightarrow> nat \<Rightarrow> 'w env \<Rightarrow> admin_audit_entry list" where
  "query_admin_audit_log from_ledger to_ledger limit s =
     query_loop (\<lambda>i. get_admin_audit_entry i s) from_ledger to_ledger limit
       (get_admin_audit_count s) [] 0"

definition get_admin_audit_log ::
  "address \<Rightarrow> nat \<Rightarrow> nat \<Rightarrow> nat \<Rightarrow> ('w, admin_audit_entry list) contract" where
  "get_admin_audit_log admin from_ledger to_ledger limit =
     bind (require_admin admin) (\<lambda>_.
     bind (guard (\<not> (to_ledger < from_ledger \<or> limit = 0)) InvalidInput) (\<lambda>_.
     let effective_limit = min limit 100 in
     gets (query_admin_audit_log from_ledger to_ledger effective_limit)))"

section \<open>Frame\<close>

locale audit_frame = frame +
  assumes I_audit: "preserves I (append_audit action caller params)"
begin

lemma pres_append_audit [pres]: "preserves I (append_audit action caller params)"
  by (rule I_audit)

lemma pres_get_admin_audit_log [pres]: "preserves I (get_admin_audit_log a m n l)"
  unfolding get_admin_audit_log_def by (rule pres)+

end

section \<open>The log as a list\<close>

lemma append_audit_Ok_iff [exec_simps]:
  "append_audit action caller params s = (Ok z, u) \<longleftrightarrow>
     (let count = get_admin_audit_count s; mx = get_admin_audit_max_entries s;
          entry = \<lparr>ae_index = count, ae_action = action, ae_caller = caller, ae_params = params,
                   ae_timestamp = now s, ae_ledger_sequence = seq_no s\<rparr>;
          evicted = (if mx \<le> count
            then upd_persistent (\<lambda>p. p\<lparr>k_AdminAuditEntry := (k_AdminAuditEntry p)(count - mx := None)\<rparr>) s
            else s);
          written = extend_ttl (K_AdminAuditEntry count) ADMIN_AUDIT_TTL_LEDGERS ADMIN_AUDIT_TTL_LEDGERS
            (upd_persistent (\<lambda>p. p\<lparr>k_AdminAuditEntry := (k_AdminAuditEntry p)(count := Some entry)\<rparr>) evicted)
      in count + 1 \<le> u32_max \<and> u = set_admin_audit_count (count + 1) written)"
  by (auto simp: append_audit_def append_admin_audit_entry_def exec_simps Let_def)

text \<open>A predicate that reads neither the audit counter nor the entries survives an append.\<close>

lemma preserves_append_audit:
  assumes "\<And>s c e hc. I s \<Longrightarrow>
    I (s\<lparr>instance_st := (instance_st s)\<lparr>i_AdminAuditCount := c\<rparr>,
         persistent_st := (persistent_st s)\<lparr>k_AdminAuditEntry := e\<rparr>, host_calls := hc\<rparr>)"
  shows "preserves I (append_audit action caller params)"
proof (rule preservesI)
  fix s x t
  assume run: "append_audit action caller params s = (Ok x, t)" and "I s"
  from run have "t = s\<lparr>instance_st := (instance_st s)\<lparr>i_AdminAuditCount := i_AdminAuditCount (instance_st t)\<rparr>,
      persistent_st := (persistent_st s)\<lparr>k_AdminAuditEntry := k_AdminAuditEntry (persistent_st t)\<rparr>,
      host_calls := host_calls t\<rparr>"
    by (auto simp: append_audit_Ok_iff Let_def storage_defs)
  also have "I \<dots>" using \<open>I s\<close> by (rule assms)
  finally show "I t" .
qed

text \<open>
  The shape every reachable log has while its maximum is fixed: the retained
  entries are exactly the last \<open>max\<close> of the entries ever written, each under its
  own index, with ledger numbers that never decrease.
\<close>

definition log_ok :: "'w env \<Rightarrow> bool" where
  "log_ok s \<longleftrightarrow>
     (\<forall>i. get_admin_audit_entry i s \<noteq> None \<longleftrightarrow>
        get_admin_audit_count s - get_admin_audit_max_entries s \<le> i \<and> i < get_admin_audit_count s) \<and>
     (\<forall>i e. get_admin_audit_entry i s = Some e \<longrightarrow> ae_index e = i \<and> ae_ledger_sequence e \<le> seq_no s) \<and>
     (\<forall>i j e f. i \<le> j \<and> get_admin_audit_entry i s = Some e \<and> get_admin_audit_entry j s = Some f \<longrightarrow>
        ae_ledger_sequence e \<le> ae_ledger_sequence f)"

text \<open>The entries the log holds, oldest first.\<close>

definition log_entries :: "'w env \<Rightarrow> admin_audit_entry list" where
  "log_entries s = map (\<lambda>i. the (get_admin_audit_entry i s))
     [get_admin_audit_count s - get_admin_audit_max_entries s ..< get_admin_audit_count s]"

lemma get_entry_append:
  assumes "append_audit action caller params s = (Ok z, t)" and "0 < get_admin_audit_max_entries s"
  shows "get_admin_audit_entry i t =
    (if i = get_admin_audit_count s
     then Some \<lparr>ae_index = i, ae_action = action, ae_caller = caller, ae_params = params,
                ae_timestamp = now s, ae_ledger_sequence = seq_no s\<rparr>
     else if i + get_admin_audit_max_entries s = get_admin_audit_count s then None
     else get_admin_audit_entry i s)"
    and "get_admin_audit_count t = get_admin_audit_count s + 1"
    and "get_admin_audit_max_entries t = get_admin_audit_max_entries s"
    and "seq_no t = seq_no s"
  using assms by (auto simp: exec_simps Let_def storage_defs set_admin_audit_count_def split: if_splits)

lemma length_log_entries:
  "length (log_entries s) = min (get_admin_audit_count s) (get_admin_audit_max_entries s)"
  by (simp add: log_entries_def)

lemma log_ok_append:
  assumes ok: "log_ok s" and mx: "0 < get_admin_audit_max_entries s"
    and run: "append_audit action caller params s = (Ok z, t)"
  shows "log_ok t"
proof -
  note get = get_entry_append [OF run mx]
  have present: "get_admin_audit_entry i s \<noteq> None \<longleftrightarrow>
      get_admin_audit_count s - get_admin_audit_max_entries s \<le> i \<and> i < get_admin_audit_count s" for i
    using ok by (simp add: log_ok_def)
  have "get_admin_audit_entry i t \<noteq> None \<longleftrightarrow>
      get_admin_audit_count t - get_admin_audit_max_entries t \<le> i \<and> i < get_admin_audit_count t" for i
    using present [of i] mx unfolding get by auto
  moreover have "ae_index e = i \<and> ae_ledger_sequence e \<le> seq_no t"
    if "get_admin_audit_entry i t = Some e" for i e
    using that ok unfolding get by (auto simp: log_ok_def split: if_splits)
  moreover have "ae_ledger_sequence e \<le> ae_ledger_sequence f"
    if "i \<le> j" "get_admin_audit_entry i t = Some e" "get_admin_audit_entry j t = Some f" for i j e f
  proof -
    have "j \<le> get_admin_audit_count s"
      using that(3) present [of j] by (auto simp: get split: if_splits)
    with that ok present [of i] show ?thesis
      unfolding get by (auto simp: log_ok_def split: if_splits)
  qed
  ultimately show ?thesis unfolding log_ok_def by blast
qed

text \<open>The entries below an index, and the loop of the query over them.\<close>

definition entries_below :: "'w env \<Rightarrow> nat \<Rightarrow> admin_audit_entry list" where
  "entries_below s i = map (\<lambda>j. the (get_admin_audit_entry j s))
     [get_admin_audit_count s - get_admin_audit_max_entries s ..< i]"

lemma entries_below_Suc:
  assumes "log_ok s" and "i < get_admin_audit_count s"
  shows "entries_below s (Suc i) = entries_below s i @
    (case get_admin_audit_entry i s of Some e \<Rightarrow> [e] | None \<Rightarrow> [])"
proof -
  from assms have "get_admin_audit_entry i s \<noteq> None \<longleftrightarrow>
      get_admin_audit_count s - get_admin_audit_max_entries s \<le> i"
    unfolding log_ok_def by blast
  then show ?thesis
    by (cases "get_admin_audit_entry i s") (simp_all add: entries_below_def)
qed

lemma entries_below_earlier:
  assumes ok: "log_ok s" and e: "get_admin_audit_entry i s = Some e" and f: "f \<in> set (entries_below s i)"
  shows "ae_ledger_sequence f \<le> ae_ledger_sequence e"
proof -
  from f obtain j where j: "f = the (get_admin_audit_entry j s)" "j < i"
      "get_admin_audit_count s - get_admin_audit_max_entries s \<le> j"
    by (auto simp: entries_below_def)
  from ok e have "i < get_admin_audit_count s"
    unfolding log_ok_def by (metis option.distinct(1))
  with ok j have "get_admin_audit_entry j s \<noteq> None"
    unfolding log_ok_def by auto
  with ok e j show ?thesis
    unfolding log_ok_def by (metis less_imp_le option.collapse)
qed

lemma query_loop_spec:
  assumes ok: "log_ok s" and "i \<le> get_admin_audit_count s"
  shows "query_loop (\<lambda>i. get_admin_audit_entry i s) m n limit i results collected =
    results @ take (limit - collected)
      (rev (filter (\<lambda>e. m \<le> ae_ledger_sequence e \<and> ae_ledger_sequence e \<le> n) (entries_below s i)))"
  using assms(2)
proof (induction i arbitrary: results collected)
  case 0
  then show ?case by (simp add: entries_below_def)
next
  case (Suc i)
  then have i: "i < get_admin_audit_count s" by simp
  show ?case
  proof (cases "collected < limit \<and> get_admin_audit_entry i s \<noteq> None")
    case False
    then show ?thesis
      using Suc entries_below_Suc [OF ok i] by (auto split: option.splits)
  next
    case True
    then obtain e where e: "get_admin_audit_entry i s = Some e" and lt: "collected < limit" by auto
    have stop: "filter (\<lambda>e. m \<le> ae_ledger_sequence e \<and> ae_ledger_sequence e \<le> n) (entries_below s i) = []"
      if "ae_ledger_sequence e < m"
      using that entries_below_earlier [OF ok e] by (fastforce simp: filter_empty_conv)
    from lt have take: "take (limit - collected) (x # xs) = x # take (limit - Suc collected) xs"
      for x :: admin_audit_entry and xs
      by (simp add: take_Cons' )
    show ?thesis
      using lt Suc.IH i stop entries_below_Suc [OF ok i] by (auto simp: e take)
  qed
qed

text \<open>
  C38. The audit log keeps exactly the newest entries. Appending to a log that holds
  its last \<open>max\<close> entries adds the new entry at the end, drops the oldest one when the
  log was full, and leaves a log of the same shape.
\<close>

theorem append_audit_keeps_newest:
  assumes "log_ok s" and "0 < get_admin_audit_max_entries s"
    and "append_audit action caller params s = (Ok (), t)"
  shows "log_ok t \<and> log_entries t =
    drop (length (log_entries s) + 1 - get_admin_audit_max_entries s)
      (log_entries s @ [\<lparr>ae_index = get_admin_audit_count s, ae_action = action, ae_caller = caller,
         ae_params = params, ae_timestamp = now s, ae_ledger_sequence = seq_no s\<rparr>])"
proof -
  note get = get_entry_append [OF assms(3,2)]
  let ?c = "get_admin_audit_count s" and ?m = "get_admin_audit_max_entries s"
  let ?new = "\<lparr>ae_index = ?c, ae_action = action, ae_caller = caller, ae_params = params,
    ae_timestamp = now s, ae_ledger_sequence = seq_no s\<rparr>"
  have old: "map (\<lambda>i. the (get_admin_audit_entry i t)) [?c + 1 - ?m ..< ?c] =
      map (\<lambda>i. the (get_admin_audit_entry i s)) [?c + 1 - ?m ..< ?c]"
    by (rule map_cong) (auto simp: get)
  have "log_entries t = map (\<lambda>i. the (get_admin_audit_entry i s)) [?c + 1 - ?m ..< ?c] @ [?new]"
    using assms(2) old by (simp add: log_entries_def get(2,3) get(1) [of ?c])
  also have "\<dots> = drop (length (log_entries s) + 1 - ?m) (log_entries s) @ [?new]"
  proof -
    have "?c - ?m + (min ?c ?m + 1 - ?m) = ?c + 1 - ?m" using assms(2) by auto
    then show ?thesis by (simp add: length_log_entries) (simp add: log_entries_def drop_map)
  qed
  also have "\<dots> = drop (length (log_entries s) + 1 - ?m) (log_entries s @ [?new])"
    using assms(2) by (simp add: length_log_entries)
  finally show ?thesis using log_ok_append [OF assms] by simp
qed

theorem append_audit_keeps_newest_witness:
  "log_ok (snd (append_audit SetAdmin (Addr 1) '''' (deployed () {Addr 1} 5)))"
proof -
  let ?s = "deployed () {Addr 1} 5"
  have "log_ok ?s" "0 < get_admin_audit_max_entries ?s"
    by (auto simp: log_ok_def storage_defs reference_defs const_defs)
  moreover have "append_audit SetAdmin (Addr 1) '''' ?s =
      (Ok (), snd (append_audit SetAdmin (Addr 1) '''' ?s))"
    by (simp add: append_audit_def append_admin_audit_entry_def exec_comp storage_defs reference_defs const_defs)
  ultimately show ?thesis using append_audit_keeps_newest by blast
qed

text \<open>
  C39. A query of the audit log returns the newest \<open>limit\<close> entries of the ledger range,
  newest first: the early exit of the loop loses no entry.
\<close>

theorem query_admin_audit_log_spec:
  assumes "log_ok s"
  shows "query_admin_audit_log from_ledger to_ledger limit s =
    take limit (rev (filter (\<lambda>e. from_ledger \<le> ae_ledger_sequence e \<and>
      ae_ledger_sequence e \<le> to_ledger) (log_entries s)))"
  using query_loop_spec [OF assms order.refl, of from_ledger to_ledger limit "[]" 0]
  by (simp add: query_admin_audit_log_def entries_below_def log_entries_def)

theorem query_admin_audit_log_spec_witness:
  "map ae_action (query_admin_audit_log 900 1100 5
     (snd (append_audit SetAdmin (Addr 1) '''' (deployed () {Addr 1} 5)))) = [SetAdmin]"
proof -
  let ?s = "deployed () {Addr 1} 5" and ?t = "snd (append_audit SetAdmin (Addr 1) '''' (deployed () {Addr 1} 5))"
  have "log_ok ?s" "0 < get_admin_audit_max_entries ?s"
    by (auto simp: log_ok_def storage_defs reference_defs const_defs)
  moreover have run: "append_audit SetAdmin (Addr 1) '''' ?s = (Ok (), ?t)"
    by (simp add: append_audit_def append_admin_audit_entry_def exec_comp storage_defs reference_defs const_defs)
  ultimately have "log_ok ?t" by (rule log_ok_append)
  then show ?thesis
    by (subst query_admin_audit_log_spec)
      (simp_all add: log_entries_def append_audit_def append_admin_audit_entry_def exec_comp
        set_admin_audit_count_def storage_defs reference_defs const_defs)
qed

end
