(* ===== verification/Admin.thy ===== *)
theory Admin
  imports AuditLog
begin

text \<open>
  The administrator's entry points of \<open>lib.rs\<close>: initialisation and transfer of the
  role, configuration, the emergency pause with its timelock and its guardians, and
  the token and issuer allow-lists. \<open>lib.rs\<close> declares six of these functions twice
  with different bodies; the second versions carry the suffix \<open>_dup\<close>.
\<close>

definition PAUSE_TIMELOCK_SECS :: nat where [const_defs]: "PAUSE_TIMELOCK_SECS = 7 * 24 * 3600"

definition EARLY_UNPAUSE_THRESHOLD :: nat where [const_defs]: "EARLY_UNPAUSE_THRESHOLD = 3"

section \<open>The role\<close>

definition set_admin :: "address \<Rightarrow> ('w, unit) contract" where
  "set_admin admin =
     bind (gets st_get_admin) (\<lambda>current.
     bind (guard (current = None) AdminAlreadySet) (\<lambda>_.
     bind (require_auth admin) (\<lambda>_.
     bind (modify (st_set_admin admin)) (\<lambda>_.
     bind (append_audit SetAdmin admin '''') (\<lambda>_.
     publish T_admin_set None [AddrV admin])))))"

definition transfer_admin :: "'w host \<Rightarrow> address \<Rightarrow> address \<Rightarrow> ('w, unit) contract" where
  "transfer_admin h current_admin new_admin =
     bind (require_admin current_admin) (\<lambda>_.
     bind (guard (new_admin \<noteq> current_admin) InvalidAdminAddress) (\<lambda>_.
     let raw = address_xdr h new_admin in
     bind (guard (\<not> list_all (\<lambda>b. b = 0) raw) InvalidAdminAddress) (\<lambda>_.
     bind (modify (st_set_admin new_admin)) (\<lambda>_.
     bind (publish T_admin_transferred None [AddrV current_admin, AddrV new_admin]) (\<lambda>_.
     append_audit TransferAdmin current_admin '''')))))"

section \<open>Configuration\<close>

definition set_payment_cleanup_period :: "address \<Rightarrow> nat \<Rightarrow> ('w, unit) contract" where
  "set_payment_cleanup_period admin period =
     bind (require_admin_rate_limited admin) (\<lambda>_.
     bind (modify (st_set_cleanup_period period)) (\<lambda>_.
     publish T_admin_action None [StrV ''set_payment_cleanup_period'', AddrV admin, UintV period]))"

definition set_platform_fee :: "address \<Rightarrow> nat \<Rightarrow> address \<Rightarrow> ('w, unit) contract" where
  "set_platform_fee admin fee_bps fee_recipient =
     bind (require_admin_rate_limited admin) (\<lambda>_.
     bind (guard (\<not> MAX_PLATFORM_FEE_BPS < fee_bps) InvalidInput) (\<lambda>_.
     bind (modify (st_set_platform_fee_bps fee_bps)) (\<lambda>_.
     bind (modify (st_set_fee_recipient fee_recipient)) (\<lambda>_.
     append_audit SetPlatformFee admin ''''))))"

definition set_large_payment_threshold :: "address \<Rightarrow> int \<Rightarrow> ('w, unit) contract" where
  "set_large_payment_threshold admin threshold =
     bind (require_admin_rate_limited admin) (\<lambda>_.
     bind (require_positive threshold) (\<lambda>_.
     bind (modify (st_set_large_payment_threshold threshold)) (\<lambda>_.
     publish T_admin_action None [StrV ''set_large_payment_threshold'', AddrV admin, I128V threshold])))"

definition set_multisig_expiry_duration :: "address \<Rightarrow> nat \<Rightarrow> ('w, unit) contract" where
  "set_multisig_expiry_duration admin duration =
     bind (require_admin_rate_limited admin) (\<lambda>_.
     bind (guard (duration \<noteq> 0) InvalidInput) (\<lambda>_.
     modify (st_set_multisig_expiry_duration duration)))"

definition set_max_signers :: "address \<Rightarrow> nat \<Rightarrow> ('w, unit) contract" where
  "set_max_signers admin max_signers =
     bind (require_admin_rate_limited admin) (\<lambda>_.
     bind (guard (max_signers \<noteq> 0) InvalidInput) (\<lambda>_.
     bind (modify (st_set_max_multisig_signers max_signers)) (\<lambda>_.
     publish T_max_signers_updated None [UintV max_signers])))"

definition set_refund_window :: "address \<Rightarrow> nat \<Rightarrow> ('w, unit) contract" where
  "set_refund_window admin window_secs =
     bind (require_admin_rate_limited admin) (\<lambda>_.
     bind (guard (\<not> window_secs < MIN_REFUND_WINDOW_SECS) InvalidInput) (\<lambda>_.
     bind (modify (st_set_refund_window window_secs)) (\<lambda>_.
     publish T_refund_window_set None [UintV window_secs])))"

definition set_min_refund_amount :: "address \<Rightarrow> int \<Rightarrow> ('w, unit) contract" where
  "set_min_refund_amount admin amount =
     bind (require_admin_rate_limited admin) (\<lambda>_.
     bind (require_positive amount) (\<lambda>_.
     modify (st_set_min_refund_amount amount)))"

definition set_signature_expiry_window :: "address \<Rightarrow> nat \<Rightarrow> ('w, unit) contract" where
  "set_signature_expiry_window admin window_secs =
     bind (require_admin_rate_limited admin) (\<lambda>_.
     bind (guard (window_secs \<noteq> 0) InvalidInput) (\<lambda>_.
     bind (modify (st_set_signature_expiry_window window_secs)) (\<lambda>_.
     publish T_signature_expiry_window_set None [UintV window_secs])))"

definition reset_auth_lockout :: "address \<Rightarrow> address \<Rightarrow> ('w, unit) contract" where
  "reset_auth_lockout admin a =
     bind (require_admin_rate_limited admin) (\<lambda>_.
     bind (modify (st_clear_auth_lockout a)) (\<lambda>_.
     publish T_auth_lockout_reset None [AddrV a]))"

definition set_rate_limit :: "address \<Rightarrow> nat \<Rightarrow> ('w, unit) contract" where
  "set_rate_limit admin limit =
     bind (require_admin_rate_limited admin) (\<lambda>_.
     bind (guard (limit \<noteq> 0) InvalidInput) (\<lambda>_.
     bind (modify (st_set_rate_limit_per_window limit)) (\<lambda>_.
     publish T_rate_limit_set None [UintV limit])))"

definition set_payment_rate_limit :: "address \<Rightarrow> nat \<Rightarrow> ('w, unit) contract" where
  "set_payment_rate_limit admin limit =
     bind (require_admin admin) (\<lambda>_.
     bind (guard (limit \<noteq> 0) InvalidInput) (\<lambda>_.
     modify (st_set_payment_rate_limit limit)))"

definition set_payment_rate_window :: "address \<Rightarrow> nat \<Rightarrow> ('w, unit) contract" where
  "set_payment_rate_window admin window_secs =
     bind (require_admin admin) (\<lambda>_.
     bind (guard (window_secs \<noteq> 0) InvalidInput) (\<lambda>_.
     modify (st_set_payment_rate_window window_secs)))"

definition set_refund_retention_period :: "address \<Rightarrow> nat \<Rightarrow> ('w, unit) contract" where
  "set_refund_retention_period admin period =
     bind (require_admin admin) (\<lambda>_.
     bind (modify (st_set_refund_retention_period period)) (\<lambda>_.
     publish T_admin_action None [StrV ''set_refund_retention_period'', AddrV admin, UintV period]))"

text \<open>The second declarations.\<close>

definition set_refund_window_dup :: "address \<Rightarrow> nat \<Rightarrow> ('w, unit) contract" where
  "set_refund_window_dup admin window_secs =
     bind (require_admin admin) (\<lambda>_.
     bind (gets st_get_refund_window) (\<lambda>old_value.
     bind (modify (st_set_refund_window window_secs)) (\<lambda>_.
     bind (gets now) (\<lambda>ts.
     publish T_config_updated None
       [StrV ''refund_window'', I128V (int old_value), I128V (int window_secs), AddrV admin, UintV ts]))))"

definition set_min_refund_amount_dup :: "address \<Rightarrow> int \<Rightarrow> ('w, unit) contract" where
  "set_min_refund_amount_dup admin min_amount =
     bind (require_admin admin) (\<lambda>_.
     bind (require_positive min_amount) (\<lambda>_.
     bind (gets st_get_min_refund_amount) (\<lambda>old_value.
     bind (modify (st_set_min_refund_amount min_amount)) (\<lambda>_.
     bind (gets now) (\<lambda>ts.
     publish T_config_updated None
       [StrV ''min_refund_amount'', I128V old_value, I128V min_amount, AddrV admin, UintV ts])))))"

definition set_multisig_expiry_duration_dup :: "address \<Rightarrow> nat \<Rightarrow> ('w, unit) contract" where
  "set_multisig_expiry_duration_dup admin duration_secs =
     bind (require_admin admin) (\<lambda>_.
     bind (gets st_get_multisig_expiry_duration) (\<lambda>old_value.
     bind (modify (st_set_multisig_expiry_duration duration_secs)) (\<lambda>_.
     bind (gets now) (\<lambda>ts.
     publish T_config_updated None
       [StrV ''multisig_expiry_duration'', I128V (int old_value), I128V (int duration_secs),
        AddrV admin, UintV ts]))))"

section \<open>Emergency pause\<close>

definition pause_contract :: "address \<Rightarrow> ('w, unit) contract" where
  "pause_contract admin =
     bind (require_admin_rate_limited admin) (\<lambda>_.
     bind (modify (st_set_paused True)) (\<lambda>_.
     bind (append_audit PauseContract admin '''') (\<lambda>_.
     publish T_contract_paused None [])))"

definition unpause_contract :: "address \<Rightarrow> ('w, unit) contract" where
  "unpause_contract admin =
     bind (require_admin_rate_limited admin) (\<lambda>_.
     bind (gets st_get_unpause_lock_until) (\<lambda>lock.
     bind (gets now) (\<lambda>ts.
     bind (if_some lock (\<lambda>lock_until. guard (\<not> ts < lock_until) TimelockActive)) (\<lambda>_.
     bind (modify st_clear_unpause_lock_until) (\<lambda>_.
     bind (modify st_clear_pause_reason) (\<lambda>_.
     bind (modify st_clear_early_unpause_approvals) (\<lambda>_.
     bind (modify (st_set_paused False)) (\<lambda>_.
     bind (append_audit UnpauseContract admin '''') (\<lambda>_.
     publish T_contract_unpaused None [])))))))))"

definition pause_with_reason :: "address \<Rightarrow> string \<Rightarrow> ('w, unit) contract" where
  "pause_with_reason admin reason =
     bind (require_admin_rate_limited admin) (\<lambda>_.
     bind (require_non_empty_string reason) (\<lambda>_.
     bind (modify (st_set_paused True)) (\<lambda>_.
     bind (modify (st_set_pause_reason reason)) (\<lambda>_.
     bind (gets now) (\<lambda>ts.
     bind (u64_add ts PAUSE_TIMELOCK_SECS) (\<lambda>lock_until.
     bind (modify (st_set_unpause_lock_until lock_until)) (\<lambda>_.
     bind (modify st_clear_early_unpause_approvals) (\<lambda>_.
     publish T_contract_paused None [StrV reason, UintV lock_until]))))))))"

definition set_pause_guardians :: "address \<Rightarrow> address list \<Rightarrow> ('w, unit) contract" where
  "set_pause_guardians admin guardians =
     bind (require_admin_rate_limited admin) (\<lambda>_.
     bind (guard (length guardians = 5) InvalidInput) (\<lambda>_.
     modify (st_set_pause_guardians guardians)))"

text \<open>The two loops of \<open>approve_early_unpause\<close> search a list for the caller.\<close>

primrec contains_loop :: "address \<Rightarrow> address list \<Rightarrow> bool" where
  "contains_loop a [] = False"
| "contains_loop a (g # gs) = (if g = a then True else contains_loop a gs)"

definition approve_early_unpause :: "address \<Rightarrow> ('w, unit) contract" where
  "approve_early_unpause guardian =
     bind (require_auth guardian) (\<lambda>_.
     bind (gets st_get_pause_guardians) (\<lambda>guardians.
     bind (guard (contains_loop guardian guardians) NotAPauseGuardian) (\<lambda>_.
     bind (gets st_get_early_unpause_approvals) (\<lambda>approvals.
     bind (guard (\<not> contains_loop guardian approvals) AlreadyApprovedUnpause) (\<lambda>_.
     let approvals' = approvals @ [guardian] in
     bind (modify (st_set_early_unpause_approvals approvals')) (\<lambda>_.
     run_if (EARLY_UNPAUSE_THRESHOLD \<le> length approvals')
       (bind (modify (st_set_paused False)) (\<lambda>_.
        bind (modify st_clear_unpause_lock_until) (\<lambda>_.
        bind (modify st_clear_pause_reason) (\<lambda>_.
        bind (modify st_clear_early_unpause_approvals) (\<lambda>_.
        publish T_contract_unpaused None [StrV ''multisig_override'']))))))))))) "

lemma contains_loop_iff [simp]: "contains_loop a gs \<longleftrightarrow> a \<in> set gs"
  by (induction gs) auto

section \<open>Token and issuer allow-lists\<close>

definition add_allowed_token :: "address \<Rightarrow> address \<Rightarrow> address option \<Rightarrow> ('w, unit) contract" where
  "add_allowed_token admin tok issuer =
     bind (require_admin admin) (\<lambda>_.
     bind (if_some issuer (\<lambda>iss.
       bind (gets (st_is_issuer_allowed iss)) (\<lambda>ok. guard ok InvalidIssuer))) (\<lambda>_.
     bind (modify (st_set_token_allowed tok True)) (\<lambda>_.
     bind (append_audit AddAllowedToken admin '''') (\<lambda>_.
     publish T_token_allowed None [AddrV tok]))))"

definition remove_allowed_token :: "address \<Rightarrow> address \<Rightarrow> ('w, unit) contract" where
  "remove_allowed_token admin tok =
     bind (require_admin admin) (\<lambda>_.
     bind (modify (st_set_token_allowed tok False)) (\<lambda>_.
     bind (append_audit RemoveAllowedToken admin '''') (\<lambda>_.
     publish T_token_disallowed None [AddrV tok])))"

definition add_allowed_token_dup :: "address \<Rightarrow> address \<Rightarrow> ('w, unit) contract" where
  "add_allowed_token_dup admin tok =
     bind (require_admin admin) (\<lambda>_. modify (st_set_token_allowed tok True))"

definition remove_allowed_token_dup :: "address \<Rightarrow> address \<Rightarrow> ('w, unit) contract" where
  "remove_allowed_token_dup admin tok =
     bind (require_admin admin) (\<lambda>_. modify (st_set_token_allowed tok False))"

definition add_allowed_issuer :: "address \<Rightarrow> address \<Rightarrow> ('w, unit) contract" where
  "add_allowed_issuer admin issuer =
     bind (require_admin admin) (\<lambda>_.
     bind (modify (st_set_issuer_allowed issuer True)) (\<lambda>_.
     publish T_issuer_allowed None [AddrV issuer]))"

definition remove_allowed_issuer :: "address \<Rightarrow> address \<Rightarrow> ('w, unit) contract" where
  "remove_allowed_issuer admin issuer =
     bind (require_admin admin) (\<lambda>_.
     bind (modify (st_set_issuer_allowed issuer False)) (\<lambda>_.
     publish T_issuer_disallowed None [AddrV issuer]))"

section \<open>Frame\<close>

locale admin_frame = auth_frame + config_frame + audit_frame +
  assumes I_set_admin: "I s \<Longrightarrow> I (st_set_admin a s)"
begin

lemma pres_set_admin [pres]: "preserves I (modify (st_set_admin a))"
  by (rule preserves_modify) (rule I_set_admin)

lemma pres_admin_role [pres]:
  "preserves I (set_admin a)" "preserves I (transfer_admin h a b)"
  unfolding set_admin_def transfer_admin_def by (rule pres)+

lemma pres_admin_config [pres]:
  "preserves I (set_payment_cleanup_period a n)" "preserves I (set_platform_fee a n b)"
  "preserves I (set_large_payment_threshold a x)" "preserves I (set_multisig_expiry_duration a n)"
  "preserves I (set_max_signers a n)" "preserves I (set_refund_window a n)"
  "preserves I (set_min_refund_amount a x)" "preserves I (set_signature_expiry_window a n)"
  "preserves I (reset_auth_lockout a b)" "preserves I (set_rate_limit a n)"
  "preserves I (set_payment_rate_limit a n)" "preserves I (set_payment_rate_window a n)"
  "preserves I (set_refund_retention_period a n)" "preserves I (set_refund_window_dup a n)"
  "preserves I (set_min_refund_amount_dup a x)" "preserves I (set_multisig_expiry_duration_dup a n)"
  unfolding set_payment_cleanup_period_def set_platform_fee_def set_large_payment_threshold_def
    set_multisig_expiry_duration_def set_max_signers_def set_refund_window_def
    set_min_refund_amount_def set_signature_expiry_window_def reset_auth_lockout_def
    set_rate_limit_def set_payment_rate_limit_def set_payment_rate_window_def
    set_refund_retention_period_def set_refund_window_dup_def set_min_refund_amount_dup_def
    set_multisig_expiry_duration_dup_def
  by (rule pres preserves_modify | erule I_clear_auth_lockout)+

lemma pres_allow_lists [pres]:
  "preserves I (add_allowed_token a t i)" "preserves I (remove_allowed_token a t)"
  "preserves I (add_allowed_token_dup a t)" "preserves I (remove_allowed_token_dup a t)"
  "preserves I (add_allowed_issuer a j)" "preserves I (remove_allowed_issuer a j)"
  unfolding add_allowed_token_def remove_allowed_token_def add_allowed_token_dup_def
    remove_allowed_token_dup_def add_allowed_issuer_def remove_allowed_issuer_def
  by (rule pres)+

end

locale guard_frame = admin_frame + pause_frame
begin

lemma pres_pause [pres]:
  "preserves I (pause_contract a)" "preserves I (unpause_contract a)"
  "preserves I (pause_with_reason a r)" "preserves I (set_pause_guardians a gs)"
  "preserves I (approve_early_unpause g)"
  unfolding pause_contract_def unpause_contract_def pause_with_reason_def set_pause_guardians_def
    approve_early_unpause_def
  by (rule pres)+

end

section \<open>Calls\<close>

datatype (plugins only:) admin_call =
    SetAdminCall address | TransferAdminCall address address | SetPaymentCleanupPeriod address nat
    | SetPlatformFeeCall address nat address | SetLargePaymentThresholdCall address int
    | SetMultisigExpiry address nat | SetMaxSigners address nat | SetRefundWindowCall address nat
    | SetMinRefundAmountCall address int | SetSignatureExpiryWindow address nat
    | ResetAuthLockout address address | SetRateLimit address nat | SetPaymentRateLimit address nat
    | SetPaymentRateWindow address nat | SetRefundRetentionPeriod address nat
    | SetRefundWindowDup address nat | SetMinRefundAmountDup address int
    | SetMultisigExpiryDup address nat

primrec run_admin_call :: "'w host \<Rightarrow> admin_call \<Rightarrow> ('w, unit) contract" where
  "run_admin_call h (SetAdminCall x1) = set_admin x1"
| "run_admin_call h (TransferAdminCall x1 x2) = transfer_admin h x1 x2"
| "run_admin_call h (SetPaymentCleanupPeriod x1 x2) = set_payment_cleanup_period x1 x2"
| "run_admin_call h (SetPlatformFeeCall x1 x2 x3) = set_platform_fee x1 x2 x3"
| "run_admin_call h (SetLargePaymentThresholdCall x1 x2) = set_large_payment_threshold x1 x2"
| "run_admin_call h (SetMultisigExpiry x1 x2) = set_multisig_expiry_duration x1 x2"
| "run_admin_call h (SetMaxSigners x1 x2) = set_max_signers x1 x2"
| "run_admin_call h (SetRefundWindowCall x1 x2) = set_refund_window x1 x2"
| "run_admin_call h (SetMinRefundAmountCall x1 x2) = set_min_refund_amount x1 x2"
| "run_admin_call h (SetSignatureExpiryWindow x1 x2) = set_signature_expiry_window x1 x2"
| "run_admin_call h (ResetAuthLockout x1 x2) = reset_auth_lockout x1 x2"
| "run_admin_call h (SetRateLimit x1 x2) = set_rate_limit x1 x2"
| "run_admin_call h (SetPaymentRateLimit x1 x2) = set_payment_rate_limit x1 x2"
| "run_admin_call h (SetPaymentRateWindow x1 x2) = set_payment_rate_window x1 x2"
| "run_admin_call h (SetRefundRetentionPeriod x1 x2) = set_refund_retention_period x1 x2"
| "run_admin_call h (SetRefundWindowDup x1 x2) = set_refund_window_dup x1 x2"
| "run_admin_call h (SetMinRefundAmountDup x1 x2) = set_min_refund_amount_dup x1 x2"
| "run_admin_call h (SetMultisigExpiryDup x1 x2) = set_multisig_expiry_duration_dup x1 x2"

context admin_frame
begin

lemma pres_run_admin_call [pres]: "preserves I (run_admin_call h c)"
  by (cases c) (simp_all, (rule pres)+)

end

section \<open>Calls, continued\<close>

datatype (plugins only:) guard_call =
    PauseContractCall address | UnpauseContractCall address | PauseWithReason address string
    | SetPauseGuardiansCall address "address list" | ApproveEarlyUnpause address
    | AddAllowedTokenCall address address "address option" | RemoveAllowedTokenCall address address
    | AddAllowedTokenDup address address | RemoveAllowedTokenDup address address
    | AddAllowedIssuer address address | RemoveAllowedIssuer address address
    | GetAdminAuditLog address nat nat nat

primrec run_guard_call :: "'w host \<Rightarrow> guard_call \<Rightarrow> ('w, unit) contract" where
  "run_guard_call h (PauseContractCall x1) = pause_contract x1"
| "run_guard_call h (UnpauseContractCall x1) = unpause_contract x1"
| "run_guard_call h (PauseWithReason x1 x2) = pause_with_reason x1 x2"
| "run_guard_call h (SetPauseGuardiansCall x1 x2) = set_pause_guardians x1 x2"
| "run_guard_call h (ApproveEarlyUnpause x1) = approve_early_unpause x1"
| "run_guard_call h (AddAllowedTokenCall x1 x2 x3) = add_allowed_token x1 x2 x3"
| "run_guard_call h (RemoveAllowedTokenCall x1 x2) = remove_allowed_token x1 x2"
| "run_guard_call h (AddAllowedTokenDup x1 x2) = add_allowed_token_dup x1 x2"
| "run_guard_call h (RemoveAllowedTokenDup x1 x2) = remove_allowed_token_dup x1 x2"
| "run_guard_call h (AddAllowedIssuer x1 x2) = add_allowed_issuer x1 x2"
| "run_guard_call h (RemoveAllowedIssuer x1 x2) = remove_allowed_issuer x1 x2"
| "run_guard_call h (GetAdminAuditLog x1 x2 x3 x4) =
     bind (get_admin_audit_log x1 x2 x3 x4) (\<lambda>_. ret ())"

text \<open>The calls that write the pause, its timelock or its guardians.\<close>

primrec pause_call :: "guard_call \<Rightarrow> bool" where
  "pause_call (PauseContractCall x1) = True"
| "pause_call (UnpauseContractCall x1) = True"
| "pause_call (PauseWithReason x1 x2) = True"
| "pause_call (SetPauseGuardiansCall x1 x2) = True"
| "pause_call (ApproveEarlyUnpause x1) = True"
| "pause_call (AddAllowedTokenCall x1 x2 x3) = False"
| "pause_call (RemoveAllowedTokenCall x1 x2) = False"
| "pause_call (AddAllowedTokenDup x1 x2) = False"
| "pause_call (RemoveAllowedTokenDup x1 x2) = False"
| "pause_call (AddAllowedIssuer x1 x2) = False"
| "pause_call (RemoveAllowedIssuer x1 x2) = False"
| "pause_call (GetAdminAuditLog x1 x2 x3 x4) = False"

context admin_frame
begin

lemma pres_guard_call_but_pause: "\<not> pause_call c \<Longrightarrow> preserves I (run_guard_call h c)"
  by (cases c) (simp_all, (rule pres)+)

end

context guard_frame
begin

lemma pres_run_guard_call [pres]: "preserves I (run_guard_call h c)"
  by (cases c) (simp_all, (rule pres)+)

end

section \<open>The pause machine\<close>

text \<open>
  What a call does to the pause: whether the contract is paused, until when it may not
  be unpaused, the guardians' approvals, and the guardians.
\<close>

type_synonym pause_abs = "bool \<times> nat option \<times> address list \<times> address list"

definition pause_abs :: "'w env \<Rightarrow> pause_abs" where
  "pause_abs s = (st_get_paused s, st_get_unpause_lock_until s, st_get_early_unpause_approvals s,
     st_get_pause_guardians s)"

inductive pause_step :: "address option \<Rightarrow> nat \<Rightarrow> address set \<Rightarrow> pause_abs \<Rightarrow> pause_abs \<Rightarrow> bool"
  for admin ts sigs where
  keep: "pause_step admin ts sigs x x"
| pause: "admin = Some a \<Longrightarrow> a \<in> sigs \<Longrightarrow> pause_step admin ts sigs (p, lock, ap, gs) (True, lock, ap, gs)"
| lock: "admin = Some a \<Longrightarrow> a \<in> sigs \<Longrightarrow>
    pause_step admin ts sigs (p, lock, ap, gs) (True, Some (ts + PAUSE_TIMELOCK_SECS), [], gs)"
| unpause: "admin = Some a \<Longrightarrow> a \<in> sigs \<Longrightarrow> (\<And>l. lock = Some l \<Longrightarrow> l \<le> ts) \<Longrightarrow>
    pause_step admin ts sigs (p, lock, ap, gs) (False, None, [], gs)"
| elect: "admin = Some a \<Longrightarrow> a \<in> sigs \<Longrightarrow> length gs' = 5 \<Longrightarrow>
    pause_step admin ts sigs (p, lock, ap, gs) (p, lock, ap, gs')"
| vote: "g \<in> sigs \<Longrightarrow> g \<in> set gs \<Longrightarrow> g \<notin> set ap \<Longrightarrow> length ap + 1 < EARLY_UNPAUSE_THRESHOLD \<Longrightarrow>
    pause_step admin ts sigs (p, lock, ap, gs) (p, lock, ap @ [g], gs)"
| override: "g \<in> sigs \<Longrightarrow> g \<in> set gs \<Longrightarrow> g \<notin> set ap \<Longrightarrow> EARLY_UNPAUSE_THRESHOLD \<le> length ap + 1 \<Longrightarrow>
    pause_step admin ts sigs (p, lock, ap, gs) (False, None, [], gs)"

inductive_cases pause_stepE: "pause_step admin ts sigs x y"

definition pause_step_of :: "'w env \<Rightarrow> 'w env \<Rightarrow> bool" where
  "pause_step_of s t \<longleftrightarrow> pause_step (st_get_admin s) (now s) (auths s) (pause_abs s) (pause_abs t)"

lemma pause_step_same: "pause_instance (instance_st t) = pause_instance (instance_st s) \<Longrightarrow> pause_step_of s t"
proof -
  assume "pause_instance (instance_st t) = pause_instance (instance_st s)"
  then have "pause_abs t = pause_abs s"
    by (simp add: pause_instance_def pause_abs_def storage_defs)
  then show ?thesis by (simp add: pause_step_of_def keep)
qed

lemma append_audit_pause:
  assumes "append_audit act a p s = (Ok x, t)"
  shows "pause_abs t = pause_abs s"
proof -
  have "preserves (\<lambda>u. pause_abs u = pause_abs s) (append_audit act a p)"
    by (rule preserves_append_audit) (simp add: pause_abs_def storage_defs)
  from preservesD [OF this assms] show ?thesis by simp
qed

lemma pause_abs_writes [simp]:
  "pause_abs (s\<lparr>events := es\<rparr>) = pause_abs s"
  "pause_abs (st_clear_auth_fail_count a s) = pause_abs s"
  "pause_abs (st_set_paused b s) = (b, snd (pause_abs s))"
  "pause_abs (st_clear_pause_reason s) = pause_abs s"
  "pause_abs (st_set_pause_reason r s) = pause_abs s"
  by (simp_all add: pause_abs_def storage_defs)

lemma pause_contract_refines: "pause_contract a s = (Ok z, t) \<Longrightarrow> pause_step_of s t"
  by (clarsimp simp: pause_contract_def exec_simps simp del: append_audit_Ok_iff, drule append_audit_pause)
    (simp add: pause_step_of_def, cases "pause_abs s", auto intro: pause)

lemma unpause_contract_OkD:
  "unpause_contract a s = (Ok z, t) \<Longrightarrow>
   a \<in> auths s \<and> st_get_admin s = Some a \<and> (\<forall>l. st_get_unpause_lock_until s = Some l \<longrightarrow> l \<le> now s) \<and>
   pause_abs t = (False, None, [], st_get_pause_guardians s)"
  unfolding unpause_contract_def
  by (clarsimp simp: exec_simps if_some_guard_Ok_iff simp del: append_audit_Ok_iff if_some_Ok_iff,
      drule append_audit_pause)
    (auto simp: pause_abs_def storage_defs)

lemma unpause_contract_refines: "unpause_contract a s = (Ok z, t) \<Longrightarrow> pause_step_of s t"
  by (drule unpause_contract_OkD) (auto simp: pause_step_of_def pause_abs_def [of s] intro: unpause)

lemma pause_with_reason_refines: "pause_with_reason a r s = (Ok z, t) \<Longrightarrow> pause_step_of s t"
  by (clarsimp simp: pause_with_reason_def exec_simps)
    (simp add: pause_step_of_def pause_abs_def storage_defs, rule lock, auto)

lemma set_pause_guardians_refines: "set_pause_guardians a gs s = (Ok z, t) \<Longrightarrow> pause_step_of s t"
  by (clarsimp simp: set_pause_guardians_def exec_simps)
    (simp add: pause_step_of_def pause_abs_def storage_defs, rule elect, auto)

lemma approve_early_unpause_refines: "approve_early_unpause g s = (Ok z, t) \<Longrightarrow> pause_step_of s t"
  by (clarsimp simp: approve_early_unpause_def exec_simps Let_def run_if_def split: if_splits)
    (simp add: pause_step_of_def pause_abs_def storage_defs, (rule override | rule vote), auto)+

lemma pause_call_step: "pause_call c \<Longrightarrow> run_guard_call h c s = (Ok (), t) \<Longrightarrow> pause_step_of s t"
  by (cases c) (auto intro: pause_contract_refines unpause_contract_refines pause_with_reason_refines
      set_pause_guardians_refines approve_early_unpause_refines)

end
