(* ===== verification/Merchants.thy ===== *)
theory Merchants
  imports Admin
begin

text \<open>
  Merchant registration (in one step, or by commit and reveal), the merchant's own
  profile update, and the administrator's activation and verification switches.
\<close>

section \<open>Operations\<close>

definition commit_merchant_registration :: "address \<Rightarrow> bytes \<Rightarrow> ('w, unit) contract" where
  "commit_merchant_registration merchant_address commitment_hash =
     bind require_not_paused (\<lambda>_.
     bind (require_auth merchant_address) (\<lambda>_.
     bind (gets (st_get_merchant merchant_address)) (\<lambda>existing.
     bind (guard (existing = None) MerchantAlreadyRegistered) (\<lambda>_.
     bind (gets (st_get_merchant_commitment merchant_address)) (\<lambda>pending.
     bind (guard (pending = None) CommitmentAlreadyExists) (\<lambda>_.
     bind (gets seq_no) (\<lambda>sq.
     bind (modify (st_set_merchant_commitment
       \<lparr>mc_merchant_address = merchant_address, mc_commitment_hash = commitment_hash,
        mc_committed_at_ledger = sq\<rparr>)) (\<lambda>_.
     publish T_merchant_committed None [AddrV merchant_address]))))))))"

definition commitment_pre_image :: "'w host \<Rightarrow> address \<Rightarrow> string \<Rightarrow> bytes \<Rightarrow> bytes" where
  "commitment_pre_image h merchant_address name nonce =
     [] @ address_xdr h merchant_address @ string_xdr h name @ nonce"

definition reveal_merchant_registration ::
  "'w host \<Rightarrow> address \<Rightarrow> string \<Rightarrow> string \<Rightarrow> string \<Rightarrow> merchant_category \<Rightarrow> bytes \<Rightarrow>
   ('w, unit) contract" where
  "reveal_merchant_registration h merchant_address name description contact_info category nonce =
     bind require_not_paused (\<lambda>_.
     bind (require_auth merchant_address) (\<lambda>_.
     bind (require_non_empty_string name) (\<lambda>_.
     bind (validate_merchant_category category) (\<lambda>_.
     bind (gets (st_get_merchant merchant_address)) (\<lambda>existing.
     bind (guard (existing = None) MerchantAlreadyRegistered) (\<lambda>_.
     bind (require_some (st_get_merchant_commitment merchant_address) CommitmentNotFound) (\<lambda>commitment.
     bind (gets seq_no) (\<lambda>sq.
     let ledger_age = sat_sub sq (mc_committed_at_ledger commitment) in
     bind (if COMMITMENT_TTL_LEDGERS < ledger_age
           then bind (modify (st_remove_merchant_commitment merchant_address)) (\<lambda>_. fail CommitmentExpired)
           else ret ()) (\<lambda>_.
     let computed = sha256 h (commitment_pre_image h merchant_address name nonce) in
     bind (guard (computed = mc_commitment_hash commitment) CommitmentHashMismatch) (\<lambda>_.
     bind (modify (st_remove_merchant_commitment merchant_address)) (\<lambda>_.
     bind (gets now) (\<lambda>ts.
     bind (modify (st_set_merchant
       \<lparr>m_address = merchant_address, m_name = name, m_description = description,
        m_contact_info = contact_info, m_category = category, m_active = True,
        m_verified = False, m_registered_at = ts, m_total_received = 0, m_referral_count = 0\<rparr>)) (\<lambda>_.
     bind (modify (st_add_to_merchant_list merchant_address)) (\<lambda>_.
     bind (gets st_get_global_stats) (\<lambda>stats.
     bind (u32_add (gs_active_merchants stats) 1) (\<lambda>n.
     bind (modify (st_set_global_stats (stats\<lparr>gs_active_merchants := n\<rparr>))) (\<lambda>_.
     publish T_merchant_registered None [AddrV merchant_address])))))))))))))))))"

definition register_merchant ::
  "address \<Rightarrow> string \<Rightarrow> string \<Rightarrow> string \<Rightarrow> merchant_category \<Rightarrow> address option \<Rightarrow>
   ('w, unit) contract" where
  "register_merchant merchant_address name description contact_info category referral_id =
     bind require_not_paused (\<lambda>_.
     bind (require_auth merchant_address) (\<lambda>_.
     bind (require_non_empty_string name) (\<lambda>_.
     bind (validate_merchant_category category) (\<lambda>_.
     bind (gets (st_get_merchant merchant_address)) (\<lambda>existing.
     bind (guard (existing = None) MerchantAlreadyRegistered) (\<lambda>_.
     bind (if_some referral_id (\<lambda>ref_addr.
       bind (guard (ref_addr \<noteq> merchant_address) InvalidReferral) (\<lambda>_.
       bind (gets (st_get_merchant ref_addr)) (\<lambda>referrer.
       guard (referrer \<noteq> None) InvalidReferral)))) (\<lambda>_.
     bind (gets now) (\<lambda>ts.
     bind (modify (st_set_merchant
       \<lparr>m_address = merchant_address, m_name = name, m_description = description,
        m_contact_info = contact_info, m_category = category, m_active = True,
        m_verified = False, m_registered_at = ts, m_total_received = 0, m_referral_count = 0\<rparr>)) (\<lambda>_.
     bind (modify (st_add_to_merchant_list merchant_address)) (\<lambda>_.
     bind (gets st_get_global_stats) (\<lambda>stats.
     bind (u32_add (gs_active_merchants stats) 1) (\<lambda>n.
     bind (modify (st_set_global_stats (stats\<lparr>gs_active_merchants := n\<rparr>))) (\<lambda>_.
     bind (if_some referral_id (\<lambda>ref_addr.
       bind (require_some (st_get_merchant ref_addr) InvalidReferral) (\<lambda>referrer.
       bind (u32_add (m_referral_count referrer) 1) (\<lambda>c.
       bind (modify (st_set_merchant (referrer\<lparr>m_referral_count := c\<rparr>))) (\<lambda>_.
       publish T_merchant_referred None [AddrV merchant_address, AddrV ref_addr]))))) (\<lambda>_.
     publish T_merchant_registered None [AddrV merchant_address]))))))))))))))"

definition update_merchant ::
  "address \<Rightarrow> string \<Rightarrow> string \<Rightarrow> string \<Rightarrow> merchant_category \<Rightarrow> ('w, unit) contract" where
  "update_merchant merchant_address name description contact_info category =
     bind (require_auth merchant_address) (\<lambda>_.
     bind (require_non_empty_string name) (\<lambda>_.
     bind (validate_merchant_category category) (\<lambda>_.
     bind (require_some (st_get_merchant merchant_address) MerchantNotFound) (\<lambda>m.
     bind (guard (m_active m) MerchantInactive) (\<lambda>_.
     bind (modify (st_set_merchant
       (m\<lparr>m_name := name, m_description := description, m_contact_info := contact_info,
          m_category := category\<rparr>))) (\<lambda>_.
     publish T_merchant_updated None [AddrV merchant_address]))))))"

definition deactivate_merchant :: "address \<Rightarrow> address \<Rightarrow> ('w, unit) contract" where
  "deactivate_merchant admin merchant_address =
     bind require_not_paused (\<lambda>_.
     bind (require_admin_rate_limited admin) (\<lambda>_.
     bind (require_some (st_get_merchant merchant_address) MerchantNotFound) (\<lambda>m.
     bind (modify (st_set_merchant (m\<lparr>m_active := False\<rparr>))) (\<lambda>_.
     bind (gets st_get_global_stats) (\<lambda>stats.
     let stats' = (if 0 < gs_active_merchants stats
                   then stats\<lparr>gs_active_merchants := gs_active_merchants stats - 1\<rparr> else stats) in
     bind (modify (st_set_global_stats stats')) (\<lambda>_.
     publish T_merchant_deactivated None [AddrV merchant_address]))))))"

definition reactivate_merchant :: "address \<Rightarrow> address \<Rightarrow> ('w, unit) contract" where
  "reactivate_merchant admin merchant_address =
     bind require_not_paused (\<lambda>_.
     bind (require_admin_rate_limited admin) (\<lambda>_.
     bind (require_some (st_get_merchant merchant_address) MerchantNotFound) (\<lambda>m.
     bind (guard (\<not> m_active m) InvalidInput) (\<lambda>_.
     bind (modify (st_set_merchant (m\<lparr>m_active := True\<rparr>))) (\<lambda>_.
     bind (gets st_get_global_stats) (\<lambda>stats.
     bind (u32_add (gs_active_merchants stats) 1) (\<lambda>n.
     bind (modify (st_set_global_stats (stats\<lparr>gs_active_merchants := n\<rparr>))) (\<lambda>_.
     publish T_merchant_reactivated None [AddrV merchant_address]))))))))"

definition verify_merchant :: "address \<Rightarrow> address \<Rightarrow> ('w, unit) contract" where
  "verify_merchant admin merchant_address =
     bind (require_admin_rate_limited admin) (\<lambda>_.
     bind (require_some (st_get_merchant merchant_address) MerchantNotFound) (\<lambda>m.
     bind (modify (st_set_merchant (m\<lparr>m_verified := True\<rparr>))) (\<lambda>_.
     publish T_merchant_verified None [AddrV merchant_address])))"

definition unverify_merchant :: "address \<Rightarrow> address \<Rightarrow> ('w, unit) contract" where
  "unverify_merchant admin merchant_address =
     bind require_not_paused (\<lambda>_.
     bind (require_admin_rate_limited admin) (\<lambda>_.
     bind (require_some (st_get_merchant merchant_address) MerchantNotFound) (\<lambda>m.
     bind (modify (st_set_merchant (m\<lparr>m_verified := False\<rparr>))) (\<lambda>_.
     publish T_merchant_unverified None [AddrV merchant_address]))))"

definition get_merchant :: "address \<Rightarrow> ('w, merchant) contract" where
  "get_merchant merchant_address = require_some (st_get_merchant merchant_address) MerchantNotFound"

definition is_registered :: "address \<Rightarrow> ('w, bool) contract" where
  "is_registered merchant_address = gets (\<lambda>s. st_get_merchant merchant_address s \<noteq> None)"

section \<open>Frame\<close>

locale merchant_frame = auth_frame + stats_frame +
  assumes merchant_ok: "I s \<Longrightarrow> st_get_merchant a s = Some m \<Longrightarrow> ok a \<and> ok (m_address m)"
    and I_set_merchant: "I s \<Longrightarrow> ok (m_address m) \<Longrightarrow> I (st_set_merchant m s)"
    and I_add_merchant: "I s \<Longrightarrow> I (st_add_to_merchant_list a s)"
    and I_set_commitment: "I s \<Longrightarrow> I (st_set_merchant_commitment c s)"
    and I_remove_commitment: "I s \<Longrightarrow> I (st_remove_merchant_commitment a s)"
begin

lemma merchant_okD:
  "I s \<Longrightarrow> st_get_merchant a s = Some m \<Longrightarrow> ok a"
  "I s \<Longrightarrow> st_get_merchant a s = Some m \<Longrightarrow> ok (m_address m)"
  using merchant_ok by blast+

lemma pres_merchant_steps [pres]:
  "ok (m_address m) \<Longrightarrow> preserves I (modify (st_set_merchant m))"
  "preserves I (modify (st_add_to_merchant_list a))"
  "preserves I (modify (st_set_merchant_commitment c))"
  "preserves I (modify (st_remove_merchant_commitment a))"
  by (auto intro: preserves_modify I_set_merchant I_add_merchant I_set_commitment I_remove_commitment)

lemma pres_merchant_ops [pres]:
  "preserves I (commit_merchant_registration a c)"
  "preserves I (reveal_merchant_registration h a n d ci cat nc)"
  "preserves I (register_merchant a n d ci cat r)"
  "preserves I (update_merchant a n d ci cat)"
  "preserves I (deactivate_merchant ad a)" "preserves I (reactivate_merchant ad a)"
  "preserves I (verify_merchant ad a)" "preserves I (unverify_merchant ad a)"
  "preserves I (get_merchant a)" "preserves I (is_registered a)"
  unfolding commit_merchant_registration_def reveal_merchant_registration_def register_merchant_def
    update_merchant_def deactivate_merchant_def reactivate_merchant_def verify_merchant_def
    unverify_merchant_def get_merchant_def is_registered_def
  by (rule pres_know pres | assumption | erule (1) merchant_okD | simp (no_asm))+

end

section \<open>Calls\<close>

datatype (plugins only:) merchant_call =
    CommitMerchantRegistration address bytes
    | RevealMerchantRegistration address string string string merchant_category bytes
    | RegisterMerchant address string string string merchant_category "address option"
    | UpdateMerchant address string string string merchant_category
    | DeactivateMerchantCall address address | ReactivateMerchantCall address address
    | VerifyMerchantCall address address | UnverifyMerchantCall address address
    | GetMerchant address | IsRegistered address

primrec run_merchant_call :: "'w host \<Rightarrow> merchant_call \<Rightarrow> ('w, unit) contract" where
  "run_merchant_call h (CommitMerchantRegistration x1 x2) = commit_merchant_registration x1 x2"
| "run_merchant_call h (RevealMerchantRegistration x1 x2 x3 x4 x5 x6) =
     reveal_merchant_registration h x1 x2 x3 x4 x5 x6"
| "run_merchant_call h (RegisterMerchant x1 x2 x3 x4 x5 x6) = register_merchant x1 x2 x3 x4 x5 x6"
| "run_merchant_call h (UpdateMerchant x1 x2 x3 x4 x5) = update_merchant x1 x2 x3 x4 x5"
| "run_merchant_call h (DeactivateMerchantCall x1 x2) = deactivate_merchant x1 x2"
| "run_merchant_call h (ReactivateMerchantCall x1 x2) = reactivate_merchant x1 x2"
| "run_merchant_call h (VerifyMerchantCall x1 x2) = verify_merchant x1 x2"
| "run_merchant_call h (UnverifyMerchantCall x1 x2) = unverify_merchant x1 x2"
| "run_merchant_call h (GetMerchant x1) = bind (get_merchant x1) (\<lambda>_. ret ())"
| "run_merchant_call h (IsRegistered x1) = bind (is_registered x1) (\<lambda>_. ret ())"

context merchant_frame
begin

lemma pres_run_merchant_call [pres]: "preserves I (run_merchant_call h c)"
  by (cases c) (simp_all, (rule pres)+)

end

section \<open>Commit and reveal\<close>

text \<open>
  C25. Commit, then reveal: a commitment to the hash of the address, the name and a nonce
  can be revealed by its author within \<open>COMMITMENT_TTL_LEDGERS\<close> ledgers, while it is
  stored and the address is not registered otherwise; the reveal registers exactly the
  revealed profile as an active merchant, lists it, counts it and uses the commitment up.
\<close>

theorem commit_then_reveal:
  assumes "commit_merchant_registration a (sha256 h (commitment_pre_image h a name nonce)) s = (Ok (), t)"
    and kept: "st_get_merchant_commitment a u = st_get_merchant_commitment a t"
    and "\<not> st_get_paused u" and "a \<in> auths u" and "name \<noteq> []" and "category_ok cat"
    and "st_get_merchant a u = None" and "seq_no u \<le> seq_no s + COMMITMENT_TTL_LEDGERS"
    and "gs_active_merchants (st_get_global_stats u) < u32_max"
  shows "\<exists>v. reveal_merchant_registration h a name desc contact cat nonce u = (Ok (), v) \<and>
    st_get_merchant a v = Some
      \<lparr>m_address = a, m_name = name, m_description = desc, m_contact_info = contact, m_category = cat,
       m_active = True, m_verified = False, m_registered_at = now u, m_total_received = 0,
       m_referral_count = 0\<rparr> \<and>
    st_get_merchant_list v = st_get_merchant_list u @ [a] \<and>
    gs_active_merchants (st_get_global_stats v) = gs_active_merchants (st_get_global_stats u) + 1 \<and>
    st_get_merchant_commitment a v = None"
proof -
  have "st_get_merchant_commitment a t = Some \<lparr>mc_merchant_address = a,
      mc_commitment_hash = sha256 h (commitment_pre_image h a name nonce), mc_committed_at_ledger = seq_no s\<rparr>"
    using assms(1) by (clarsimp simp: commit_merchant_registration_def exec_simps) (simp add: storage_defs)
  with kept have c: "st_get_merchant_commitment a u = Some \<lparr>mc_merchant_address = a,
      mc_commitment_hash = sha256 h (commitment_pre_image h a name nonce), mc_committed_at_ledger = seq_no s\<rparr>"
    by simp
  show ?thesis
    using assms(3-) c unfolding reveal_merchant_registration_def
    by (simp add: exec_simps Let_def) (auto simp: storage_defs)
qed

definition commit_sample :: "(payment_error, unit) outcome \<times> book env" where
  "commit_sample = commit_merchant_registration (Addr 2)
     (sha256 sample_host (commitment_pre_image sample_host (Addr 2) ''bar'' [7])) (shop {Addr 2} 1000)"

lemma commit_sample_ok:
  "is_Ok (fst commit_sample) \<and> \<not> st_get_paused (snd commit_sample) \<and> Addr 2 \<in> auths (snd commit_sample) \<and>
   st_get_merchant (Addr 2) (snd commit_sample) = None \<and> seq_no (snd commit_sample) = seq_no (shop {Addr 2} 1000) \<and>
   gs_active_merchants (st_get_global_stats (snd commit_sample)) = 0"
  unfolding commit_sample_def commit_merchant_registration_def
  by (simp add: exec_comp storage_defs helper_defs reference_defs shop_defs const_defs)

theorem commit_then_reveal_witness:
  "\<exists>v. reveal_merchant_registration sample_host (Addr 2) ''bar'' '''' '''' Retail [7] (snd commit_sample) = (Ok (), v) \<and>
     st_get_merchant_list v = st_get_merchant_list (snd commit_sample) @ [Addr 2]"
proof -
  have ok: "is_Ok (fst commit_sample)" using commit_sample_ok by simp
  note run = trans [OF commit_sample_def [symmetric] is_Ok_unit [OF ok]]
  have "category_ok Retail" "''bar'' \<noteq> []" by (simp_all add: category_ok_def)
  from commit_then_reveal [OF run refl _ _ this(2,1), where desc = "''''" and contact = "''''"]
    commit_sample_ok show ?thesis by (auto simp: const_defs)
qed

end
