(* ===== verification/Payments.thy ===== *)
theory Payments
  imports Merchants
begin

text \<open>
  The one-off payment paths: by merchant signature and merchant nonce, by payer
  nonce, and in batches. Blocks that the source repeats in both single payment paths
  (the fee split, the statistics, the large-payment alert) are one definition each.
\<close>

definition MAX_BATCH_SIZE :: nat where [const_defs]: "MAX_BATCH_SIZE = 10"

definition MAX_SERIALIZED_PAYLOAD_BYTES :: nat where [const_defs]: "MAX_SERIALIZED_PAYLOAD_BYTES = 4096"

section \<open>Blocks shared by the single payment paths\<close>

definition platform_fee_for :: "int \<Rightarrow> nat \<Rightarrow> ('w, int) contract" where
  "platform_fee_for amount fee_bps =
     (if 0 < fee_bps then bind (i128_mul amount (int fee_bps)) (\<lambda>x. ret (rust_div x 10000))
      else ret 0)"

text \<open>
  Split the amount, transfer the merchant's part, then the fee when a recipient is
  set; returns the fee and the merchant's part.
\<close>

definition transfer_with_fee ::
  "'w host \<Rightarrow> address \<Rightarrow> address \<Rightarrow> address \<Rightarrow> int \<Rightarrow> ('w, int \<times> int) contract" where
  "transfer_with_fee h payer merchant_address token_address amount =
     bind (gets st_get_platform_fee_bps) (\<lambda>fee_bps.
     bind (platform_fee_for amount fee_bps) (\<lambda>platform_fee.
     bind (i128_sub amount platform_fee) (\<lambda>merchant_amount.
     bind (transfer h token_address payer merchant_address merchant_amount) (\<lambda>_.
     bind (run_if (0 < platform_fee)
       (bind (gets st_get_fee_recipient) (\<lambda>recipient.
        if_some recipient (\<lambda>r. transfer h token_address payer r platform_fee)))) (\<lambda>_.
     ret (platform_fee, merchant_amount))))))"

definition add_merchant_payment_stats :: "address \<Rightarrow> int \<Rightarrow> ('w, unit) contract" where
  "add_merchant_payment_stats merchant_address amount =
     bind (gets (st_get_merchant_stats merchant_address)) (\<lambda>st.
     bind (u32_add (mst_total_payments st) 1) (\<lambda>n.
     modify (st_set_merchant_stats merchant_address
       (st\<lparr>mst_total_payments := n,
           mst_total_volume := i128_sat_add (mst_total_volume st) amount\<rparr>))))"

definition add_global_payment_stats :: "int \<Rightarrow> ('w, unit) contract" where
  "add_global_payment_stats amount =
     bind (gets st_get_global_stats) (\<lambda>st.
     bind (u32_add (gs_total_payments st) 1) (\<lambda>n.
     modify (st_set_global_stats
       (st\<lparr>gs_total_payments := n,
           gs_total_volume := i128_sat_add (gs_total_volume st) amount\<rparr>))))"

definition flag_large_payment :: "address \<Rightarrow> int \<Rightarrow> ('w, unit) contract" where
  "flag_large_payment payer amount =
     bind (gets st_get_large_payment_threshold) (\<lambda>threshold.
     run_if (threshold \<le> amount)
       (publish T_suspicious_activity None [ReasonV LargePayment, AddrV payer, I128V amount]))"

section \<open>Payment by merchant signature\<close>

definition signature_payload ::
  "'w host \<Rightarrow> bytes \<Rightarrow> address \<Rightarrow> nat \<Rightarrow> string \<Rightarrow> int \<Rightarrow> nat \<Rightarrow> bytes" where
  "signature_payload h net contract_address nonce order_id amount ts =
     [] @ net @ address_xdr h contract_address @ be_bytes 8 (int nonce) @ string_xdr h order_id
     @ be_bytes 16 amount @ be_bytes 8 (int ts)"

text \<open>The window check and the count of \<open>process_payment_with_signature\<close>.\<close>

definition take_rate_limit_slot :: "address \<Rightarrow> ('w, unit) contract" where
  "take_rate_limit_slot merchant_address =
     bind (gets current_window_start) (\<lambda>window_start.
     bind (gets (st_get_rate_limit_counter merchant_address window_start)) (\<lambda>current_count.
     bind (gets st_get_rate_limit_per_window) (\<lambda>rate_limit.
     bind (guard (\<not> rate_limit \<le> current_count) RateLimitExceeded) (\<lambda>_.
     st_increment_rate_limit_counter merchant_address window_start))))"

definition process_payment_with_signature ::
  "'w host \<Rightarrow> address \<Rightarrow> string \<Rightarrow> address \<Rightarrow> address \<Rightarrow> int \<Rightarrow> string \<Rightarrow> string list option \<Rightarrow>
   nat \<Rightarrow> nat \<Rightarrow> bytes \<Rightarrow> bytes \<Rightarrow> ('w, unit) contract" where
  "process_payment_with_signature h payer order_id merchant_address token_address amount memo tags
       nonce ts signature merchant_public_key =
     bind require_not_paused (\<lambda>_.
     bind (require_auth payer) (\<lambda>_.
     bind (require_positive amount) (\<lambda>_.
     bind (require_valid_id order_id) (\<lambda>_.
     bind (validate_tags tags) (\<lambda>_.
     bind (require_valid_memo h memo) (\<lambda>_.
     bind (gets (st_is_token_allowed token_address)) (\<lambda>allowed.
     bind (guard allowed TokenNotAllowed) (\<lambda>_.
     bind (gets (st_get_payment order_id)) (\<lambda>existing.
     bind (guard (existing = None) PaymentAlreadyExists) (\<lambda>_.
     bind (require_some (st_get_merchant merchant_address) MerchantNotFound) (\<lambda>m.
     bind (guard (m_active m) MerchantInactive) (\<lambda>_.
     bind (gets (st_get_merchant_nonce merchant_address)) (\<lambda>current_nonce.
     let expected_nonce = u64_sat_add current_nonce 1 in
     bind (guard (nonce = expected_nonce) InvalidNonce) (\<lambda>_.
     bind (gets now) (\<lambda>ledger_now.
     bind (gets st_get_signature_expiry_window) (\<lambda>expiry_window.
     bind (guard (\<not> ts < sat_sub ledger_now expiry_window) SignatureExpired) (\<lambda>_.
     bind (gets (st_is_token_allowed token_address)) (\<lambda>still_allowed.
     bind (guard still_allowed TokenNotAllowed) (\<lambda>_.
     bind (gets (\<lambda>s. network_id (ledger s))) (\<lambda>net.
     bind (gets self) (\<lambda>contract_address.
     let payload = signature_payload h net contract_address nonce order_id amount ts in
     bind (verify_signature h merchant_public_key payload signature) (\<lambda>_.
     bind (modify (st_increment_merchant_nonce merchant_address)) (\<lambda>_.
     bind (take_rate_limit_slot merchant_address) (\<lambda>_.
     bind (transfer_with_fee h payer merchant_address token_address amount) (\<lambda>(platform_fee, merchant_amount).
     bind (modify (st_set_payment
       \<lparr>p_order_id = order_id, p_merchant_address = merchant_address, p_payer = payer,
        p_token = token_address, p_amount = amount, p_version = 0, p_status = PCompleted,
        p_paid_at = ledger_now, p_refunded_amount = 0, p_memo = memo, p_tags = tags,
        p_platform_fee = platform_fee\<rparr>)) (\<lambda>_.
     bind (st_add_merchant_payment_id merchant_address order_id) (\<lambda>_.
     bind (st_add_payer_payment_id payer order_id) (\<lambda>_.
     bind (i128_add (m_total_received m) merchant_amount) (\<lambda>total.
     bind (modify (st_set_merchant (m\<lparr>m_total_received := total\<rparr>))) (\<lambda>_.
     bind (add_merchant_payment_stats merchant_address amount) (\<lambda>_.
     bind (add_global_payment_stats amount) (\<lambda>_.
     bind (flag_large_payment payer amount) (\<lambda>_.
     publish T_payment_processed (Some merchant_address)
       [StrV order_id, AddrV payer, I128V amount])))))))))))))))))))))))))))))))))"

section \<open>Payment by payer nonce\<close>

definition process_payment_with_nonce ::
  "'w host \<Rightarrow> address \<Rightarrow> string \<Rightarrow> address \<Rightarrow> address \<Rightarrow> int \<Rightarrow> string \<Rightarrow> string list option \<Rightarrow>
   nat \<Rightarrow> ('w, unit) contract" where
  "process_payment_with_nonce h payer order_id merchant_address token_address amount memo tags nonce =
     bind require_not_paused (\<lambda>_.
     bind (require_auth payer) (\<lambda>_.
     bind (require_positive amount) (\<lambda>_.
     bind (require_valid_id order_id) (\<lambda>_.
     bind (validate_tags tags) (\<lambda>_.
     bind (require_valid_memo h memo) (\<lambda>_.
     bind (gets (st_get_nonce payer)) (\<lambda>expected.
     bind (guard (nonce = expected) InvalidNonce) (\<lambda>_.
     bind (gets (st_is_token_allowed token_address)) (\<lambda>allowed.
     bind (guard allowed TokenNotAllowed) (\<lambda>_.
     bind (gets (st_get_payment order_id)) (\<lambda>existing.
     bind (guard (existing = None) PaymentAlreadyExists) (\<lambda>_.
     bind (require_some (st_get_merchant merchant_address) MerchantNotFound) (\<lambda>m.
     bind (guard (m_active m) MerchantInactive) (\<lambda>_.
     bind (modify (st_increment_nonce payer)) (\<lambda>_.
     bind (transfer_with_fee h payer merchant_address token_address amount) (\<lambda>(platform_fee, merchant_amount).
     bind (gets now) (\<lambda>ledger_now.
     bind (modify (st_set_payment
       \<lparr>p_order_id = order_id, p_merchant_address = merchant_address, p_payer = payer,
        p_token = token_address, p_amount = amount, p_version = 0, p_status = PCompleted,
        p_paid_at = ledger_now, p_refunded_amount = 0, p_memo = memo, p_tags = tags,
        p_platform_fee = platform_fee\<rparr>)) (\<lambda>_.
     bind (st_add_merchant_payment_id merchant_address order_id) (\<lambda>_.
     bind (st_add_payer_payment_id payer order_id) (\<lambda>_.
     bind (i128_add (m_total_received m) amount) (\<lambda>total.
     bind (modify (st_set_merchant (m\<lparr>m_total_received := total\<rparr>))) (\<lambda>_.
     bind (add_merchant_payment_stats merchant_address amount) (\<lambda>_.
     bind (add_global_payment_stats amount) (\<lambda>_.
     bind (flag_large_payment payer amount) (\<lambda>_.
     publish T_payment_processed (Some merchant_address)
       [StrV order_id, AddrV payer, I128V amount])))))))))))))))))))))))))"

definition get_payer_nonce :: "address \<Rightarrow> ('w, nat) contract" where
  "get_payer_nonce payer = gets (st_get_nonce payer)"

definition get_merchant_nonce :: "address \<Rightarrow> ('w, nat) contract" where
  "get_merchant_nonce merchant_address = gets (st_get_merchant_nonce merchant_address)"

section \<open>Batch payment\<close>

definition batch_payload :: "'w host \<Rightarrow> bytes \<Rightarrow> address \<Rightarrow> batch_payment_item \<Rightarrow> bytes" where
  "batch_payload h net contract_address item =
     [] @ net @ address_xdr h contract_address @ string_xdr h (bi_order_id item)
     @ be_bytes 16 (bi_amount item)"

text \<open>Phase 1, one item; the accumulator is \<open>seen_ids\<close>.\<close>

definition validate_batch_item ::
  "'w host \<Rightarrow> string list \<Rightarrow> batch_payment_item \<Rightarrow> ('w, string list) contract" where
  "validate_batch_item h seen_ids item =
     bind (require_positive (bi_amount item)) (\<lambda>_.
     bind (require_valid_id (bi_order_id item)) (\<lambda>_.
     bind (validate_tags (bi_tags item)) (\<lambda>_.
     bind (for_each seen_ids (\<lambda>seen. guard (seen \<noteq> bi_order_id item) DuplicateOrderId)) (\<lambda>_.
     let seen_ids' = seen_ids @ [bi_order_id item] in
     bind (gets (st_is_token_allowed (bi_token_address item))) (\<lambda>allowed.
     bind (guard allowed TokenNotAllowed) (\<lambda>_.
     bind (gets (st_get_payment (bi_order_id item))) (\<lambda>existing.
     bind (guard (existing = None) PaymentAlreadyExists) (\<lambda>_.
     bind (require_some (st_get_merchant (bi_merchant_address item)) MerchantNotFound) (\<lambda>m.
     bind (guard (m_active m) MerchantInactive) (\<lambda>_.
     bind (take_rate_limit_slot (bi_merchant_address item)) (\<lambda>_.
     bind (gets (\<lambda>s. network_id (ledger s))) (\<lambda>net.
     bind (gets self) (\<lambda>contract_address.
     let payload = batch_payload h net contract_address item in
     bind (guard (\<not> MAX_SERIALIZED_PAYLOAD_BYTES < length payload) SerializedPayloadTooLarge) (\<lambda>_.
     bind (verify_signature h (bi_merchant_public_key item) payload (bi_signature item)) (\<lambda>_.
     ret seen_ids')))))))))))))))"

text \<open>Phase 2: sums per (token, merchant); the inner loop rebuilds the vector.\<close>

type_synonym group_list = "(address \<times> address \<times> int) list"

primrec group_loop ::
  "batch_payment_item \<Rightarrow> group_list \<Rightarrow> group_list \<Rightarrow> bool \<Rightarrow> ('w, group_list \<times> bool) contract" where
  "group_loop item [] updated found = ret (updated, found)"
| "group_loop item (g # gs) updated found =
     (case g of (tok, merch, tot) \<Rightarrow>
        if tok = bi_token_address item \<and> merch = bi_merchant_address item
        then bind (i128_add tot (bi_amount item)) (\<lambda>tot'.
               group_loop item gs (updated @ [(tok, merch, tot')]) True)
        else group_loop item gs (updated @ [(tok, merch, tot)]) found)"

definition add_item_to_groups :: "group_list \<Rightarrow> batch_payment_item \<Rightarrow> ('w, group_list) contract" where
  "add_item_to_groups groups item =
     bind (group_loop item groups [] False) (\<lambda>(updated, found).
     ret (if found then updated
          else updated @ [(bi_token_address item, bi_merchant_address item, bi_amount item)]))"

definition group_payments :: "batch_payment_item list \<Rightarrow> ('w, group_list) contract" where
  "group_payments payments = fold_each payments add_item_to_groups []"

text \<open>Phase 3.\<close>

definition transfer_groups :: "'w host \<Rightarrow> address \<Rightarrow> group_list \<Rightarrow> ('w, unit) contract" where
  "transfer_groups h payer groups =
     for_each groups (\<lambda>(tok, merch, grouped_total). transfer h tok payer merch grouped_total)"

text \<open>Phase 4, one item; the accumulator is \<open>global_stats\<close>.\<close>

definition record_batch_item ::
  "address \<Rightarrow> nat \<Rightarrow> global_stats \<Rightarrow> batch_payment_item \<Rightarrow> ('w, global_stats) contract" where
  "record_batch_item payer ledger_now gstats item =
     bind (modify (st_set_payment
       \<lparr>p_order_id = bi_order_id item, p_merchant_address = bi_merchant_address item, p_payer = payer,
        p_token = bi_token_address item, p_amount = bi_amount item, p_version = 0,
        p_status = PCompleted, p_paid_at = ledger_now, p_refunded_amount = 0,
        p_memo = bi_memo item, p_tags = bi_tags item, p_platform_fee = 0\<rparr>)) (\<lambda>_.
     bind (st_add_merchant_payment_id (bi_merchant_address item) (bi_order_id item)) (\<lambda>_.
     bind (st_add_payer_payment_id payer (bi_order_id item)) (\<lambda>_.
     bind (gets (st_get_merchant (bi_merchant_address item))) (\<lambda>found.
     bind (if_some found (\<lambda>m.
       bind (i128_add (m_total_received m) (bi_amount item)) (\<lambda>total.
       modify (st_set_merchant (m\<lparr>m_total_received := total\<rparr>))))) (\<lambda>_.
     bind (add_merchant_payment_stats (bi_merchant_address item) (bi_amount item)) (\<lambda>_.
     bind (u32_add (gs_total_payments gstats) 1) (\<lambda>n.
     ret (gstats\<lparr>gs_total_payments := n,
                 gs_total_volume := i128_sat_add (gs_total_volume gstats) (bi_amount item)\<rparr>))))))))"

definition batch_payment ::
  "'w host \<Rightarrow> address \<Rightarrow> batch_payment_item list \<Rightarrow> ('w, unit) contract" where
  "batch_payment h payer payments =
     bind require_not_paused (\<lambda>_.
     bind (require_auth payer) (\<lambda>_.
     bind (guard (\<not> MAX_BATCH_SIZE < length payments) BatchSizeExceeded) (\<lambda>_.
     bind (fold_each payments (validate_batch_item h) []) (\<lambda>_.
     bind (group_payments payments) (\<lambda>groups.
     bind (transfer_groups h payer groups) (\<lambda>_.
     bind (gets now) (\<lambda>ledger_now.
     bind (gets st_get_global_stats) (\<lambda>gstats.
     bind (fold_each payments (record_batch_item payer ledger_now) gstats) (\<lambda>gstats'.
     bind (modify (st_set_global_stats gstats')) (\<lambda>_.
     for_each payments (\<lambda>item. publish T_payment_processed (Some (bi_merchant_address item))
       [StrV (bi_order_id item), AddrV payer, I128V (bi_amount item)])))))))))))"

section \<open>Status updates and archiving\<close>

definition update_payment_status ::
  "address \<Rightarrow> string \<Rightarrow> int \<Rightarrow> nat option \<Rightarrow> ('w, unit) contract" where
  "update_payment_status caller order_id refunded_amount expected_version =
     bind require_not_paused (\<lambda>_.
     bind (require_some (st_get_payment order_id) PaymentNotFound) (\<lambda>p.
     bind (require_admin_or caller (p_merchant_address p)) (\<lambda>_.
     bind (if_some expected_version (\<lambda>ev. guard (p_version p = ev) VersionMismatch)) (\<lambda>_.
     let p' = p\<lparr>p_refunded_amount := refunded_amount,
                p_version := u32_sat_add (p_version p) 1,
                p_status := (if p_amount p \<le> refunded_amount then PFullyRefunded
                             else PPartiallyRefunded)\<rparr> in
     bind (modify (st_set_payment p')) (\<lambda>_.
     publish T_payment_status_updated None
       [StrV order_id, StatusV (p_status p'), I128V (p_refunded_amount p'), I128V (p_amount p)])))))"

definition archive_payment_record :: "address \<Rightarrow> string \<Rightarrow> ('w, unit) contract" where
  "archive_payment_record admin order_id =
     bind require_not_paused (\<lambda>_.
     bind (require_admin_rate_limited admin) (\<lambda>_.
     bind (gets (st_get_payment order_id)) (\<lambda>found.
     bind (guard (found \<noteq> None) PaymentNotFound) (\<lambda>_.
     bind (modify (st_remove_payment order_id)) (\<lambda>_.
     bind (publish T_payment_archived None [StrV order_id]) (\<lambda>_.
     publish T_admin_action None [StrV ''archive_payment_record'', AddrV admin, StrV order_id]))))))"

text \<open>
  The loop of \<open>cleanup_expired_payments\<close> with its guards; it returns the number of
  payments removed. What follows the loop in the source refers to variables that are
  not declared (\<open>removed\<close>) and to a type that does not exist (\<open>CleanupResult\<close>).
\<close>

definition cleanup_one_payment :: "nat \<Rightarrow> nat \<Rightarrow> string \<Rightarrow> ('w, nat) contract" where
  "cleanup_one_payment cutoff cleaned i =
     bind (gets (st_get_payment i)) (\<lambda>found.
     case found of
       None \<Rightarrow> ret cleaned
     | Some p \<Rightarrow>
         if p_paid_at p < cutoff
         then bind (gets (st_get_order_refund_ids i)) (\<lambda>refund_ids.
              bind (for_each refund_ids (\<lambda>rid. modify (st_remove_refund rid))) (\<lambda>_.
              bind (modify (st_remove_order_refund_index i)) (\<lambda>_.
              bind (modify (st_remove_payment i)) (\<lambda>_.
              u32_add cleaned 1))))
         else ret cleaned)"

definition cleanup_expired_payments_loop :: "address \<Rightarrow> ('w, nat) contract" where
  "cleanup_expired_payments_loop admin =
     bind require_not_paused (\<lambda>_.
     bind (require_admin_rate_limited admin) (\<lambda>_.
     bind (gets (\<lambda>s. sat_sub (now s) (st_get_cleanup_period s))) (\<lambda>cutoff.
     bind (gets st_get_merchant_list) (\<lambda>merchant_list.
     fold_each merchant_list (\<lambda>cleaned merchant_addr.
       bind (gets (st_get_merchant_payment_ids merchant_addr)) (\<lambda>ids.
       fold_each ids (cleanup_one_payment cutoff) cleaned)) 0))))"

section \<open>Frame\<close>

lemma preserves_group_payments [pres]: "preserves I (group_payments items)"
proof -
  have "preserves I (group_loop item gs acc found)" for item gs acc found
    by (induction gs arbitrary: acc found) (auto intro!: pres)
  then show ?thesis
    unfolding group_payments_def add_item_to_groups_def by (intro pres)
qed

locale payment_frame = merchant_frame + token_frame +
  assumes payment_ok: "I s \<Longrightarrow> st_get_payment k s = Some p \<Longrightarrow> ok (p_merchant_address p)"
    and I_set_payment: "I s \<Longrightarrow> ok (p_merchant_address p) \<Longrightarrow> I (st_set_payment p s)"
    and I_remove_payment: "I s \<Longrightarrow> I (st_remove_payment k s)"
    and I_merchant_ids: "preserves I (st_add_merchant_payment_id a k)"
    and I_payer_ids: "preserves I (st_add_payer_payment_id a k)"
    and I_nonce: "I s \<Longrightarrow> I (st_increment_nonce a s)"
    and I_merchant_nonce: "I s \<Longrightarrow> I (st_increment_merchant_nonce a s)"
    and I_rate_counter: "I s \<Longrightarrow> I (upd_temporary (\<lambda>t. t\<lparr>t_RateLimitCounter := c\<rparr>) s)"
begin

lemma pres_payment_steps [pres]:
  "ok (p_merchant_address p) \<Longrightarrow> preserves I (modify (st_set_payment p))"
  "preserves I (modify (st_remove_payment k))" "preserves I (modify (st_increment_nonce a))"
  "preserves I (modify (st_increment_merchant_nonce a))"
  by (auto intro: preserves_modify I_set_payment I_remove_payment I_nonce I_merchant_nonce)

lemma pres_rate_limit [pres]: "preserves I (take_rate_limit_slot a)"
  unfolding take_rate_limit_slot_def st_increment_rate_limit_counter_def
  by (rule pres preserves_modify I_extend_ttl | simp add: upd_temporary_def [symmetric])+
     (frule I_rate_counter, simp add: upd_temporary_def)

lemmas pres_payment_ids [pres] = I_merchant_ids I_payer_ids

lemma pres_payment_blocks [pres]:
  "preserves I (platform_fee_for n b)" "ok a \<Longrightarrow> preserves I (transfer_with_fee h a m t n)"
  "preserves I (add_merchant_payment_stats m n)" "preserves I (add_global_payment_stats n)"
  "preserves I (flag_large_payment a n)"
  unfolding platform_fee_for_def transfer_with_fee_def add_merchant_payment_stats_def
    add_global_payment_stats_def flag_large_payment_def
  by (rule pres | assumption)+

lemma pres_payment_with_signature [pres]:
  "preserves I (process_payment_with_signature h a k m t n memo tags nc ts sg pk)"
  unfolding process_payment_with_signature_def
  by (rule pres_know pres | assumption | erule (1) merchant_okD | simp (no_asm))+

lemma pres_payment_with_nonce [pres]:
  "preserves I (process_payment_with_nonce h a k m t n memo tags nc)"
  unfolding process_payment_with_nonce_def
  by (rule pres_know pres | assumption | erule (1) merchant_okD | simp (no_asm))+

lemma pres_nonce_queries [pres]:
  "preserves I (get_payer_nonce a)" "preserves I (get_merchant_nonce a)"
  unfolding get_payer_nonce_def get_merchant_nonce_def by (rule pres)+

lemma I_validate_batch_item:
  assumes "validate_batch_item h seen item s = (Ok r, t)" "I s"
  shows "I t \<and> ok (bi_merchant_address item)"
proof -
  have "preserves I (validate_batch_item h seen item)"
    unfolding validate_batch_item_def by (rule pres)+
  moreover have "ok (bi_merchant_address item)"
    using assms merchant_ok
    unfolding validate_batch_item_def by (auto simp: exec_simps Let_def for_each_guard_Ok_iff)
  ultimately show ?thesis using assms by (auto simp: preserves_def)
qed

lemma I_validate_batch:
  "fold_each items (validate_batch_item h) seen s = (Ok r, t) \<Longrightarrow> I s \<Longrightarrow>
   I t \<and> (\<forall>item \<in> set items. ok (bi_merchant_address item))"
  by (induction items arbitrary: seen s) (auto simp: exec_simps dest!: I_validate_batch_item)

lemma pres_bind_validate_batch [pres_know]:
  assumes "\<And>r. \<forall>item \<in> set items. ok (bi_merchant_address item) \<Longrightarrow> preserves I (k r)"
  shows "preserves I (bind (fold_each items (validate_batch_item h) seen) k)"
proof (rule preservesI)
  fix s x t
  assume "bind (fold_each items (validate_batch_item h) seen) k s = (Ok x, t)" and "I s"
  then obtain r u where "fold_each items (validate_batch_item h) seen s = (Ok r, u)"
    and step: "k r u = (Ok x, t)"
    by (auto simp: bind_Ok_iff)
  from I_validate_batch [OF this(1) \<open>I s\<close>] have "I u" and "preserves I (k r)"
    using assms by auto
  with step show "I t" by (blast dest: preservesD)
qed

lemma pres_fold_each_mem:
  "(\<And>acc x. x \<in> set xs \<Longrightarrow> preserves I (body acc x)) \<Longrightarrow> preserves I (fold_each xs body acc)"
  by (induction xs arbitrary: acc) (auto intro!: preserves_bind preserves_pure)

lemma pres_record_batch_item [pres]:
  "ok (bi_merchant_address item) \<Longrightarrow> preserves I (record_batch_item a ts g item)"
  unfolding record_batch_item_def
  by (rule pres_know pres | simp add: merchant_ok)+

lemma pres_batch_payment [pres]: "preserves I (batch_payment h a items)"
  unfolding batch_payment_def transfer_groups_def
  by (rule pres_know pres_fold_each_mem pres | assumption | erule (1) bspec)+

lemma pres_payment_status [pres]:
  "preserves I (update_payment_status a k n v)" "preserves I (archive_payment_record a k)"
  unfolding update_payment_status_def archive_payment_record_def
  by (rule pres_know pres | erule (1) payment_ok | simp (no_asm))+

end

text \<open>Only the retention cleanup of payments also removes refunds.\<close>

locale cleanup_frame = payment_frame +
  assumes I_remove_refund: "I s \<Longrightarrow> I (st_remove_refund k s)"
    and I_remove_refund_index: "I s \<Longrightarrow> I (st_remove_order_refund_index k s)"
begin

lemma pres_remove_refunds [pres]:
  "preserves I (modify (st_remove_refund k))" "preserves I (modify (st_remove_order_refund_index k))"
  by (auto intro: preserves_modify I_remove_refund I_remove_refund_index)

lemma pres_cleanup_payments [pres]: "preserves I (cleanup_expired_payments_loop a)"
  unfolding cleanup_expired_payments_loop_def cleanup_one_payment_def
  by (rule pres_know pres | erule (1) payment_ok | simp (no_asm))+

end

section \<open>Calls\<close>

datatype (plugins only:) payment_call =

    ProcessPaymentWithSignature address string address address int string "string list option" nat nat bytes bytes
    | ProcessPaymentWithNonce address string address address int string "string list option" nat
    | GetPayerNonce address | GetMerchantNonce address
    | BatchPayment address "batch_payment_item list"
    | UpdatePaymentStatus address string int "nat option" | ArchivePaymentRecordCall address string
    | CleanupExpiredPaymentsCall address

primrec run_payment_call :: "'w host \<Rightarrow> payment_call \<Rightarrow> ('w, unit) contract" where
  "run_payment_call h (ProcessPaymentWithSignature x1 x2 x3 x4 x5 x6 x7 x8 x9 x10 x11) =
     process_payment_with_signature h x1 x2 x3 x4 x5 x6 x7 x8 x9 x10 x11"
| "run_payment_call h (ProcessPaymentWithNonce x1 x2 x3 x4 x5 x6 x7 x8) =
     process_payment_with_nonce h x1 x2 x3 x4 x5 x6 x7 x8"
| "run_payment_call h (GetPayerNonce x1) = bind (get_payer_nonce x1) (\<lambda>_. ret ())"
| "run_payment_call h (GetMerchantNonce x1) = bind (get_merchant_nonce x1) (\<lambda>_. ret ())"
| "run_payment_call h (BatchPayment x1 x2) = batch_payment h x1 x2"
| "run_payment_call h (UpdatePaymentStatus x1 x2 x3 x4) = update_payment_status x1 x2 x3 x4"
| "run_payment_call h (ArchivePaymentRecordCall x1 x2) = archive_payment_record x1 x2"
| "run_payment_call h (CleanupExpiredPaymentsCall x1) =
     bind (cleanup_expired_payments_loop x1) (\<lambda>_. ret ())"

context payment_frame
begin

lemma pres_payment_call_but_cleanup:
  "\<forall>a. c \<noteq> CleanupExpiredPaymentsCall a \<Longrightarrow> preserves I (run_payment_call h c)"
  by (cases c) (simp_all, (rule pres)+)

end

context cleanup_frame
begin

lemma pres_run_payment_call [pres]: "preserves I (run_payment_call h c)"
  by (cases c) (simp_all, (rule pres)+)

end

section \<open>What a payment that returned has done\<close>

text \<open>
  The blocks, up to the events and the lifetime extensions they add.
\<close>

lemma add_merchant_payment_id_OkD:
  assumes "st_add_merchant_payment_id a k s = (Ok z, t)"
  shows "length (st_get_merchant_payment_ids a s) < MAX_PAYMENT_IDS_PER_ACCOUNT"
    "persistent_st t = (persistent_st s)\<lparr>k_MP :=
       (k_MP (persistent_st s))(a := Some (st_get_merchant_payment_ids a s @ [k]))\<rparr>"
    "instance_st t = instance_st s" "temporary_st t = temporary_st s" "ledger t = ledger s"
    "self t = self s" "auths t = auths s" "world t = world s"
  using assms
  by (auto simp: st_add_merchant_payment_id_def exec_simps Let_def extend_ttl_def upd_persistent_def
      split: if_splits)

lemma add_payer_payment_id_OkD:
  assumes "st_add_payer_payment_id a k s = (Ok z, t)"
  shows "length (st_get_payer_payment_ids a s) < MAX_PAYMENT_IDS_PER_ACCOUNT"
    "persistent_st t = (persistent_st s)\<lparr>k_PP :=
       (k_PP (persistent_st s))(a := Some (st_get_payer_payment_ids a s @ [k]))\<rparr>"
    "instance_st t = instance_st s" "temporary_st t = temporary_st s" "ledger t = ledger s"
    "self t = self s" "auths t = auths s" "world t = world s"
  using assms
  by (auto simp: st_add_payer_payment_id_def exec_simps Let_def extend_ttl_def upd_persistent_def
      split: if_splits)

lemma preserves_add_payment_id:
  assumes "\<And>s m es hc. I s \<Longrightarrow>
      I (s\<lparr>persistent_st := (persistent_st s)\<lparr>k_MP := m\<rparr>, events := es, host_calls := hc\<rparr>)"
    and "\<And>s m es hc. I s \<Longrightarrow>
      I (s\<lparr>persistent_st := (persistent_st s)\<lparr>k_PP := m\<rparr>, events := es, host_calls := hc\<rparr>)"
  shows "preserves I (st_add_merchant_payment_id a k)" "preserves I (st_add_payer_payment_id a k)"
proof -
  have "t = s\<lparr>persistent_st := (persistent_st s)\<lparr>k_MP := k_MP (persistent_st t)\<rparr>,
      events := events t, host_calls := host_calls t\<rparr>"
    if "st_add_merchant_payment_id a k s = (Ok x, t)" for s x and t :: "'a env"
    using add_merchant_payment_id_OkD [OF that] by (cases s; cases t) simp
  then show "preserves I (st_add_merchant_payment_id a k)"
    using assms(1) unfolding preserves_def by metis
  have "t = s\<lparr>persistent_st := (persistent_st s)\<lparr>k_PP := k_PP (persistent_st t)\<rparr>,
      events := events t, host_calls := host_calls t\<rparr>"
    if "st_add_payer_payment_id a k s = (Ok x, t)" for s x and t :: "'a env"
    using add_payer_payment_id_OkD [OF that] by (cases s; cases t) simp
  then show "preserves I (st_add_payer_payment_id a k)"
    using assms(2) unfolding preserves_def by metis
qed

lemma platform_fee_for_Ok_iff [exec_simps]:
  "platform_fee_for n b s = (Ok fee, t) \<longleftrightarrow>
     (if 0 < b then in_i128 (n * int b) \<and> fee = rust_div (n * int b) 10000 else fee = 0) \<and> t = s"
  by (auto simp: platform_fee_for_def exec_simps)

lemma transfer_with_fee_world:
  assumes "transfer_with_fee h payer merch tok n s = (Ok r, t)"
  shows "t = s\<lparr>world := world t\<rparr>"
proof -
  have "preserves (\<lambda>u. u\<lparr>world := world s\<rparr> = s) (transfer_with_fee h payer merch tok n)"
    unfolding transfer_with_fee_def platform_fee_for_def by (rule pres preserves_token | simp (no_asm_simp))+
  from preservesD [OF this assms] have "s = t\<lparr>world := world s\<rparr>" by simp
  from arg_cong [OF this, of "\<lambda>x. x\<lparr>world := world t\<rparr>"] show ?thesis by simp
qed

lemma transfer_with_fee_amounts:
  assumes "transfer_with_fee h payer merch tok n s = (Ok (fee, net), t)"
  shows "net = n - fee"
    and "fee = (if st_get_platform_fee_bps s = 0 then 0
                else rust_div (n * int (st_get_platform_fee_bps s)) 10000)"
proof -
  from assms obtain u where "platform_fee_for n (st_get_platform_fee_bps s) s = (Ok fee, u)"
    and "net = n - fee"
    by (auto simp: transfer_with_fee_def bind_Ok_iff basic_Ok_iff arith_Ok_iff)
  then show "net = n - fee" and "fee = (if st_get_platform_fee_bps s = 0 then 0
      else rust_div (n * int (st_get_platform_fee_bps s)) 10000)"
    by (simp_all add: platform_fee_for_Ok_iff split: if_splits)
qed

lemma transfer_with_fee_tokens:
  assumes "transfer_with_fee h payer merch tok n s = (Ok (fee, net), t)"
  shows "\<exists>w. token_transfer h tok payer merch net (world s) = Some w \<and>
       (case st_get_fee_recipient s of
          Some r \<Rightarrow> if 0 < fee then token_transfer h tok payer r fee w = Some (world t)
                   else world t = w
        | None \<Rightarrow> world t = w)"
  using assms unfolding transfer_with_fee_def
  apply (simp add: exec_simps)
  apply (elim exE conjE)
  apply (cases "0 < fee"; cases "st_get_fee_recipient s")
     apply (simp_all add: exec_simps st_get_fee_recipient_def)
     apply (auto split: if_splits)
  done

lemma add_merchant_payment_stats_OkD:
  assumes "add_merchant_payment_stats m n s = (Ok z, t)"
  shows "mst_total_payments (st_get_merchant_stats m s) + 1 \<le> u32_max"
    "t = st_set_merchant_stats m ((st_get_merchant_stats m s)
       \<lparr>mst_total_payments := mst_total_payments (st_get_merchant_stats m s) + 1,
        mst_total_volume := i128_sat_add (mst_total_volume (st_get_merchant_stats m s)) n\<rparr>) s"
  using assms by (auto simp: add_merchant_payment_stats_def exec_simps)

lemma add_global_payment_stats_OkD:
  assumes "add_global_payment_stats n s = (Ok z, t)"
  shows "gs_total_payments (st_get_global_stats s) + 1 \<le> u32_max"
    "t = st_set_global_stats ((st_get_global_stats s)
       \<lparr>gs_total_payments := gs_total_payments (st_get_global_stats s) + 1,
        gs_total_volume := i128_sat_add (gs_total_volume (st_get_global_stats s)) n\<rparr>) s"
  using assms by (auto simp: add_global_payment_stats_def exec_simps)

lemma flag_large_payment_OkD:
  assumes "flag_large_payment a n s = (Ok z, t)"
  shows "persistent_st t = persistent_st s" "instance_st t = instance_st s"
    "temporary_st t = temporary_st s" "ledger t = ledger s" "self t = self s" "auths t = auths s"
    "world t = world s"
  using assms by (auto simp: flag_large_payment_def exec_simps split: if_splits)

lemma transfer_with_fee_OkD:
  assumes "transfer_with_fee h payer merch tok n s = (Ok r, t)"
  shows "persistent_st t = persistent_st s" "instance_st t = instance_st s"
    "temporary_st t = temporary_st s" "ledger t = ledger s" "self t = self s" "auths t = auths s"
  using arg_cong [OF transfer_with_fee_world [OF assms], of persistent_st]
    arg_cong [OF transfer_with_fee_world [OF assms], of instance_st]
    arg_cong [OF transfer_with_fee_world [OF assms], of temporary_st]
    arg_cong [OF transfer_with_fee_world [OF assms], of ledger]
    arg_cong [OF transfer_with_fee_world [OF assms], of self]
    arg_cong [OF transfer_with_fee_world [OF assms], of auths]
  by simp_all

lemma take_rate_limit_slot_Ok_iff:
  "take_rate_limit_slot m s = (Ok z, t) \<longleftrightarrow>
     (let w = current_window_start s; c = st_get_rate_limit_counter m w s in
      c < st_get_rate_limit_per_window s \<and> c + 1 \<le> u32_max \<and>
      t = extend_ttl (K_RateLimitCounter m w) RATE_LIMIT_TTL_LEDGERS RATE_LIMIT_TTL_LEDGERS
        (upd_temporary (\<lambda>t. t\<lparr>t_RateLimitCounter := (t_RateLimitCounter t)
           (m := (t_RateLimitCounter t m)(w := Some (c + 1)))\<rparr>) s))"
  by (auto simp: take_rate_limit_slot_def st_increment_rate_limit_counter_def exec_simps Let_def)

lemmas payment_step_OkD =
  transfer_with_fee_OkD add_merchant_payment_id_OkD add_payer_payment_id_OkD
  add_merchant_payment_stats_OkD add_global_payment_stats_OkD flag_large_payment_OkD

section \<open>Properties of the single payments\<close>


text \<open>
  A payment by payer nonce that returned. It differs from the signed path in one
  more respect than the credential: the merchant's running total grows by the gross
  amount although the merchant received the amount less the fee.
\<close>

theorem process_payment_with_nonce_effect:
  assumes "process_payment_with_nonce h payer k merch tok n memo tags nc s = (Ok (), t)"
  shows "\<exists>m fee.
     payer \<in> auths s \<and> 0 < n \<and> st_is_token_allowed tok s \<and> st_get_payment k s = None \<and>
     st_get_merchant merch s = Some m \<and> m_active m \<and> nc = st_get_nonce payer s \<and>
     fee = (if st_get_platform_fee_bps s = 0 then 0
            else rust_div (n * int (st_get_platform_fee_bps s)) 10000) \<and>
     (\<forall>i. st_get_payment i t = (if i = k then Some
       \<lparr>p_order_id = k, p_merchant_address = merch, p_payer = payer,
        p_token = tok, p_amount = n, p_version = 0, p_status = PCompleted,
        p_paid_at = now s, p_refunded_amount = 0, p_memo = memo, p_tags = tags,
        p_platform_fee = fee\<rparr> else st_get_payment i s)) \<and>
     st_get_merchant (m_address m) t = Some (m\<lparr>m_total_received := m_total_received m + n\<rparr>) \<and>
     st_get_nonce payer t = u64_sat_add nc 1 \<and>
     st_get_merchant_payment_ids merch t = st_get_merchant_payment_ids merch s @ [k] \<and>
     st_get_payer_payment_ids payer t = st_get_payer_payment_ids payer s @ [k]"
  using assms
  unfolding process_payment_with_nonce_def
  apply (simp add: exec_simps Let_def split_beta)
  apply (elim exE conjE)
  apply (frule transfer_with_fee_OkD(1), frule transfer_with_fee_OkD(2), frule transfer_with_fee_OkD(4))
  apply (drule transfer_with_fee_amounts(2))
  apply (frule add_merchant_payment_id_OkD(2), drule add_merchant_payment_id_OkD(3))
  apply (frule add_payer_payment_id_OkD(2), drule add_payer_payment_id_OkD(3))
  apply (drule add_merchant_payment_stats_OkD(2), drule add_global_payment_stats_OkD(2))
  apply (drule flag_large_payment_OkD(1))
  apply (simp add: storage_defs)
  done

text \<open>
  C34. The split of a payment conserves the amount: with a fee of at most 10000 basis
  points the fee is the rounded-down share of the amount, the merchant gets the rest,
  and the payer is debited once for each part (once only, and so less than the amount,
  when no fee recipient is set).
\<close>

theorem transfer_with_fee_conserves:
  assumes run: "transfer_with_fee h payer merch tok n s = (Ok (fee, net), t)"
    and n: "0 < n" and bps: "st_get_platform_fee_bps s \<le> MAX_PLATFORM_FEE_BPS"
  shows "fee + net = n \<and> 0 \<le> fee \<and> 0 \<le> net \<and>
    fee = n * int (st_get_platform_fee_bps s) div 10000 \<and>
    (\<exists>w. token_transfer h tok payer merch net (world s) = Some w \<and>
       (case st_get_fee_recipient s of
          Some r \<Rightarrow> if 0 < fee then token_transfer h tok payer r fee w = Some (world t)
                   else world t = w
        | None \<Rightarrow> world t = w))"
proof -
  let ?b = "int (st_get_platform_fee_bps s)"
  have "0 \<le> n * ?b" "n * ?b \<le> n * 10000"
    using n bps by (simp_all add: const_defs)
  then have fee: "fee = n * ?b div 10000" and le: "0 \<le> fee" "fee \<le> n"
    using transfer_with_fee_amounts(2) [OF run] by (auto simp: rust_div_nonneg)
  with le transfer_with_fee_tokens [OF run] transfer_with_fee_amounts(1) [OF run] show ?thesis by auto
qed

lemmas payment_block_defs =
  transfer_with_fee_def platform_fee_for_def take_rate_limit_slot_def
  st_increment_rate_limit_counter_def st_add_merchant_payment_id_def st_add_payer_payment_id_def
  add_merchant_payment_stats_def add_global_payment_stats_def flag_large_payment_def

text \<open>Both payment paths and a split, on the sample shop with a fee of 250 basis points.\<close>

definition signed_sample :: "(payment_error, unit) outcome \<times> book env" where
  "signed_sample = process_payment_with_signature sample_host (Addr 2) ''o1'' (Addr 1) (Addr 9) 1000
     '''' None 1 900 (replicate 64 3) (replicate 32 3) (shop {Addr 2} 1000)"

definition nonce_sample :: "(payment_error, unit) outcome \<times> book env" where
  "nonce_sample = process_payment_with_nonce sample_host (Addr 2) ''o1'' (Addr 1) (Addr 9) 1000
     '''' None 0 (shop {Addr 2} 1000)"


theorem process_payment_with_nonce_effect_witness:
  "st_get_nonce (Addr 2) (snd nonce_sample) = 1 \<and>
   st_get_payer_payment_ids (Addr 2) (snd nonce_sample) = [''o1'']"
proof -
  have "is_Ok (fst nonce_sample)"
    unfolding nonce_sample_def process_payment_with_nonce_def payment_block_defs
    by (simp add: exec_comp storage_defs helper_defs reference_defs shop_defs const_defs in_i128_def
        u64_sat_add_def rust_div_def)
  note run = trans [OF nonce_sample_def [symmetric] is_Ok_unit [OF this]]
  from process_payment_with_nonce_effect [OF run]
  have "st_get_nonce (Addr 2) (snd nonce_sample) = u64_sat_add 0 1 \<and>
      st_get_payer_payment_ids (Addr 2) (snd nonce_sample) =
        st_get_payer_payment_ids (Addr 2) (shop {Addr 2} 1000) @ [''o1'']"
    by (elim exE conjE) (intro conjI)
  then show ?thesis
    by (simp add: st_get_payer_payment_ids_def unwrap_or_def shop_def empty_persistent_def
        u64_sat_add_def u64_max_def)
qed

theorem transfer_with_fee_conserves_witness:
  "\<exists>t. transfer_with_fee sample_host (Addr 2) (Addr 1) (Addr 9) 1000 (shop {Addr 2} 1000) = (Ok (25, 975), t) \<and>
     25 + 975 = (1000 :: int)"
proof -
  have run: "transfer_with_fee sample_host (Addr 2) (Addr 1) (Addr 9) 1000 (shop {Addr 2} 1000) =
      (Ok (25, 975), snd (transfer_with_fee sample_host (Addr 2) (Addr 1) (Addr 9) 1000 (shop {Addr 2} 1000)))"
    by (simp add: transfer_with_fee_def platform_fee_for_def exec_comp storage_defs shop_defs
        reference_defs const_defs in_i128_def rust_div_def)
  moreover from transfer_with_fee_conserves [OF run]
  have "25 + 975 = (1000 :: int)"
    by (simp add: storage_defs shop_defs reference_defs const_defs)
  ultimately show ?thesis by blast
qed

section \<open>What the signature covers\<close>

lemma append_same_suffix:
  "a @ r = b @ q \<Longrightarrow> length r = length q \<Longrightarrow> a = b \<and> r = q"
  by simp

text \<open>
  C36. For one network and one contract the signed payload determines the nonce, the
  order id, the amount and the timestamp, although nothing in it is length-prefixed: the
  variable part is one field between fixed-size ones. It needs what XDR promises of every
  value, that different strings are encoded differently.
\<close>

theorem signature_payload_injective:
  assumes "inj (string_xdr h)"
    and "signature_payload h net c nc k n ts = signature_payload h net c nc' k' n' ts'"
    and "nc \<le> u64_max" "nc' \<le> u64_max" "ts \<le> u64_max" "ts' \<le> u64_max" "in_i128 n" "in_i128 n'"
  shows "nc = nc' \<and> k = k' \<and> n = n' \<and> ts = ts'"
proof -
  have eq: "be_bytes 8 (int nc) @ string_xdr h k @ be_bytes 16 n @ be_bytes 8 (int ts) =
      be_bytes 8 (int nc') @ string_xdr h k' @ be_bytes 16 n' @ be_bytes 8 (int ts')"
    using assms(2) by (simp add: signature_payload_def)
  then have "be_bytes 8 (int nc) = be_bytes 8 (int nc')" by (simp add: append_eq_append_conv)
  then have nc: "nc = nc'" using assms be_bytes_u64_inj by blast
  from eq have "string_xdr h k @ be_bytes 16 n @ be_bytes 8 (int ts) =
      string_xdr h k' @ be_bytes 16 n' @ be_bytes 8 (int ts')"
    by (simp add: append_eq_append_conv)
  from append_same_suffix [OF this]
  have "string_xdr h k = string_xdr h k'" and "be_bytes 16 n = be_bytes 16 n'"
    and "be_bytes 8 (int ts) = be_bytes 8 (int ts')" by auto
  with nc show ?thesis using assms be_bytes_u64_inj be_bytes_i128_inj by (blast dest: injD)
qed

lemma inj_sample_xdr: "inj (string_xdr sample_host)"
proof (rule injI)
  fix x y assume eq: "string_xdr sample_host x = string_xdr sample_host y"
  then have "map (\<lambda>c. of_nat (of_char c) :: 8 word) x = map (\<lambda>c. of_nat (of_char c)) y"
    by (simp add: sample_host_def append_eq_append_conv)
  moreover have "inj (\<lambda>c. of_nat (of_char c) :: 8 word)"
    by (rule injI, drule arg_cong [where f = unat]) (simp add: unat_of_nat)
  ultimately show "x = y" by (simp add: inj_map_eq_map)
qed

text \<open>Of two payloads that differ in the order id alone, neither passes for the other.\<close>

theorem signature_payload_injective_witness:
  "signature_payload sample_host (replicate 32 7) (Addr 0) 3 ''o1'' 5 9 \<noteq>
   signature_payload sample_host (replicate 32 7) (Addr 0) 3 ''o2'' 5 9"
proof
  assume eq: "signature_payload sample_host (replicate 32 7) (Addr 0) 3 ''o1'' 5 9 =
    signature_payload sample_host (replicate 32 7) (Addr 0) 3 ''o2'' 5 9"
  have "''o1'' = ''o2''"
    using signature_payload_injective [OF inj_sample_xdr eq] by (simp add: const_defs in_i128_def)
  then show False by simp
qed

lemma bind_gets: "bind (gets f) k s = k (f s) s"
  by (simp add: exec_comp)

lemma bind_cong_check:
  "(\<And>x t. m s = (Ok x, t) \<Longrightarrow> t = s) \<Longrightarrow> (\<And>x. k x s = k' x s) \<Longrightarrow> bind m k s = bind m k' s"
  by (auto simp: bind_def split: prod.splits outcome.splits)

text \<open>
  C37. The signature does not identify the merchant: whoever can sign the payload with
  any key of the right length gets the payment through, with the same outcome and the
  same final state as with the merchant's own key. The key is an argument of the call
  and is compared with nothing stored for the merchant.
\<close>

theorem any_signing_key_is_accepted:
  assumes "length pk = 32" "length pk' = 32" "length sg = 64" "length sg' = 64"
    and "ed25519_verify h pk (signature_payload h (network_id (ledger s)) (self s) nc k n ts) sg"
    and "ed25519_verify h pk' (signature_payload h (network_id (ledger s)) (self s) nc k n ts) sg'"
  shows "process_payment_with_signature h payer k merch tok n memo tags nc ts sg' pk' s =
    process_payment_with_signature h payer k merch tok n memo tags nc ts sg pk s"
proof -
  have same: "bind (verify_signature h pk' (signature_payload h net c nc k n ts) sg') f s =
      bind (verify_signature h pk (signature_payload h net c nc k n ts) sg) f s"
    if "net = network_id (ledger s)" "c = self s" for net c and f :: "unit \<Rightarrow> ('a, unit) contract"
    using assms that by (simp add: verify_signature_def exec_comp)
  show ?thesis
    unfolding process_payment_with_signature_def Let_def
    by (simp only: bind_gets | rule same [OF refl refl] | rule bind_cong_check, simp add: exec_simps)+
qed

theorem any_signing_key_is_accepted_witness:
  "process_payment_with_signature sample_host (Addr 2) ''o1'' (Addr 1) (Addr 9) 1000 '''' None 1 900
     (replicate 64 4) (replicate 32 4) (shop {Addr 2} 1000) =
   process_payment_with_signature sample_host (Addr 2) ''o1'' (Addr 1) (Addr 9) 1000 '''' None 1 900
     (replicate 64 3) (replicate 32 3) (shop {Addr 2} 1000)"
  by (rule any_signing_key_is_accepted) (simp_all add: sample_host_def)

section \<open>Batches\<close>

text \<open>The grouping of phase 2, as sums.\<close>

definition group_key :: "address \<times> address \<times> int \<Rightarrow> address \<times> address" where
  "group_key g = (fst g, fst (snd g))"

definition item_key :: "batch_payment_item \<Rightarrow> address \<times> address" where
  "item_key item = (bi_token_address item, bi_merchant_address item)"

definition group_sum :: "batch_payment_item list \<Rightarrow> address \<times> address \<Rightarrow> int" where
  "group_sum items key = sum_list (map bi_amount (filter (\<lambda>i. item_key i = key) items))"

definition groups_ok :: "batch_payment_item list \<Rightarrow> group_list \<Rightarrow> bool" where
  "groups_ok items gs \<longleftrightarrow>
     distinct (map group_key gs) \<and> set (map group_key gs) = set (map item_key items) \<and>
     (\<forall>g \<in> set gs. snd (snd g) = group_sum items (group_key g))"

definition add_to_group :: "batch_payment_item \<Rightarrow> address \<times> address \<times> int \<Rightarrow> address \<times> address \<times> int" where
  "add_to_group item g =
     (if group_key g = item_key item then (fst g, fst (snd g), snd (snd g) + bi_amount item) else g)"

lemma group_key_add [simp]:
  "group_key (add_to_group item g) = group_key g" "group_key \<circ> add_to_group item = group_key"
  by (simp_all add: add_to_group_def group_key_def fun_eq_iff)

lemma group_loop_OkD:
  "group_loop item gs acc found s = (Ok (r, b), t) \<Longrightarrow>
   t = s \<and> r = acc @ map (add_to_group item) gs \<and>
   b = (found \<or> item_key item \<in> set (map group_key gs))"
proof (induction gs arbitrary: acc found)
  case Nil
  then show ?case by (simp add: exec_simps)
next
  case (Cons g gs)
  have "group_loop item gs (acc @ [add_to_group item g]) (found \<or> item_key item = group_key g) s =
      (Ok (r, b), t)"
    using Cons.prems
    by (cases g) (auto simp: exec_simps add_to_group_def group_key_def item_key_def split: if_splits)
  from Cons.IH [OF this] show ?case by auto
qed

lemma group_sum_snoc:
  "group_sum (items @ [item]) key = group_sum items key + (if item_key item = key then bi_amount item else 0)"
  by (simp add: group_sum_def)

lemma group_sum_absent: "key \<notin> set (map item_key items) \<Longrightarrow> group_sum items key = 0"
  by (induction items) (auto simp: group_sum_def)

lemma add_item_to_groups_OkD:
  assumes "add_item_to_groups gs item s = (Ok r, t)" and "groups_ok items gs"
  shows "t = s \<and> groups_ok (items @ [item]) r"
proof -
  let ?mapped = "map (add_to_group item) gs"
  from assms(1) have t: "t = s" and r: "r = (if item_key item \<in> set (map group_key gs) then ?mapped
      else ?mapped @ [(bi_token_address item, bi_merchant_address item, bi_amount item)])"
    by (auto simp: add_item_to_groups_def exec_simps dest!: group_loop_OkD)
  have new_key: "group_key (bi_token_address item, bi_merchant_address item, x) = item_key item" for x
    by (simp add: group_key_def item_key_def)
  have keys: "map group_key ?mapped = map group_key gs" by simp
  have sums: "snd (snd g) = group_sum (items @ [item]) (group_key g)" if "g \<in> set ?mapped" for g
    using that assms(2) by (auto simp: groups_ok_def group_sum_snoc add_to_group_def group_key_def)
  show ?thesis
  proof (cases "item_key item \<in> set (map group_key gs)")
    case True
    then have "r = ?mapped" by (simp add: r)
    with True t keys sums assms(2) show ?thesis
      unfolding groups_ok_def by auto
  next
    case False
    then have "group_sum items (item_key item) = 0"
      using assms(2) group_sum_absent unfolding groups_ok_def by metis
    with False t keys sums assms(2) new_key show ?thesis
      unfolding groups_ok_def by (auto simp: r group_sum_snoc)
  qed
qed

lemma fold_groups_OkD:
  "fold_each xs add_item_to_groups gs s = (Ok r, t) \<Longrightarrow> groups_ok items gs \<Longrightarrow>
   t = s \<and> groups_ok (items @ xs) r"
proof (induction xs arbitrary: gs items s)
  case Nil
  then show ?case by (simp add: exec_simps)
next
  case (Cons x xs)
  then obtain gs' u where "add_item_to_groups gs x s = (Ok gs', u)"
    and "fold_each xs add_item_to_groups gs' u = (Ok r, t)"
    by (auto simp: exec_simps)
  with Cons.IH [of gs' u "items @ [x]"] Cons.prems(2) show ?case
    by (auto dest!: add_item_to_groups_OkD)
qed

text \<open>
  The grouping of a batch neither loses nor invents money: there is exactly one
  group per (token, merchant) pair of the batch, and its total is the sum of the
  amounts of the items with that pair. So phase 3 moves, per pair, what the recorded
  payments say.
\<close>

theorem group_payments_sums:
  assumes "group_payments items s = (Ok groups, t)"
  shows "t = s \<and> groups_ok items groups \<and>
    sum_list (map (\<lambda>g. snd (snd g)) groups) = sum_list (map bi_amount items)"
proof -
  have "groups_ok [] []" by (simp add: groups_ok_def)
  with assms have t: "t = s" and ok: "groups_ok items groups"
    using fold_groups_OkD [of items "[]" s groups t "[]"] by (auto simp: group_payments_def)
  have "sum_list (map (\<lambda>g. snd (snd g)) groups) = (\<Sum>k \<leftarrow> map group_key groups. group_sum items k)"
    using ok unfolding groups_ok_def by (auto intro!: arg_cong [where f = sum_list])
  also have "\<dots> = (\<Sum>k \<in> set (map item_key items). group_sum items k)"
    using ok unfolding groups_ok_def by (metis sum_list_distinct_conv_sum_set)
  also have "\<dots> = sum_list (map bi_amount items)"
  proof -
    have "(\<Sum>k \<in> A. group_sum items k) = sum_list (map bi_amount items)"
      if "finite A" "set (map item_key items) \<subseteq> A" for A
      using that
    proof (induction items)
      case Nil
      then show ?case by (simp add: group_sum_def)
    next
      case (Cons x xs)
      have "group_sum (x # xs) k = group_sum xs k + (if k = item_key x then bi_amount x else 0)" for k
        by (simp add: group_sum_def)
      with Cons show ?case by (simp add: sum.distrib)
    qed
    then show ?thesis by simp
  qed
  finally show ?thesis using t ok by simp
qed

text \<open>The record phase 4 stores for an item, and what phase 1 checked of it.\<close>

definition batch_record :: "address \<Rightarrow> nat \<Rightarrow> batch_payment_item \<Rightarrow> payment_order" where
  "batch_record payer ts item =
     \<lparr>p_order_id = bi_order_id item, p_merchant_address = bi_merchant_address item, p_payer = payer,
      p_token = bi_token_address item, p_amount = bi_amount item, p_version = 0,
      p_status = PCompleted, p_paid_at = ts, p_refunded_amount = 0, p_memo = bi_memo item,
      p_tags = bi_tags item, p_platform_fee = 0\<rparr>"

definition batch_item_ok :: "'w host \<Rightarrow> 'w env \<Rightarrow> batch_payment_item \<Rightarrow> bool" where
  "batch_item_ok h s item \<longleftrightarrow>
     0 < bi_amount item \<and> bi_order_id item \<noteq> [] \<and> length (bi_order_id item) \<le> 64 \<and>
     tags_ok (bi_tags item) \<and> st_is_token_allowed (bi_token_address item) s \<and>
     st_get_payment (bi_order_id item) s = None \<and>
     (\<exists>m. st_get_merchant (bi_merchant_address item) s = Some m \<and> m_active m) \<and>
     ed25519_verify h (bi_merchant_public_key item)
       (batch_payload h (network_id (ledger s)) (self s) item) (bi_signature item)"

lemma validate_batch_item_OkD:
  assumes "validate_batch_item h seen item s = (Ok r, t)"
  shows "r = seen @ [bi_order_id item]" "bi_order_id item \<notin> set seen" "batch_item_ok h s item"
    "persistent_st t = persistent_st s" "instance_st t = instance_st s" "ledger t = ledger s"
    "self t = self s" "auths t = auths s"
  using assms unfolding validate_batch_item_def
  by (auto simp: exec_simps Let_def take_rate_limit_slot_Ok_iff for_each_guard_Ok_iff batch_item_ok_def
      extend_ttl_def upd_temporary_def)
    (simp_all add: st_is_token_allowed_def st_get_payment_def st_get_merchant_def)?

lemma batch_item_ok_cong:
  "persistent_st t = persistent_st s \<Longrightarrow> instance_st t = instance_st s \<Longrightarrow> ledger t = ledger s \<Longrightarrow>
   self t = self s \<Longrightarrow> batch_item_ok h t item = batch_item_ok h s item"
  by (simp add: batch_item_ok_def st_is_token_allowed_def st_get_payment_def st_get_merchant_def)

lemma validate_batch_OkD:
  "fold_each items (validate_batch_item h) seen s = (Ok r, t) \<Longrightarrow>
   distinct (map bi_order_id items) \<and> set seen \<inter> set (map bi_order_id items) = {} \<and>
   (\<forall>item \<in> set items. batch_item_ok h s item) \<and>
   persistent_st t = persistent_st s \<and> instance_st t = instance_st s \<and> ledger t = ledger s"
proof (induction items arbitrary: seen s)
  case Nil
  then show ?case by (simp add: exec_simps)
next
  case (Cons item items)
  then obtain seen' u where one: "validate_batch_item h seen item s = (Ok seen', u)"
    and rest: "fold_each items (validate_batch_item h) seen' u = (Ok r, t)"
    by (auto simp: exec_simps)
  note one = validate_batch_item_OkD [OF one]
  have "batch_item_ok h u i = batch_item_ok h s i" for i
    using one by (intro batch_item_ok_cong)
  with Cons.IH [OF rest] one show ?case by auto
qed

lemma record_batch_item_payments:
  assumes "record_batch_item payer ts g item s = (Ok r, t)"
  shows "k_Payment (persistent_st t) =
    (k_Payment (persistent_st s))(bi_order_id item := Some (batch_record payer ts item))"
  using assms unfolding record_batch_item_def
  by (auto simp: exec_simps storage_defs batch_record_def split: option.splits
      dest!: add_merchant_payment_id_OkD(2) add_payer_payment_id_OkD(2)
        add_merchant_payment_stats_OkD(2))

lemma record_batch_payments:
  "fold_each items (record_batch_item payer ts) g s = (Ok r, t) \<Longrightarrow>
   distinct (map bi_order_id items) \<Longrightarrow>
   (\<forall>item \<in> set items. st_get_payment (bi_order_id item) t = Some (batch_record payer ts item)) \<and>
   (\<forall>k. k \<notin> set (map bi_order_id items) \<longrightarrow> st_get_payment k t = st_get_payment k s)"
proof (induction items arbitrary: g s)
  case Nil
  then show ?case by (simp add: exec_simps)
next
  case (Cons item items)
  then obtain g' u where one: "record_batch_item payer ts g item s = (Ok g', u)"
    and rest: "fold_each items (record_batch_item payer ts) g' u = (Ok r, t)"
    by (auto simp: exec_simps)
  from record_batch_item_payments [OF one] Cons.IH [OF rest] Cons.prems(2) show ?case
    by (auto simp: st_get_payment_def)
qed

lemma transfer_groups_store:
  assumes "transfer_groups h payer groups s = (Ok z, t)"
  shows "persistent_st t = persistent_st s \<and> ledger t = ledger s"
proof -
  have "preserves (\<lambda>u. persistent_st u = persistent_st s \<and> ledger u = ledger s)
      (transfer_groups h payer groups)"
    unfolding transfer_groups_def by (rule pres preserves_token | simp (no_asm_simp))+
  from preservesD [OF this assms] show ?thesis by simp
qed

text \<open>A batch that returned, cut after phase 4.\<close>

lemma batch_payment_run:
  fixes s t :: "'w env"
  assumes "batch_payment h payer items s = (Ok (), t)"
  obtains s3 s4 :: "'w env" and g where "payer \<in> auths s" and "length items \<le> MAX_BATCH_SIZE"
    and "distinct (map bi_order_id items)" and "\<forall>item \<in> set items. batch_item_ok h s item"
    and "persistent_st s3 = persistent_st s"
    and "fold_each items (record_batch_item payer (now s)) (st_get_global_stats s3) s3 = (Ok g, s4)"
    and "persistent_st t = persistent_st s4"
proof -
  have frame: "preserves (\<lambda>v. persistent_st v = p) (for_each items (\<lambda>item. publish
      T_payment_processed (Some (bi_merchant_address item)) [StrV (bi_order_id item), AddrV payer,
      I128V (bi_amount item)]))" for p
    by (rule pres preserves_publish | simp)+
  from assms obtain seen s1 groups s2 s3 g s4 where auth: "payer \<in> auths s"
    and size: "length items \<le> MAX_BATCH_SIZE"
    and val: "fold_each items (validate_batch_item h) [] s = (Ok seen, s1)"
    and grp: "group_payments items s1 = (Ok groups, s2)"
    and tra: "transfer_groups h payer groups s2 = (Ok (), s3)"
    and rec: "fold_each items (record_batch_item payer (now s3)) (st_get_global_stats s3) s3 = (Ok g, s4)"
    and pub: "for_each items (\<lambda>item. publish T_payment_processed (Some (bi_merchant_address item))
       [StrV (bi_order_id item), AddrV payer, I128V (bi_amount item)]) (st_set_global_stats g s4) = (Ok (), t)"
    unfolding batch_payment_def by (auto simp: exec_simps)
  note val = validate_batch_OkD [OF val]
  have "s2 = s1" using grp by (auto simp: group_payments_def groups_ok_def dest!: fold_groups_OkD)
  with transfer_groups_store [OF tra] val
  have s3: "persistent_st s3 = persistent_st s" "now s3 = now s" by (simp_all add: now_def)
  have "persistent_st t = persistent_st s4"
    using preservesD [OF frame pub, of "persistent_st s4"] by (simp add: st_set_global_stats_def upd_instance_def)
  with that [of s3 g s4] auth size val s3 rec show thesis by simp
qed

text \<open>
  C35. A batch that returned has at most ten items with distinct order ids, each passed
  every check against the state before the batch (so the order ids were all new), each
  is now stored as its own payment, and no other payment changed.
\<close>

theorem batch_payment_effect:
  assumes "batch_payment h payer items s = (Ok (), t)"
  shows "length items \<le> MAX_BATCH_SIZE \<and> distinct (map bi_order_id items) \<and> payer \<in> auths s \<and>
    (\<forall>item \<in> set items. batch_item_ok h s item \<and>
       st_get_payment (bi_order_id item) t = Some (batch_record payer (now s) item)) \<and>
    (\<forall>k. k \<notin> set (map bi_order_id items) \<longrightarrow> st_get_payment k t = st_get_payment k s)"
  by (rule batch_payment_run [OF assms], drule (1) record_batch_payments) (simp add: st_get_payment_def)

definition sample_item :: "string \<Rightarrow> int \<Rightarrow> batch_payment_item" where
  "sample_item k n =
     \<lparr>bi_order_id = k, bi_merchant_address = Addr 1, bi_token_address = Addr 9, bi_amount = n,
      bi_memo = '''', bi_tags = None, bi_signature = replicate 64 3,
      bi_merchant_public_key = replicate 32 3\<rparr>"

definition batch_sample :: "(payment_error, unit) outcome \<times> book env" where
  "batch_sample = batch_payment sample_host (Addr 2) [sample_item ''a'' 100, sample_item ''b'' 250]
     (shop {Addr 2} 1000)"

theorem group_payments_sums_witness:
  "\<exists>t. group_payments [sample_item ''a'' 100, sample_item ''b'' 250] (shop {} 0) =
     (Ok [(Addr 9, Addr 1, 350)], t) \<and> t = shop {} 0"
proof -
  have run: "group_payments [sample_item ''a'' 100, sample_item ''b'' 250] (shop {} 0) =
      (Ok [(Addr 9, Addr 1, 350)], shop {} 0)"
    by (simp add: group_payments_def add_item_to_groups_def sample_item_def exec_comp const_defs in_i128_def)
  with group_payments_sums [OF run] show ?thesis by blast
qed

theorem batch_payment_effect_witness:
  "st_get_payment ''b'' (snd batch_sample) =
     Some (batch_record (Addr 2) 1000 (sample_item ''b'' 250))"
proof -
  have "is_Ok (fst batch_sample)"
    unfolding batch_sample_def batch_payment_def validate_batch_item_def group_payments_def
      add_item_to_groups_def transfer_groups_def record_batch_item_def payment_block_defs sample_item_def
    by (simp add: exec_comp storage_defs helper_defs reference_defs shop_defs const_defs in_i128_def
        u64_sat_add_def batch_payload_def Let_def)
  note run = trans [OF batch_sample_def [symmetric] is_Ok_unit [OF this]]
  have "now (shop {Addr 2} 1000) = 1000" by (simp add: now_def shop_def deployed_def)
  with batch_payment_effect [OF run] show ?thesis by (simp add: sample_item_def)
qed

section \<open>Replay\<close>

lemma signed_payment_nonce:
  assumes "process_payment_with_signature h payer k merch tok n memo tags nc ts sg pk s = (Ok (), t)"
  shows "nc = u64_sat_add (st_get_merchant_nonce merch s) 1 \<and> st_get_merchant_nonce merch t = nc"
  using assms
  unfolding process_payment_with_signature_def
  apply (simp add: exec_simps Let_def split_beta take_rate_limit_slot_Ok_iff)
  apply (elim exE conjE)
  apply (drule transfer_with_fee_OkD(1), drule add_merchant_payment_id_OkD(2),
      drule add_payer_payment_id_OkD(2), drule add_merchant_payment_stats_OkD(2),
      drule add_global_payment_stats_OkD(2), drule flag_large_payment_OkD(1))
  apply (simp add: storage_defs)
  done

lemma u64_sat_add_1: "nc < u64_max \<Longrightarrow> nc \<le> n \<Longrightarrow> nc \<noteq> u64_sat_add n 1"
  by (auto simp: u64_sat_add_def)

text \<open>
  The retention cleanup is the administrator's and only ever removes, payments with
  their refunds.
\<close>

lemma cleanup_payments_admin:
  "cleanup_expired_payments_loop a s = (Ok n, t) \<Longrightarrow> st_get_admin s = Some a \<and> a \<in> auths s"
  by (auto simp: cleanup_expired_payments_loop_def exec_simps)

lemma cleanup_payments_invariant:
  assumes "cleanup_expired_payments_loop a s = (Ok n, t)" and "I (st_clear_auth_fail_count a s)"
    and rem: "\<And>i u. I u \<Longrightarrow> I (st_remove_payment i u)" "\<And>i u. I u \<Longrightarrow> I (st_remove_refund i u)"
      "\<And>i u. I u \<Longrightarrow> I (st_remove_order_refund_index i u)"
  shows "I t"
proof -
  have one: "preserves I (cleanup_one_payment cut m i)" for cut m i
    unfolding cleanup_one_payment_def
    by (rule pres preserves_modify | erule rem | simp (no_asm))+
  from assms(1) obtain ms cut where run:
      "fold_each ms (\<lambda>cleaned m. bind (gets (st_get_merchant_payment_ids m))
         (\<lambda>ids. fold_each ids (cleanup_one_payment cut) cleaned)) 0 (st_clear_auth_fail_count a s) = (Ok n, t)"
    by (auto simp: cleanup_expired_payments_loop_def exec_simps)
  have "preserves I (fold_each ms (\<lambda>cleaned m. bind (gets (st_get_merchant_payment_ids m))
         (\<lambda>ids. fold_each ids (cleanup_one_payment cut) cleaned)) 0)"
    by (intro pres one)
  from preservesD [OF this run assms(2)] show ?thesis .
qed

lemma cleanup_payments_refunds:
  assumes "cleanup_expired_payments_loop a s = (Ok n, t)"
  shows "k_Refund (persistent_st t) k = k_Refund (persistent_st s) k \<or> k_Refund (persistent_st t) k = None"
  using assms by (rule cleanup_payments_invariant) (auto simp: storage_defs)

lemma cleanup_payments_payments:
  assumes "cleanup_expired_payments_loop a s = (Ok n, t)"
  shows "st_get_payment k t = st_get_payment k s \<or> st_get_payment k t = None"
  using assms by (rule cleanup_payments_invariant) (auto simp: storage_defs)

end
