(* ===== verification/Queries.thy ===== *)
theory Queries
  imports Payments "HOL-Library.Multiset"
begin

text \<open>
  The read-only side: single payments, filtered and sorted payment history with
  cursor pagination, the merchant list, and the statistics.
\<close>

section \<open>Single payments\<close>

definition get_payment_by_id :: "address \<Rightarrow> string \<Rightarrow> ('w, payment_order) contract" where
  "get_payment_by_id caller order_id =
     bind (require_auth caller) (\<lambda>_.
     bind (require_some (st_get_payment order_id) PaymentNotFound) (\<lambda>p.
     bind (gets (is_admin caller)) (\<lambda>adm.
     bind (guard (\<not> (\<not> adm \<and> caller \<noteq> p_payer p \<and> caller \<noteq> p_merchant_address p)) Unauthorized) (\<lambda>_.
     ret p))))"

definition get_payment_summary :: "string \<Rightarrow> ('w, payment_summary) contract" where
  "get_payment_summary order_id =
     bind (require_some (st_get_payment order_id) PaymentNotFound) (\<lambda>p.
     ret \<lparr>psum_order_id = p_order_id p, psum_merchant_address = p_merchant_address p,
          psum_amount = p_amount p, psum_token = p_token p, psum_status = p_status p,
          psum_paid_at = p_paid_at p\<rparr>)"

section \<open>Filter, sort, page\<close>

definition matches_filter :: "payment_order \<Rightarrow> payment_filter option \<Rightarrow> bool" where
  "matches_filter p filter_opt =
     (case filter_opt of
        None \<Rightarrow> True
      | Some f \<Rightarrow>
          if (case pf_date_start f of Some start \<Rightarrow> p_paid_at p < start | None \<Rightarrow> False) then False
          else if (case pf_date_end f of Some fin \<Rightarrow> fin < p_paid_at p | None \<Rightarrow> False) then False
          else if (case pf_amount_min f of Some mn \<Rightarrow> p_amount p < mn | None \<Rightarrow> False) then False
          else if (case pf_amount_max f of Some mx \<Rightarrow> mx < p_amount p | None \<Rightarrow> False) then False
          else if (case pf_token f of Some tok \<Rightarrow> p_token p \<noteq> tok | None \<Rightarrow> False) then False
          else if (case pf_status f of
                     SAny \<Rightarrow> False
                   | SCompleted \<Rightarrow> p_status p \<noteq> PCompleted
                   | SPartiallyRefunded \<Rightarrow> p_status p \<noteq> PPartiallyRefunded
                   | SFullyRefunded \<Rightarrow> p_status p \<noteq> PFullyRefunded) then False
          else (case pf_tag f of
                  None \<Rightarrow> True
                | Some tag \<Rightarrow> (case p_tags p of Some tags \<Rightarrow> tag \<in> set tags | None \<Rightarrow> False)))"

definition int_cmp :: "int \<Rightarrow> int \<Rightarrow> int" where
  "int_cmp a b = (if a < b then -1 else if b < a then 1 else 0)"

definition payment_cmp :: "sort_field \<Rightarrow> sort_order \<Rightarrow> payment_order \<Rightarrow> payment_order \<Rightarrow> int" where
  "payment_cmp fld ord a b =
     (let c = (case fld of
                 DateField \<Rightarrow> int_cmp (int (p_paid_at a)) (int (p_paid_at b))
               | AmountField \<Rightarrow> int_cmp (p_amount a) (p_amount b))
      in case ord of Ascending \<Rightarrow> c | Descending \<Rightarrow> - c)"

text \<open>The slice loop: \<open>taken\<close> counts the entries visited since the start index.\<close>

primrec page_loop ::
  "payment_order list \<Rightarrow> nat \<Rightarrow> nat \<Rightarrow> payment_order list \<Rightarrow> payment_order list \<times> string option" where
  "page_loop [] taken limit result = (result, None)"
| "page_loop (p # rest) taken limit result =
     (if limit \<le> taken
      then (result, if result = [] then None else Some (p_order_id (last result)))
      else page_loop rest (taken + 1) limit (result @ [p]))"

primrec position_of :: "string \<Rightarrow> payment_order list \<Rightarrow> nat option" where
  "position_of c [] = None"
| "position_of c (p # ps) = (if p_order_id p = c then Some 0 else map_option Suc (position_of c ps))"

definition page_start :: "string option \<Rightarrow> payment_order list \<Rightarrow> nat" where
  "page_start cursor sorted_list =
     (case cursor of
        Some cursor_id \<Rightarrow> (case position_of cursor_id sorted_list of Some pos \<Rightarrow> pos + 1 | None \<Rightarrow> 0)
      | None \<Rightarrow> 0)"

text \<open>The candidates: every indexed payment that still exists and passes the filter.\<close>

definition load_payments ::
  "string list \<Rightarrow> payment_filter option \<Rightarrow> 'w env \<Rightarrow> payment_order list" where
  "load_payments ids filter_opt s =
     filter (\<lambda>p. matches_filter p filter_opt) (List.map_filter (\<lambda>i. st_get_payment i s) ids)"

definition build_page ::
  "'w host \<Rightarrow> string list \<Rightarrow> string option \<Rightarrow> nat \<Rightarrow> payment_filter option \<Rightarrow> sort_field \<Rightarrow>
   sort_order \<Rightarrow> ('w, payment_page) contract" where
  "build_page h ids cursor limit filter_opt fld ord =
     bind (gets (load_payments ids filter_opt)) (\<lambda>payments.
     let sorted_list = sort_payments h (payment_cmp fld ord) payments;
         total_matching = length sorted_list;
         start_idx = page_start cursor sorted_list;
         (result, next_cursor) = page_loop (drop start_idx sorted_list) 0 limit []
     in ret \<lparr>ppg_payments = result, ppg_next_cursor = next_cursor, ppg_total_matching = total_matching\<rparr>)"

definition get_merchant_payment_history ::
  "'w host \<Rightarrow> address \<Rightarrow> string option \<Rightarrow> nat \<Rightarrow> payment_filter option \<Rightarrow> sort_field \<Rightarrow> sort_order \<Rightarrow>
   ('w, payment_page) contract" where
  "get_merchant_payment_history h merchant_address cursor limit filter_opt fld ord =
     bind (require_auth merchant_address) (\<lambda>_.
     bind (require_valid_limit limit) (\<lambda>_.
     bind (gets (st_get_merchant_payment_ids merchant_address)) (\<lambda>ids.
     build_page h ids cursor limit filter_opt fld ord)))"

definition get_payer_payment_history ::
  "'w host \<Rightarrow> address \<Rightarrow> string option \<Rightarrow> nat \<Rightarrow> payment_filter option \<Rightarrow> sort_field \<Rightarrow> sort_order \<Rightarrow>
   ('w, payment_page) contract" where
  "get_payer_payment_history h payer cursor limit filter_opt fld ord =
     bind (require_auth payer) (\<lambda>_.
     bind (require_valid_limit limit) (\<lambda>_.
     bind (gets (st_get_payer_payment_ids payer)) (\<lambda>ids.
     build_page h ids cursor limit filter_opt fld ord)))"

section \<open>The merchant list\<close>

text \<open>The first loop of \<open>build_merchant_page\<close>, with its \<open>skip\<close> flag.\<close>

primrec skip_loop ::
  "address list \<Rightarrow> address option \<Rightarrow> bool \<Rightarrow> (address \<Rightarrow> merchant option) \<Rightarrow> merchant list" where
  "skip_loop [] cursor skip look = []"
| "skip_loop (a # rest) cursor skip look =
     (if skip then skip_loop rest cursor (if cursor = Some a then False else skip) look
      else case look a of
             Some m \<Rightarrow> m # skip_loop rest cursor skip look
           | None \<Rightarrow> skip_loop rest cursor skip look)"

primrec merchant_page_loop ::
  "merchant list \<Rightarrow> nat \<Rightarrow> nat \<Rightarrow> merchant list \<Rightarrow> merchant list \<times> address option" where
  "merchant_page_loop [] i limit result = (result, None)"
| "merchant_page_loop (m # rest) i limit result =
     (if limit \<le> i then (result, Some (m_address m))
      else merchant_page_loop rest (i + 1) limit (result @ [m]))"

definition build_merchant_page ::
  "address list \<Rightarrow> address option \<Rightarrow> nat \<Rightarrow> ('w, merchant_page) contract" where
  "build_merchant_page addresses cursor limit =
     bind (gets (\<lambda>s. skip_loop addresses cursor (cursor \<noteq> None) (\<lambda>a. st_get_merchant a s))) (\<lambda>ms.
     let total = length ms; (result, next_cursor) = merchant_page_loop ms 0 limit []
     in ret \<lparr>mpg_merchants = result, mpg_next_cursor = next_cursor, mpg_total = total\<rparr>)"

definition get_merchants ::
  "address \<Rightarrow> address option \<Rightarrow> nat \<Rightarrow> ('w, merchant_page) contract" where
  "get_merchants admin cursor limit =
     bind (require_admin_rate_limited admin) (\<lambda>_.
     bind (require_valid_limit limit) (\<lambda>_.
     bind (gets st_get_merchant_list) (\<lambda>addresses.
     build_merchant_page addresses cursor limit)))"

section \<open>Statistics\<close>

definition in_window :: "nat option \<Rightarrow> nat option \<Rightarrow> nat \<Rightarrow> bool" where
  "in_window date_start date_end ts \<longleftrightarrow>
     (case date_start of None \<Rightarrow> True | Some x \<Rightarrow> x \<le> ts) \<and>
     (case date_end of None \<Rightarrow> True | Some x \<Rightarrow> ts \<le> x)"

definition add_payment_to_stats :: "global_stats \<Rightarrow> payment_order \<Rightarrow> ('w, global_stats) contract" where
  "add_payment_to_stats stats p =
     bind (u32_add (gs_total_payments stats) 1) (\<lambda>n.
     let stats' = stats\<lparr>gs_total_payments := n,
                        gs_total_volume := i128_sat_add (gs_total_volume stats) (p_amount p)\<rparr> in
     if 0 < p_refunded_amount p
     then bind (u32_add (gs_total_refunds stats') 1) (\<lambda>r.
          ret (stats'\<lparr>gs_total_refunds := r,
                      gs_total_refund_volume :=
                        i128_sat_add (gs_total_refund_volume stats') (p_refunded_amount p)\<rparr>))
     else ret stats')"

definition get_global_payment_stats ::
  "address \<Rightarrow> nat option \<Rightarrow> nat option \<Rightarrow> ('w, global_stats) contract" where
  "get_global_payment_stats admin date_start date_end =
     bind (require_admin_rate_limited admin) (\<lambda>_.
     bind (guard (\<not> (case (date_start, date_end) of (Some st, Some en) \<Rightarrow> en < st | _ \<Rightarrow> False))
       InvalidInput) (\<lambda>_.
     if date_start = None \<and> date_end = None then gets st_get_global_stats
     else
       bind (gets st_get_global_stats) (\<lambda>cached.
       bind (gets st_get_merchant_list) (\<lambda>merchant_list.
       fold_each merchant_list (\<lambda>stats merchant_addr.
         bind (gets (st_get_merchant_payment_ids merchant_addr)) (\<lambda>ids.
         fold_each ids (\<lambda>stats order_id.
           bind (gets (st_get_payment order_id)) (\<lambda>found.
           case found of
             Some p \<Rightarrow> if in_window date_start date_end (p_paid_at p) then add_payment_to_stats stats p
                       else ret stats
           | None \<Rightarrow> ret stats)) stats))
         \<lparr>gs_total_payments = 0, gs_total_volume = 0, gs_total_refunds = 0,
          gs_total_refund_volume = 0, gs_active_merchants = gs_active_merchants cached\<rparr>))))"

definition get_merchant_stats :: "address \<Rightarrow> ('w, merchant_stats) contract" where
  "get_merchant_stats merchant_address =
     bind (require_auth merchant_address) (\<lambda>_. gets (st_get_merchant_stats merchant_address))"

definition get_account_payment_count :: "address \<Rightarrow> ('w, nat) contract" where
  "get_account_payment_count a =
     gets (\<lambda>s. max (st_get_merchant_payment_count a s) (st_get_payer_payment_count a s))"

section \<open>Frame\<close>

text \<open>A query writes nothing but the failure counter that the administrator's check resets.\<close>

context auth_frame
begin

lemma pres_queries [pres]:
  "preserves I (get_payment_by_id a k)" "preserves I (get_payment_summary k)"
  "preserves I (get_merchant_payment_history h a c l f fld ord)"
  "preserves I (get_payer_payment_history h a c l f fld ord)"
  "preserves I (get_merchants a mc l)" "preserves I (get_merchant_stats a)"
  "preserves I (get_account_payment_count a)"
  unfolding get_payment_by_id_def get_payment_summary_def get_merchant_payment_history_def
    get_payer_payment_history_def get_merchants_def get_merchant_stats_def
    get_account_payment_count_def build_page_def build_merchant_page_def
  by (rule pres)+

lemma pres_get_global_payment_stats [pres]: "preserves I (get_global_payment_stats a x y)"
  unfolding get_global_payment_stats_def add_payment_to_stats_def by (rule pres)+

end

section \<open>Calls\<close>

datatype (plugins only:) query_call =
    GetPaymentById address string | GetPaymentSummary string
    | GetMerchantPaymentHistory address "string option" nat "payment_filter option" sort_field sort_order
    | GetPayerPaymentHistory address "string option" nat "payment_filter option" sort_field sort_order
    | GetMerchants address "address option" nat
    | GetGlobalPaymentStats address "nat option" "nat option" | GetMerchantStats address
    | GetAccountPaymentCount address

primrec run_query_call :: "'w host \<Rightarrow> query_call \<Rightarrow> ('w, unit) contract" where
  "run_query_call h (GetPaymentById x1 x2) = bind (get_payment_by_id x1 x2) (\<lambda>_. ret ())"
| "run_query_call h (GetPaymentSummary x1) = bind (get_payment_summary x1) (\<lambda>_. ret ())"
| "run_query_call h (GetMerchantPaymentHistory x1 x2 x3 x4 x5 x6) =
     bind (get_merchant_payment_history h x1 x2 x3 x4 x5 x6) (\<lambda>_. ret ())"
| "run_query_call h (GetPayerPaymentHistory x1 x2 x3 x4 x5 x6) =
     bind (get_payer_payment_history h x1 x2 x3 x4 x5 x6) (\<lambda>_. ret ())"
| "run_query_call h (GetMerchants x1 x2 x3) = bind (get_merchants x1 x2 x3) (\<lambda>_. ret ())"
| "run_query_call h (GetGlobalPaymentStats x1 x2 x3) =
     bind (get_global_payment_stats x1 x2 x3) (\<lambda>_. ret ())"
| "run_query_call h (GetMerchantStats x1) = bind (get_merchant_stats x1) (\<lambda>_. ret ())"
| "run_query_call h (GetAccountPaymentCount x1) =
     bind (get_account_payment_count x1) (\<lambda>_. ret ())"

context auth_frame
begin

lemma pres_run_query_call [pres]: "preserves I (run_query_call h c)"
  by (cases c) (simp_all, (rule pres)+)

end

section \<open>Pages of the payment history\<close>

lemma page_loop_spec:
  "page_loop xs c limit r =
    (r @ take (limit - c) xs,
     if length xs \<le> limit - c \<or> r @ take (limit - c) xs = [] then None
     else Some (p_order_id (last (r @ take (limit - c) xs))))"
  by (induction xs arbitrary: c r) (auto simp: take_Cons' Suc_diff_le not_le)

lemma page_loop_start:
  "0 < limit \<Longrightarrow> page_loop xs 0 limit [] =
    (take limit xs, if length xs \<le> limit then None else Some (p_order_id (xs ! (limit - 1))))"
  by (auto simp: page_loop_spec last_conv_nth)

lemma position_of_nth:
  "distinct (map p_order_id xs) \<Longrightarrow> i < length xs \<Longrightarrow> position_of (p_order_id (xs ! i)) xs = Some i"
proof (induction xs arbitrary: i)
  case Nil
  then show ?case by simp
next
  case (Cons p ps)
  then show ?case
    by (cases i) (auto simp: image_iff dest: nth_mem)
qed

text \<open>A client that reads page after page, following \<open>next_cursor\<close>.\<close>

fun read_pages :: "payment_order list \<Rightarrow> string option \<Rightarrow> nat \<Rightarrow> nat \<Rightarrow> payment_order list list" where
  "read_pages xs cursor limit 0 = []"
| "read_pages xs cursor limit (Suc fuel) =
     (let (page, next_cursor) = page_loop (drop (page_start cursor xs) xs) 0 limit []
      in page # (case next_cursor of None \<Rightarrow> [] | Some c \<Rightarrow> read_pages xs (Some c) limit fuel))"

lemma read_pages_from:
  assumes "distinct (map p_order_id xs)" and "0 < limit"
    and "page_start cursor xs = i" and "length xs - i < fuel"
  shows "concat (read_pages xs cursor limit fuel) = drop i xs"
  using assms(3,4)
proof (induction fuel arbitrary: cursor i)
  case 0
  then show ?case by simp
next
  case (Suc fuel)
  show ?case
  proof (cases "length xs - i \<le> limit")
    case True
    with Suc.prems assms(2) show ?thesis by (simp add: page_loop_start)
  next
    case False
    then have lt: "i + limit < length xs" by simp
    let ?c = "p_order_id (xs ! (i + (limit - 1)))"
    have "page_start (Some ?c) xs = i + limit"
      using assms(1,2) lt position_of_nth [of xs "i + (limit - 1)"] by (simp add: page_start_def)
    moreover have "length xs - (i + limit) < fuel" using Suc.prems assms(2) lt by simp
    ultimately have "concat (read_pages xs (Some ?c) limit fuel) = drop (i + limit) xs"
      by (rule Suc.IH)
    with Suc.prems assms(2) lt show ?thesis
      using append_take_drop_id [of limit "drop i xs"]
      by (simp add: page_loop_start add.commute)
  qed
qed

text \<open>
  C35. Reading the history page by page delivers every matching payment exactly once and
  in order, for every page size: the pages a client gets by following \<open>next_cursor\<close>
  concatenate to the sorted list.
\<close>

theorem pages_cover_the_history:
  assumes "distinct (map p_order_id sorted_list)" and "0 < limit" and "length sorted_list < fuel"
  shows "concat (read_pages sorted_list None limit fuel) = sorted_list"
  using read_pages_from [OF assms(1,2), of None 0 fuel] assms(3) by (simp add: page_start_def)

section \<open>The history queries\<close>

text \<open>What \<open>sort_unstable_by\<close> guarantees for the two orders used.\<close>

definition sorts :: "'w host \<Rightarrow> bool" where
  "sorts h \<longleftrightarrow> (\<forall>fld ord xs.
     mset (sort_payments h (payment_cmp fld ord) xs) = mset xs \<and>
     sorted_wrt (\<lambda>a b. payment_cmp fld ord a b \<le> 0) (sort_payments h (payment_cmp fld ord) xs))"

lemma set_load_payments:
  "p \<in> set (load_payments ids f s) \<longleftrightarrow> matches_filter p f \<and> (\<exists>i \<in> set ids. st_get_payment i s = Some p)"
  by (force simp: load_payments_def List.map_filter_def)

text \<open>
  C36. A page of a merchant's history: only the merchant can ask for it, it has at most
  \<open>limit \<le> 100\<close> entries, all of them stored payments of the merchant's index that pass
  the filter, sorted by the requested field and order, and \<open>total_matching\<close> counts
  all matches and not just the page.
\<close>

theorem merchant_history_page:
  assumes run: "get_merchant_payment_history h merch cursor limit f fld ord s = (Ok page, t)"
    and "sorts h"
  shows "merch \<in> auths s \<and> t = s \<and> length (ppg_payments page) \<le> limit \<and> limit \<le> MAX_PAGE_LIMIT \<and>
    sorted_wrt (\<lambda>a b. payment_cmp fld ord a b \<le> 0) (ppg_payments page) \<and>
    (\<forall>p \<in> set (ppg_payments page). matches_filter p f \<and>
       (\<exists>i \<in> set (st_get_merchant_payment_ids merch s). st_get_payment i s = Some p)) \<and>
    ppg_total_matching page = length (load_payments (st_get_merchant_payment_ids merch s) f s)"
proof -
  let ?found = "load_payments (st_get_merchant_payment_ids merch s) f s"
  let ?xs = "sort_payments h (payment_cmp fld ord) ?found"
  from run have auth: "merch \<in> auths s" "t = s" "limit \<le> MAX_PAGE_LIMIT"
    and page: "ppg_payments page = take limit (drop (page_start cursor ?xs) ?xs)"
    and total: "ppg_total_matching page = length ?xs"
    by (auto simp: get_merchant_payment_history_def build_page_def page_loop_start exec_simps Let_def
        split: prod.splits)
  from \<open>sorts h\<close> have perm: "mset ?xs = mset ?found"
    and "sorted_wrt (\<lambda>a b. payment_cmp fld ord a b \<le> 0) ?xs" by (simp_all add: sorts_def)
  then have "sorted_wrt (\<lambda>a b. payment_cmp fld ord a b \<le> 0) (ppg_payments page)"
    unfolding page by (intro sorted_wrt_take sorted_wrt_drop)
  moreover have "set (ppg_payments page) \<subseteq> set ?found"
    using mset_eq_setD [OF perm] page set_take_subset set_drop_subset by fastforce
  ultimately show ?thesis
    using auth total perm page by (auto simp: set_load_payments dest: mset_eq_length)
qed
section \<open>Reading the history to its end\<close>

text \<open>The same client on the entry point: it asks for page after page in one state of the ledger.\<close>

fun read_history ::
  "'w host \<Rightarrow> address \<Rightarrow> nat \<Rightarrow> payment_filter option \<Rightarrow> sort_field \<Rightarrow> sort_order \<Rightarrow> 'w env \<Rightarrow>
   string option \<Rightarrow> nat \<Rightarrow> payment_page list" where
  "read_history h m limit f fld ord s cursor 0 = []"
| "read_history h m limit f fld ord s cursor (Suc fuel) =
     (case get_merchant_payment_history h m cursor limit f fld ord s of
        (Ok page, _) \<Rightarrow> page # (case ppg_next_cursor page of
            None \<Rightarrow> [] | Some c \<Rightarrow> read_history h m limit f fld ord s (Some c) fuel)
      | _ \<Rightarrow> [])"

definition merchant_history ::
  "'w host \<Rightarrow> address \<Rightarrow> payment_filter option \<Rightarrow> sort_field \<Rightarrow> sort_order \<Rightarrow> 'w env \<Rightarrow> payment_order list" where
  "merchant_history h m f fld ord s =
     sort_payments h (payment_cmp fld ord) (load_payments (st_get_merchant_payment_ids m s) f s)"

lemma history_page_run:
  assumes "m \<in> auths s" and "0 < limit" and "limit \<le> MAX_PAGE_LIMIT"
  shows "get_merchant_payment_history h m cursor limit f fld ord s =
    (let xs = merchant_history h m f fld ord s; rest = drop (page_start cursor xs) xs
     in (Ok \<lparr>ppg_payments = take limit rest,
           ppg_next_cursor = (if length rest \<le> limit then None else Some (p_order_id (rest ! (limit - 1)))),
           ppg_total_matching = length xs\<rparr>, s))"
  using assms
  by (simp add: get_merchant_payment_history_def build_page_def merchant_history_def exec_comp
      require_valid_limit_def page_loop_start Let_def)

lemma pages_split: "0 < limit \<Longrightarrow> limit < n \<Longrightarrow>
   Suc (max 1 ((n - limit + limit - 1) div limit)) = max 1 ((n + limit - 1) div (limit :: nat))"
proof -
  assume l: "0 < limit" "limit < n"
  then have "n + limit - 1 = (n - 1) + limit" by simp
  then have "(n + limit - 1) div limit = Suc ((n - 1) div limit)" using l(1) by (metis Suc_eq_plus1 div_add_self2 less_not_refl)
  moreover have "1 \<le> (n - 1) div limit" using l by (simp add: Suc_le_eq div_greater_zero_iff)
  ultimately show ?thesis using l by simp
qed

lemma read_history_from:
  fixes h f fld ord m s
  defines "xs \<equiv> merchant_history h m f fld ord s"
  assumes "distinct (map p_order_id xs)" and lim: "m \<in> auths s" "0 < limit" "limit \<le> MAX_PAGE_LIMIT"
    and "page_start cursor xs = i" and "length xs - i < fuel"
  shows "concat (map ppg_payments (read_history h m limit f fld ord s cursor fuel)) = drop i xs \<and>
    read_history h m limit f fld ord s cursor fuel \<noteq> [] \<and>
    ppg_next_cursor (last (read_history h m limit f fld ord s cursor fuel)) = None \<and>
    length (read_history h m limit f fld ord s cursor fuel) = max 1 ((length xs - i + limit - 1) div limit)"
  using assms(6,7)
proof (induction fuel arbitrary: cursor i)
  case 0
  then show ?case by simp
next
  case (Suc fuel)
  note run = history_page_run [OF lim, of h cursor f fld ord, folded xs_def]
  show ?case
  proof (cases "length xs - i \<le> limit")
    case True
    then have "(length xs - i + limit - 1) div limit < 2"
      using lim(2) by (intro less_mult_imp_div_less) simp
    then have "max 1 ((length xs - i + limit - 1) div limit) = 1" by simp
    with True Suc.prems show ?thesis by (simp add: run Let_def)
  next
    case False
    then have lt: "i + limit < length xs" by simp
    let ?c = "p_order_id (xs ! (i + (limit - 1)))"
    have "page_start (Some ?c) xs = i + limit"
      using assms(2) lim(2) lt position_of_nth [of xs "i + (limit - 1)"] by (simp add: page_start_def)
    moreover have "length xs - (i + limit) < fuel" using Suc.prems lim(2) lt by simp
    ultimately have "concat (map ppg_payments (read_history h m limit f fld ord s (Some ?c) fuel)) = drop (i + limit) xs \<and>
        read_history h m limit f fld ord s (Some ?c) fuel \<noteq> [] \<and>
        ppg_next_cursor (last (read_history h m limit f fld ord s (Some ?c) fuel)) = None \<and>
        length (read_history h m limit f fld ord s (Some ?c) fuel) =
          max 1 ((length xs - (i + limit) + limit - 1) div limit)"
      by (rule Suc.IH)
    moreover have "read_history h m limit f fld ord s cursor (Suc fuel) =
        \<lparr>ppg_payments = take limit (drop i xs), ppg_next_cursor = Some ?c, ppg_total_matching = length xs\<rparr> #
        read_history h m limit f fld ord s (Some ?c) fuel"
      using Suc.prems lt lim(2) by (simp add: run Let_def)
    ultimately show ?thesis
      using pages_split [OF lim(2), of "length xs - i"] append_take_drop_id [of limit "drop i xs"] lt
      by (simp add: add.commute)
  qed
qed

lemma history_ids_distinct:
  assumes "sorts h" and "payments.well_keyed s" and "distinct (st_get_merchant_payment_ids m s)"
  shows "distinct (map p_order_id (merchant_history h m f fld ord s))"
proof -
  have "distinct (map p_order_id (load_payments ids f s)) \<and>
      p_order_id ` set (load_payments ids f s) \<subseteq> set ids" if "distinct ids" for ids
    using that payments.well_keyedD [OF assms(2)]
    by (induction ids) (auto simp: load_payments_def List.map_filter_simps split: option.splits)
  then have "distinct (map p_order_id (load_payments (st_get_merchant_payment_ids m s) f s))"
    using assms(3) by blast
  moreover have "mset (map p_order_id (merchant_history h m f fld ord s)) =
      mset (map p_order_id (load_payments (st_get_merchant_payment_ids m s) f s))"
    using assms(1) by (simp add: merchant_history_def sorts_def)
  ultimately show ?thesis by (metis mset_eq_imp_distinct_iff)
qed

text \<open>
  C19. Reading a merchant's history page by page through the entry point ends, after as
  many pages as the matches fill (one at least), the last of which has no cursor; and the
  pages concatenate to the sorted matches, each once. It needs the index to list no order
  id twice.
\<close>

theorem history_reading_ends:
  assumes "sorts h" and "payments.well_keyed s" and "distinct (st_get_merchant_payment_ids m s)"
    and "m \<in> auths s" and "0 < limit" and "limit \<le> MAX_PAGE_LIMIT"
    and "length (merchant_history h m f fld ord s) < fuel"
  shows "length (read_history h m limit f fld ord s None fuel) =
      max 1 ((length (merchant_history h m f fld ord s) + limit - 1) div limit) \<and>
    ppg_next_cursor (last (read_history h m limit f fld ord s None fuel)) = None \<and>
    concat (map ppg_payments (read_history h m limit f fld ord s None fuel)) = merchant_history h m f fld ord s"
  using read_history_from [OF history_ids_distinct [OF assms(1-3)] assms(4-6), where cursor = None and i = 0 and fuel = fuel] assms(7)
  by (simp add: page_start_def)

text \<open>
  When the index does list an id twice, the cursor leads back to its first entry, and the
  client that follows it never gets to the end.
\<close>

lemma read_history_stuck:
  assumes "m \<in> auths s" "0 < limit" "limit \<le> MAX_PAGE_LIMIT"
    and "position_of c (merchant_history h m f fld ord s) = Some i"
    and "i + limit + 1 < length (merchant_history h m f fld ord s)"
    and "p_order_id (merchant_history h m f fld ord s ! (i + limit)) = c"
  shows "length (read_history h m limit f fld ord s (Some c) fuel) = fuel"
proof (induction fuel)
  case (Suc fuel)
  have "merchant_history h m f fld ord s ! Suc (i + (limit - 1)) = merchant_history h m f fld ord s ! (i + limit)"
    using assms(2) by simp
  moreover have "\<not> length (merchant_history h m f fld ord s) - Suc i \<le> limit" using assms(5) by simp
  ultimately show ?case using Suc assms(4-6)
    by (simp add: history_page_run [OF assms(1-3)] Let_def page_start_def)
qed simp

section \<open>Pages of the merchant list\<close>

lemma merchant_page_loop_spec:
  "merchant_page_loop ms i limit r =
    (r @ take (limit - i) ms, if length ms \<le> limit - i then None else Some (m_address (ms ! (limit - i))))"
  by (induction ms arbitrary: i r) (auto simp: take_Cons' nth_Cons' Suc_diff_le not_le)

lemma skip_loop_take: "skip_loop as c False look = List.map_filter look as"
  by (induction as) (auto simp: List.map_filter_simps split: option.splits)

lemma skip_loop_skip:
  "skip_loop as (Some c) True look = List.map_filter look (tl (dropWhile (\<lambda>a. a \<noteq> c) as))"
  by (induction as) (auto simp: skip_loop_take List.map_filter_simps)

text \<open>A cursor that names the \<open>j\<close>-th merchant makes the next page start after it.\<close>

lemma map_filter_keys: "m \<in> set (List.map_filter look as) \<Longrightarrow> \<exists>a \<in> set as. look a = Some m"
  by (auto simp: List.map_filter_def)

lemma skip_loop_after:
  assumes "distinct as" and keyed: "\<And>a m. look a = Some m \<Longrightarrow> m_address m = a"
    and "j < length (List.map_filter look as)"
  shows "skip_loop as (Some (m_address (List.map_filter look as ! j))) True look =
    drop (Suc j) (List.map_filter look as)"
  using assms(1,3)
proof (induction as arbitrary: j)
  case Nil
  then show ?case by (simp add: List.map_filter_simps)
next
  case (Cons a as)
  have later: "m_address (List.map_filter look as ! i) \<noteq> a" if "i < length (List.map_filter look as)" for i
    using map_filter_keys [OF nth_mem [OF that]] keyed Cons.prems(1) by force
  show ?case
  proof (cases "look a")
    case None
    with Cons later show ?thesis by (simp add: List.map_filter_simps)
  next
    case (Some m)
    with Cons later keyed show ?thesis
      by (cases j) (auto simp: List.map_filter_simps skip_loop_take)
  qed
qed

text \<open>The registered merchants in the order of the list, and the client that reads them page by page.\<close>

definition listed_merchants :: "'w env \<Rightarrow> merchant list" where
  "listed_merchants s = List.map_filter (\<lambda>a. st_get_merchant a s) (st_get_merchant_list s)"

fun read_merchants :: "address \<Rightarrow> nat \<Rightarrow> 'w env \<Rightarrow> address option \<Rightarrow> nat \<Rightarrow> merchant_page list" where
  "read_merchants admin limit s cursor 0 = []"
| "read_merchants admin limit s cursor (Suc fuel) =
     (case get_merchants admin cursor limit s of
        (Ok page, _) \<Rightarrow> page # (case mpg_next_cursor page of
            None \<Rightarrow> [] | Some c \<Rightarrow> read_merchants admin limit s (Some c) fuel)
      | _ \<Rightarrow> [])"

lemma get_merchants_run:
  assumes "admin \<in> auths s" and "st_get_admin s = Some admin" and "\<not> st_is_auth_locked_out admin s"
    and "0 < limit" and "limit \<le> MAX_PAGE_LIMIT"
    and "skip_loop (st_get_merchant_list s) cursor (cursor \<noteq> None) (\<lambda>a. st_get_merchant a s) = rest"
  shows "fst (get_merchants admin cursor limit s) =
    Ok \<lparr>mpg_merchants = take limit rest,
        mpg_next_cursor = (if length rest \<le> limit then None else Some (m_address (rest ! limit))),
        mpg_total = length rest\<rparr>"
proof -
  have "(require_admin_rate_limited admin) s = (Ok (), st_clear_auth_fail_count admin s)"
    using assms(1-3) by (simp add: require_admin_rate_limited_Ok_iff)
  moreover have "st_get_merchant_list (st_clear_auth_fail_count admin s) = st_get_merchant_list s"
    "st_get_merchant a (st_clear_auth_fail_count admin s) = st_get_merchant a s" for a
    by (simp_all add: storage_defs)
  ultimately show ?thesis
    using assms(4-6)
    by (simp add: get_merchants_def build_merchant_page_def merchant_page_loop_spec require_valid_limit_def exec_comp)
qed

lemma read_merchants_from:
  assumes ok: "admin \<in> auths s" "st_get_admin s = Some admin" "\<not> st_is_auth_locked_out admin s"
    and lim: "0 < limit" "limit \<le> MAX_PAGE_LIMIT"
    and list: "distinct (st_get_merchant_list s)" "merchants.well_keyed s"
    and "skip_loop (st_get_merchant_list s) cursor (cursor \<noteq> None) (\<lambda>a. st_get_merchant a s) =
      drop i (listed_merchants s)"
    and "i \<le> length (listed_merchants s)"
    and "(length (listed_merchants s) - i) div Suc limit < fuel"
  shows "length (read_merchants admin limit s cursor fuel) = Suc ((length (listed_merchants s) - i) div Suc limit) \<and>
    (\<forall>k < length (read_merchants admin limit s cursor fuel).
       mpg_merchants (read_merchants admin limit s cursor fuel ! k) =
         take limit (drop (i + k * Suc limit) (listed_merchants s)) \<and>
       mpg_next_cursor (read_merchants admin limit s cursor fuel ! k) =
         (if Suc k < length (read_merchants admin limit s cursor fuel)
          then Some (m_address (listed_merchants s ! (i + k * Suc limit + limit))) else None))"
  using assms(8-)
proof (induction fuel arbitrary: cursor i)
  case 0
  then show ?case by simp
next
  case (Suc fuel)
  let ?ms = "listed_merchants s" and ?read = "read_merchants admin limit s"
  obtain st where page: "get_merchants admin cursor limit s = (Ok \<lparr>mpg_merchants = take limit (drop i ?ms),
      mpg_next_cursor = (if length ?ms - i \<le> limit then None else Some (m_address (drop i ?ms ! limit))),
      mpg_total = length ?ms - i\<rparr>, st)"
    using get_merchants_run [OF ok lim Suc.prems(1)]
    by (cases "get_merchants admin cursor limit s") simp
  show ?case
  proof (cases "length ?ms - i \<le> limit")
    case True
    then show ?thesis by (simp add: page)
  next
    case False
    let ?j = "i + limit" and ?c = "m_address (?ms ! (i + limit))"
    from False have j: "?j < length ?ms" by simp
    have keyed: "m_address m = a" if "st_get_merchant a s = Some m" for a m
      using merchants.well_keyedD [OF list(2) that] .
    have next_start: "skip_loop (st_get_merchant_list s) (Some ?c) (Some ?c \<noteq> None) (\<lambda>a. st_get_merchant a s) =
        drop (Suc ?j) ?ms"
      using skip_loop_after [OF list(1) keyed j [unfolded listed_merchants_def]]
      by (simp add: listed_merchants_def)
    have count: "(length ?ms - i) div Suc limit = Suc ((length ?ms - Suc ?j) div Suc limit)"
    proof -
      from j have "length ?ms - i = (length ?ms - Suc ?j) + Suc limit" by simp
      then show ?thesis by (metis add.commute div_add_self1 nat.distinct(1) plus_1_eq_Suc)
    qed
    have read: "?read cursor (Suc fuel) = \<lparr>mpg_merchants = take limit (drop i ?ms), mpg_next_cursor = Some ?c,
        mpg_total = length ?ms - i\<rparr> # ?read (Some ?c) fuel"
      using False j by (simp add: page)
    note IH = Suc.IH [OF next_start]
    show ?thesis
      unfolding read
      using IH j count Suc.prems(3)
      by (auto simp: nth_Cons' less_Suc_eq_0_disj algebra_simps)
  qed
qed

text \<open>Pages of \<open>l\<close> entries that start \<open>l + 1\<close> apart hold all positions but every \<open>l + 1\<close>-st.\<close>

lemma in_page_iff:
  assumes "distinct xs" and "i < length xs"
  shows "xs ! i \<in> set (take l (drop m xs)) \<longleftrightarrow> m \<le> i \<and> i < m + l"
proof
  assume "xs ! i \<in> set (take l (drop m xs))"
  then obtain j where j: "j < l" "m + j < length xs" "xs ! i = xs ! (m + j)"
    by (auto simp: in_set_conv_nth)
  then have "i = m + j" using assms nth_eq_iff_index_eq by blast
  with j show "m \<le> i \<and> i < m + l" by simp
next
  assume i: "m \<le> i \<and> i < m + l"
  then have "take l (drop m xs) ! (i - m) = xs ! i" "i - m < length (take l (drop m xs))"
    using assms(2) by auto
  then show "xs ! i \<in> set (take l (drop m xs))" by (metis nth_mem)
qed

lemma spaced_pages:
  assumes "distinct xs" and i: "i < length xs"
  shows "(\<exists>k \<le> length xs div Suc l. xs ! i \<in> set (take l (drop (k * Suc l) xs))) \<longleftrightarrow> i mod Suc l \<noteq> l"
proof
  assume "\<exists>k \<le> length xs div Suc l. xs ! i \<in> set (take l (drop (k * Suc l) xs))"
  then obtain k where k: "k * Suc l \<le> i" "i < k * Suc l + l"
    using in_page_iff [OF assms] by blast
  define j where "j = i - k * Suc l"
  with k have "i = j + k * Suc l" "j < l" by linarith+
  then have "i mod Suc l = j mod Suc l" by (simp only: mod_mult_self1)
  with \<open>j < l\<close> show "i mod Suc l \<noteq> l" by simp
next
  assume "i mod Suc l \<noteq> l"
  moreover have "i mod Suc l < Suc l" by simp
  ultimately have "i mod Suc l < l" by linarith
  then have "(i div Suc l) * Suc l \<le> i \<and> i < (i div Suc l) * Suc l + l"
    using div_mult_mod_eq [of i "Suc l"] by linarith
  then have "xs ! i \<in> set (take l (drop (i div Suc l * Suc l) xs))"
    using in_page_iff [OF assms] by blast
  moreover have "i div Suc l \<le> length xs div Suc l" using i by (intro div_le_mono) simp
  ultimately show "\<exists>k \<le> length xs div Suc l. xs ! i \<in> set (take l (drop (k * Suc l) xs))" by blast
qed

lemma distinct_listed_merchants:
  assumes "distinct (st_get_merchant_list s)" and "merchants.well_keyed s"
  shows "distinct (listed_merchants s)"
proof -
  have "distinct (List.map_filter (\<lambda>a. st_get_merchant a s) as)" if "distinct as" for as
    using that
  proof (induction as)
    case (Cons a as)
    have "m \<notin> set (List.map_filter (\<lambda>a. st_get_merchant a s) as)" if "st_get_merchant a s = Some m" for m
    proof
      assume "m \<in> set (List.map_filter (\<lambda>a. st_get_merchant a s) as)"
      then obtain b where b: "b \<in> set as" "st_get_merchant b s = Some m" using map_filter_keys by metis
      have "a = b"
        using merchants.well_keyedD [OF assms(2) that] merchants.well_keyedD [OF assms(2) b(2)] by simp
      with b(1) Cons.prems show False by simp
    qed
    with Cons show ?case by (simp add: List.map_filter_simps split: option.split)
  qed (simp add: List.map_filter_simps)
  with assms(1) show ?thesis by (simp add: listed_merchants_def)
qed

text \<open>
  C38. Reading the merchant list page by page loses every merchant that a cursor names.
  \<open>next_cursor\<close> is the first merchant that did not fit, the next page starts after it, so the
  \<open>k\<close>-th page holds the \<open>limit\<close> merchants from position \<open>k * (limit + 1)\<close> on, and in
  the whole reading, however many pages it takes, exactly the merchants at the positions
  \<open>limit\<close>, \<open>2 * limit + 1\<close>, \<open>\<dots>\<close> are on no page.
\<close>

theorem merchant_pages_drop_the_cursor:
  assumes "admin \<in> auths s" and "st_get_admin s = Some admin" and "\<not> st_is_auth_locked_out admin s"
    and "0 < limit" and "limit \<le> MAX_PAGE_LIMIT"
    and "distinct (st_get_merchant_list s)" and "merchants.well_keyed s"
    and "ms = listed_merchants s" and "length ms div (limit + 1) < fuel"
    and "pages = read_merchants admin limit s None fuel"
  shows "length pages = length ms div (limit + 1) + 1 \<and>
    (\<forall>k < length pages. mpg_merchants (pages ! k) = take limit (drop (k * (limit + 1)) ms) \<and>
       mpg_next_cursor (pages ! k) =
         (if k + 1 < length pages then Some (m_address (ms ! (k * (limit + 1) + limit))) else None)) \<and>
    (\<forall>i < length ms. ms ! i \<in> set (concat (map mpg_merchants pages)) \<longleftrightarrow> i mod (limit + 1) \<noteq> limit)"
proof -
  have "skip_loop (st_get_merchant_list s) None (None \<noteq> (None :: address option)) (\<lambda>a. st_get_merchant a s) =
      drop 0 (listed_merchants s)"
    by (simp add: skip_loop_take listed_merchants_def)
  from read_merchants_from [OF assms(1-7) this, of fuel] assms(8-)
  have len: "length pages = length ms div Suc limit + 1"
    and page: "\<And>k. k < length pages \<Longrightarrow> mpg_merchants (pages ! k) = take limit (drop (k * Suc limit) ms) \<and>
      mpg_next_cursor (pages ! k) =
        (if k + 1 < length pages then Some (m_address (ms ! (k * Suc limit + limit))) else None)"
    by simp_all
  have ms: "distinct ms" using distinct_listed_merchants [OF assms(6,7)] assms(8) by simp
  have "ms ! i \<in> set (concat (map mpg_merchants pages)) \<longleftrightarrow> i mod Suc limit \<noteq> limit" if i: "i < length ms" for i
  proof -
    have "ms ! i \<in> set (concat (map mpg_merchants pages)) \<longleftrightarrow>
        (\<exists>k < length pages. ms ! i \<in> set (mpg_merchants (pages ! k)))"
      by (auto simp: in_set_conv_nth) (metis nth_mem in_set_conv_nth)+
    also have "\<dots> \<longleftrightarrow> (\<exists>k \<le> length ms div Suc limit. ms ! i \<in> set (take limit (drop (k * Suc limit) ms)))"
      using page len by (auto simp: less_Suc_eq_le)
    finally show ?thesis using spaced_pages [OF ms i] by simp
  qed
  with len page show ?thesis by simp
qed

section \<open>Examples\<close>

definition paid :: "string \<Rightarrow> int \<Rightarrow> payment_order" where
  "paid k n =
     \<lparr>p_order_id = k, p_merchant_address = Addr 1, p_payer = Addr 2, p_token = Addr 9, p_amount = n,
      p_version = 0, p_status = PCompleted, p_paid_at = 0, p_refunded_amount = 0, p_memo = '''',
      p_tags = None, p_platform_fee = 0\<rparr>"

definition mall :: "book env" where
  "mall = (deployed rich {Addr 1} 0)\<lparr>persistent_st := empty_persistent
     \<lparr>k_Merchant := (\<lambda>a. if a \<in> {Addr 1, Addr 2, Addr 3} then Some (sample_merchant a) else None),
      k_Payment := (\<lambda>_. None)(''a'' := Some (paid ''a'' 30), ''b'' := Some (paid ''b'' 10)),
      k_MP := (\<lambda>_. None)(Addr 1 := Some [''a'', ''b''])\<rparr>\<rparr>"

theorem pages_cover_the_history_witness:
  "concat (read_pages [paid ''a'' 1, paid ''b'' 2, paid ''c'' 3] None 2 4) =
     [paid ''a'' 1, paid ''b'' 2, paid ''c'' 3]"
  by (rule pages_cover_the_history) (simp_all add: paid_def)

lemma sorted_insort_cmp:
  assumes total: "\<And>a b. cmp a b \<le> (0 :: int) \<or> cmp b a \<le> 0"
    and trans: "\<And>a b c. cmp a b \<le> 0 \<Longrightarrow> cmp b c \<le> 0 \<Longrightarrow> cmp a c \<le> 0"
    and "sorted_wrt (\<lambda>a b. cmp a b \<le> 0) xs"
  shows "sorted_wrt (\<lambda>a b. cmp a b \<le> 0) (insort_cmp cmp x xs) \<and> mset (insort_cmp cmp x xs) = {#x#} + mset xs"
  using assms(3)
proof (induction xs)
  case Nil
  then show ?case by simp
next
  case (Cons y ys)
  then have "mset (insort_cmp cmp x ys) = mset (x # ys)" by simp
  then have "set (insort_cmp cmp x ys) = set (x # ys)" by (rule mset_eq_setD)
  with Cons total trans show ?case by auto
qed

lemma payment_cmp_total: "payment_cmp fld ord a b \<le> 0 \<or> payment_cmp fld ord b a \<le> 0"
  by (auto simp: payment_cmp_def int_cmp_def split: sort_field.splits sort_order.splits)

lemma payment_cmp_trans:
  "payment_cmp fld ord a b \<le> 0 \<Longrightarrow> payment_cmp fld ord b c \<le> 0 \<Longrightarrow> payment_cmp fld ord a c \<le> 0"
  by (auto simp: payment_cmp_def int_cmp_def split: sort_field.splits sort_order.splits if_splits)

lemma sorts_sample_host: "sorts sample_host"
proof -
  have "sorted_wrt (\<lambda>a b. payment_cmp fld ord a b \<le> 0) (sort_cmp (payment_cmp fld ord) xs) \<and>
      mset (sort_cmp (payment_cmp fld ord) xs) = mset xs" for fld ord xs
    by (induction xs)
      (auto simp: sort_cmp_def sorted_insort_cmp [OF payment_cmp_total payment_cmp_trans])
  then show ?thesis by (simp add: sorts_def sample_host_def)
qed

theorem merchant_history_page_witness:
  "\<exists>page. get_merchant_payment_history sample_host (Addr 1) None 10 None AmountField Ascending mall =
     (Ok page, mall) \<and> sorted_wrt (\<lambda>a b. payment_cmp AmountField Ascending a b \<le> 0) (ppg_payments page)"
proof -
  have "is_Ok (fst (get_merchant_payment_history sample_host (Addr 1) None 10 None AmountField Ascending mall))"
    by (simp add: get_merchant_payment_history_def build_page_def helper_defs exec_comp const_defs
        mall_def deployed_def Let_def split: prod.splits)
  from is_Ok_ex [OF this] obtain page where run:
    "get_merchant_payment_history sample_host (Addr 1) None 10 None AmountField Ascending mall =
      (Ok page, snd (get_merchant_payment_history sample_host (Addr 1) None 10 None AmountField Ascending mall))"
    by blast
  with merchant_history_page [OF run sorts_sample_host] show ?thesis by auto
qed

text \<open>Five merchants, read two a page: the third one is on neither page.\<close>

definition plaza :: "book env" where
  "plaza = (let s = shop {Addr 5} 0 in s
     \<lparr>instance_st := (instance_st s)\<lparr>i_ML := Some [Addr 1, Addr 2, Addr 3, Addr 4, Addr 6]\<rparr>,
      persistent_st := (persistent_st s)\<lparr>k_Merchant := (\<lambda>a. Some (sample_merchant a))\<rparr>\<rparr>)"

theorem merchant_pages_drop_the_cursor_witness:
  "map (map m_address \<circ> mpg_merchants) (read_merchants (Addr 5) 2 plaza None 9) = [[Addr 1, Addr 2], [Addr 4, Addr 6]] \<and>
   mpg_next_cursor (read_merchants (Addr 5) 2 plaza None 9 ! 0) = Some (Addr 3)"
proof -
  let ?pages = "read_merchants (Addr 5) 2 plaza None 9"
  have ms: "listed_merchants plaza = map sample_merchant [Addr 1, Addr 2, Addr 3, Addr 4, Addr 6]"
  proof -
    have "st_get_merchant_list plaza = [Addr 1, Addr 2, Addr 3, Addr 4, Addr 6]"
      "(\<lambda>a. st_get_merchant a plaza) = (\<lambda>a. Some (sample_merchant a))"
      by (simp_all add: plaza_def storage_defs Let_def unwrap_or_def)
    then show ?thesis by (simp add: listed_merchants_def List.map_filter_simps)
  qed
  have "merchants.well_keyed plaza"
    by (simp add: merchants.well_keyed_def storage_defs plaza_def sample_merchant_def Let_def)
  moreover have "Addr 5 \<in> auths plaza" "st_get_admin plaza = Some (Addr 5)" "\<not> st_is_auth_locked_out (Addr 5) plaza"
    "distinct (st_get_merchant_list plaza)"
    by (simp_all add: plaza_def storage_defs shop_defs reference_defs unwrap_or_def Let_def)
  ultimately have two: "length ?pages = 2"
    and page: "\<forall>k < 2. mpg_merchants (?pages ! k) = take 2 (drop (k * 3) (listed_merchants plaza)) \<and>
      mpg_next_cursor (?pages ! k) = (if k + 1 < 2 then Some (m_address (listed_merchants plaza ! (k * 3 + 2))) else None)"
    using merchant_pages_drop_the_cursor [OF _ _ _ _ _ _ _ refl _ refl, of "Addr 5" plaza 2 9]
    by (simp_all add: const_defs ms)
  obtain p q where pq: "?pages = [p, q]" using two by (auto simp: numeral_2_eq_2 length_Suc_conv)
  have "mpg_merchants p = map sample_merchant [Addr 1, Addr 2]" "mpg_next_cursor p = Some (Addr 3)"
    "mpg_merchants q = map sample_merchant [Addr 4, Addr 6]"
    using spec [OF page, of 0] spec [OF page, of 1] unfolding pq ms by (simp_all add: sample_merchant_def)
  with pq show ?thesis by (simp add: sample_merchant_def)
qed

theorem history_reading_ends_witness:
  "length (read_history sample_host (Addr 1) 1 None AmountField Ascending mall None 3) = 2"
proof -
  have wk: "payments.well_keyed mall"
    by (auto simp: payments.well_keyed_def storage_defs mall_def paid_def)
  have ids: "st_get_merchant_payment_ids (Addr 1) mall = [''a'', ''b'']" and auth: "Addr 1 \<in> auths mall"
    by (simp_all add: mall_def storage_defs unwrap_or_def deployed_def)
  have "mset (merchant_history sample_host (Addr 1) None AmountField Ascending mall) =
      mset (load_payments (st_get_merchant_payment_ids (Addr 1) mall) None mall)"
    using sorts_sample_host by (simp add: merchant_history_def sorts_def)
  then have "length (merchant_history sample_host (Addr 1) None AmountField Ascending mall) =
      length (load_payments (st_get_merchant_payment_ids (Addr 1) mall) None mall)"
    by (rule mset_eq_length)
  also have "\<dots> = 2"
    unfolding ids by (simp add: load_payments_def matches_filter_def st_get_payment_def mall_def paid_def
        List.map_filter_simps)
  finally have "length (merchant_history sample_host (Addr 1) None AmountField Ascending mall) = 2" .
  moreover have "distinct (st_get_merchant_payment_ids (Addr 1) mall)" unfolding ids by simp
  ultimately show ?thesis
    using history_reading_ends [OF sorts_sample_host wk _ auth, of 1 None AmountField Ascending 3]
    by (simp add: const_defs)
qed

end
