(* ===== verification/Refunds.thy ===== *)
theory Refunds
  imports Payments
begin

text \<open>
  The refund life cycle (initiate, approve or reject, execute) and the retention
  cleanup, then the disputes over it, whose resolution can force a refund.
\<close>

definition MAX_REFUNDS_PER_PAYMENT :: nat where [const_defs]: "MAX_REFUNDS_PER_PAYMENT = 10"

section \<open>Refunds\<close>

definition initiate_refund ::
  "address \<Rightarrow> string \<Rightarrow> string \<Rightarrow> int \<Rightarrow> string \<Rightarrow> ('w, unit) contract" where
  "initiate_refund caller refund_id order_id amount reason =
     bind require_not_paused (\<lambda>_.
     bind (require_auth caller) (\<lambda>_.
     bind (require_positive amount) (\<lambda>_.
     bind (require_min_refund_amount amount) (\<lambda>_.
     bind (require_valid_id refund_id) (\<lambda>_.
     bind (gets (st_get_refund refund_id)) (\<lambda>existing.
     bind (guard (existing = None) RefundAlreadyExists) (\<lambda>_.
     bind (require_some (st_get_payment order_id) PaymentNotFound) (\<lambda>p.
     bind (gets (st_get_order_refund_ids order_id)) (\<lambda>existing_refund_ids.
     bind (guard (\<not> MAX_REFUNDS_PER_PAYMENT \<le> length existing_refund_ids) RefundLimitExceeded) (\<lambda>_.
     bind (guard (\<not> (caller \<noteq> p_payer p \<and> caller \<noteq> p_merchant_address p)) Unauthorized) (\<lambda>_.
     bind (gets now) (\<lambda>ts.
     bind (gets st_get_refund_window) (\<lambda>refund_window.
     bind (u64_add (p_paid_at p) refund_window) (\<lambda>deadline.
     bind (guard (\<not> deadline < ts) RefundWindowExpired) (\<lambda>_.
     bind (i128_add (p_refunded_amount p) amount) (\<lambda>total.
     bind (guard (\<not> p_amount p < total) RefundExceedsOriginal) (\<lambda>_.
     bind (gets st_get_min_refund_amount) (\<lambda>min_refund.
     bind (guard (\<not> (0 < min_refund \<and> amount < min_refund)) RefundBelowMinimum) (\<lambda>_.
     bind (modify (st_set_refund
       \<lparr>r_refund_id = refund_id, r_order_id = order_id, r_initiator = caller, r_amount = amount,
        r_reason = reason, r_status = RPending, r_created_at = ts\<rparr>)) (\<lambda>_.
     bind (modify (st_add_order_refund_id order_id refund_id)) (\<lambda>_.
     publish T_refund_initiated (Some (p_merchant_address p)) [StrV refund_id, StrV order_id])))))))))))))))))))))"

definition get_refunds_for_order :: "address \<Rightarrow> string \<Rightarrow> ('w, refund_record list) contract" where
  "get_refunds_for_order caller order_id =
     bind (require_auth caller) (\<lambda>_.
     bind (require_some (st_get_payment order_id) PaymentNotFound) (\<lambda>p.
     bind (gets (is_admin caller)) (\<lambda>adm.
     bind (guard (\<not> (\<not> adm \<and> caller \<noteq> p_payer p \<and> caller \<noteq> p_merchant_address p)) Unauthorized) (\<lambda>_.
     bind (gets (st_get_order_refund_ids order_id)) (\<lambda>refund_ids.
     gets (\<lambda>s. List.map_filter (\<lambda>i. st_get_refund i s) refund_ids))))))"

definition approve_refund :: "address \<Rightarrow> string \<Rightarrow> ('w, unit) contract" where
  "approve_refund caller refund_id =
     bind require_not_paused (\<lambda>_.
     bind (require_some (st_get_refund refund_id) RefundNotFound) (\<lambda>r.
     bind (require_some (st_get_payment (r_order_id r)) PaymentNotFound) (\<lambda>p.
     bind (require_admin_or caller (p_merchant_address p)) (\<lambda>_.
     bind (guard (r_status r = RPending) RefundAlreadyCompleted) (\<lambda>_.
     bind (modify (st_set_refund (r\<lparr>r_status := RApproved\<rparr>))) (\<lambda>_.
     publish T_refund_approved (Some (p_merchant_address p)) [StrV refund_id, StrV (r_order_id r)]))))))"

definition reject_refund :: "address \<Rightarrow> string \<Rightarrow> ('w, unit) contract" where
  "reject_refund caller refund_id =
     bind require_not_paused (\<lambda>_.
     bind (require_some (st_get_refund refund_id) RefundNotFound) (\<lambda>r.
     bind (require_some (st_get_payment (r_order_id r)) PaymentNotFound) (\<lambda>p.
     bind (require_admin_or caller (p_merchant_address p)) (\<lambda>_.
     bind (guard (r_status r = RPending) RefundAlreadyCompleted) (\<lambda>_.
     bind (modify (st_set_refund (r\<lparr>r_status := RRejected\<rparr>))) (\<lambda>_.
     publish T_refund_rejected (Some (p_merchant_address p)) [StrV refund_id, StrV (r_order_id r)]))))))"

text \<open>The statistics block that \<open>execute_refund\<close> and \<open>resolve_dispute\<close> both contain.\<close>

definition add_merchant_refund_stats :: "address \<Rightarrow> int \<Rightarrow> ('w, unit) contract" where
  "add_merchant_refund_stats merchant_address amount =
     bind (gets (st_get_merchant_stats merchant_address)) (\<lambda>st.
     bind (u32_add (mst_total_refunds st) 1) (\<lambda>n.
     modify (st_set_merchant_stats merchant_address
       (st\<lparr>mst_total_refunds := n,
           mst_total_refund_volume := i128_sat_add (mst_total_refund_volume st) amount\<rparr>))))"

definition add_global_refund_stats :: "int \<Rightarrow> ('w, unit) contract" where
  "add_global_refund_stats amount =
     bind (gets st_get_global_stats) (\<lambda>st.
     bind (u32_add (gs_total_refunds st) 1) (\<lambda>n.
     modify (st_set_global_stats
       (st\<lparr>gs_total_refunds := n,
           gs_total_refund_volume := i128_sat_add (gs_total_refund_volume st) amount\<rparr>))))"

definition refunded_status :: "int \<Rightarrow> int \<Rightarrow> payment_status" where
  "refunded_status refunded amount = (if amount \<le> refunded then PFullyRefunded else PPartiallyRefunded)"

definition execute_refund :: "'w host \<Rightarrow> string \<Rightarrow> ('w, unit) contract" where
  "execute_refund h refund_id =
     bind require_not_paused (\<lambda>_.
     bind (require_some (st_get_refund refund_id) RefundNotFound) (\<lambda>r.
     bind (guard (r_status r = RApproved) RefundNotApproved) (\<lambda>_.
     bind (require_some (st_get_payment (r_order_id r)) PaymentNotFound) (\<lambda>p.
     bind (require_auth (p_merchant_address p)) (\<lambda>_.
     bind (i128_add (p_refunded_amount p) (r_amount r)) (\<lambda>refunded.
     bind (u32_add (p_version p) 1) (\<lambda>version.
     bind (modify (st_set_payment
       (p\<lparr>p_refunded_amount := refunded, p_status := refunded_status refunded (p_amount p),
          p_version := version\<rparr>))) (\<lambda>_.
     bind (modify (st_set_refund (r\<lparr>r_status := RCompleted\<rparr>))) (\<lambda>_.
     bind (add_merchant_refund_stats (p_merchant_address p) (r_amount r)) (\<lambda>_.
     bind (add_global_refund_stats (r_amount r)) (\<lambda>_.
     bind (transfer h (p_token p) (p_merchant_address p) (p_payer p) (r_amount r)) (\<lambda>_.
     publish T_refund_executed (Some (p_merchant_address p)) [StrV refund_id, StrV (r_order_id r)]))))))))))))"

definition get_refund :: "address \<Rightarrow> string \<Rightarrow> ('w, refund_record) contract" where
  "get_refund caller refund_id =
     bind (require_auth caller) (\<lambda>_.
     bind (require_some (st_get_refund refund_id) RefundNotFound) (\<lambda>r.
     bind (gets (is_admin caller)) (\<lambda>adm.
     bind (if \<not> adm \<and> caller \<noteq> r_initiator r
           then bind (gets (st_get_payment (r_order_id r))) (\<lambda>found.
                case found of
                  Some p \<Rightarrow> guard (\<not> (caller \<noteq> p_payer p \<and> caller \<noteq> p_merchant_address p)) Unauthorized
                | None \<Rightarrow> fail Unauthorized)
           else ret ()) (\<lambda>_.
     ret r))))"

definition purge_one_refund :: "nat \<Rightarrow> nat \<Rightarrow> string \<Rightarrow> ('w, nat) contract" where
  "purge_one_refund cutoff removed rid =
     bind (gets (st_get_refund rid)) (\<lambda>found.
     case found of
       None \<Rightarrow> ret removed
     | Some r \<Rightarrow>
         let is_terminal = (r_status r = RCompleted \<or> r_status r = RRejected) in
         if is_terminal \<and> r_created_at r < cutoff
         then bind (modify (st_remove_refund rid)) (\<lambda>_. u32_add removed 1)
         else ret removed)"

definition cleanup_expired_refunds :: "address \<Rightarrow> ('w, nat) contract" where
  "cleanup_expired_refunds admin =
     bind (require_admin admin) (\<lambda>_.
     bind (gets (\<lambda>s. sat_sub (now s) (st_get_refund_retention_period s))) (\<lambda>cutoff.
     bind (gets st_get_merchant_list) (\<lambda>merchant_list.
     bind (fold_each merchant_list (\<lambda>removed merchant_addr.
       bind (gets (st_get_merchant_payment_ids merchant_addr)) (\<lambda>payment_ids.
       fold_each payment_ids (\<lambda>removed pid.
         bind (gets (st_get_order_refund_ids pid)) (\<lambda>refund_ids.
         fold_each refund_ids (purge_one_refund cutoff) removed)) removed)) 0) (\<lambda>removed.
     bind (publish T_admin_action None
       [StrV ''cleanup_expired_refunds'', AddrV admin, UintV removed]) (\<lambda>_.
     ret removed)))))"

section \<open>Disputes\<close>

definition raise_dispute ::
  "address \<Rightarrow> string \<Rightarrow> string \<Rightarrow> string \<Rightarrow> ('w, unit) contract" where
  "raise_dispute caller dispute_id refund_id reason =
     bind require_not_paused (\<lambda>_.
     bind (require_auth caller) (\<lambda>_.
     bind (require_valid_id dispute_id) (\<lambda>_.
     bind (guard (\<not> 256 < length reason) InvalidInput) (\<lambda>_.
     bind (gets (st_get_dispute dispute_id)) (\<lambda>existing.
     bind (guard (existing = None) DisputeAlreadyExists) (\<lambda>_.
     bind (require_some (st_get_refund refund_id) RefundNotFound) (\<lambda>r.
     bind (guard (r_status r = RRejected) DisputeRefundNotRejected) (\<lambda>_.
     bind (require_some (st_get_payment (r_order_id r)) PaymentNotFound) (\<lambda>p.
     bind (guard (caller = p_payer p) Unauthorized) (\<lambda>_.
     bind (gets now) (\<lambda>ts.
     bind (modify (st_set_dispute
       \<lparr>d_dispute_id = dispute_id, d_order_id = r_order_id r, d_refund_id = refund_id,
        d_initiator = caller, d_reason = reason, d_status = DOpen, d_outcome = None,
        d_resolution = None, d_created_at = ts\<rparr>)) (\<lambda>_.
     publish T_dispute_raised None [StrV dispute_id, StrV refund_id, StrV (r_order_id r)]))))))))))))"

definition resolve_dispute ::
  "'w host \<Rightarrow> address \<Rightarrow> string \<Rightarrow> string \<Rightarrow> bool \<Rightarrow> ('w, unit) contract" where
  "resolve_dispute h admin dispute_id resolution force_refund =
     bind require_not_paused (\<lambda>_.
     bind (require_admin_rate_limited admin) (\<lambda>_.
     bind (guard (\<not> (length resolution = 0 \<or> 256 < length resolution)) InvalidInput) (\<lambda>_.
     bind (require_some (st_get_dispute dispute_id) DisputeNotFound) (\<lambda>d.
     bind (guard (d_status d \<noteq> DResolved) DisputeAlreadyResolved) (\<lambda>_.
     let d' = d\<lparr>d_status := DResolved,
                d_outcome := Some (if force_refund then PayerFavor else MerchantFavor),
                d_resolution := Some resolution\<rparr> in
     bind (modify (st_set_dispute d')) (\<lambda>_.
     bind (run_if force_refund
       (bind (require_some (st_get_refund (d_refund_id d')) RefundNotFound) (\<lambda>r.
        bind (require_some (st_get_payment (r_order_id r)) PaymentNotFound) (\<lambda>p.
        bind (i128_add (p_refunded_amount p) (r_amount r)) (\<lambda>refunded.
        bind (modify (st_set_payment
          (p\<lparr>p_refunded_amount := refunded, p_status := refunded_status refunded (p_amount p)\<rparr>))) (\<lambda>_.
        bind (modify (st_set_refund (r\<lparr>r_status := RCompleted\<rparr>))) (\<lambda>_.
        bind (add_global_refund_stats (r_amount r)) (\<lambda>_.
        bind (add_merchant_refund_stats (p_merchant_address p) (r_amount r)) (\<lambda>_.
        transfer h (p_token p) (p_merchant_address p) (p_payer p) (r_amount r)))))))))) (\<lambda>_.
     publish T_dispute_resolved None [StrV dispute_id, StrV resolution, BoolV force_refund])))))))"

definition get_dispute :: "string \<Rightarrow> ('w, dispute_record) contract" where
  "get_dispute dispute_id = require_some (st_get_dispute dispute_id) DisputeNotFound"

definition initiate_dispute ::
  "address \<Rightarrow> string \<Rightarrow> string \<Rightarrow> string \<Rightarrow> ('w, unit) contract" where
  "initiate_dispute caller dispute_id order_id reason =
     bind require_not_paused (\<lambda>_.
     bind (require_auth caller) (\<lambda>_.
     bind (require_valid_id dispute_id) (\<lambda>_.
     bind (guard (\<not> (length reason = 0 \<or> 256 < length reason)) InvalidInput) (\<lambda>_.
     bind (gets (st_get_dispute dispute_id)) (\<lambda>existing.
     bind (guard (existing = None) DisputeAlreadyExists) (\<lambda>_.
     bind (require_some (st_get_payment order_id) PaymentNotFound) (\<lambda>p.
     bind (guard (\<not> (caller \<noteq> p_payer p \<and> caller \<noteq> p_merchant_address p)) Unauthorized) (\<lambda>_.
     bind (gets now) (\<lambda>ts.
     bind (modify (st_set_dispute
       \<lparr>d_dispute_id = dispute_id, d_order_id = order_id, d_refund_id = '''',
        d_initiator = caller, d_reason = reason, d_status = DOpen, d_outcome = None,
        d_resolution = None, d_created_at = ts\<rparr>)) (\<lambda>_.
     publish T_dispute_initiated None [StrV dispute_id, StrV order_id, AddrV caller, StrV reason]))))))))))"

definition mark_dispute_under_review :: "address \<Rightarrow> string \<Rightarrow> ('w, unit) contract" where
  "mark_dispute_under_review admin dispute_id =
     bind require_not_paused (\<lambda>_.
     bind (require_admin_rate_limited admin) (\<lambda>_.
     bind (require_some (st_get_dispute dispute_id) DisputeNotFound) (\<lambda>d.
     bind (guard (d_status d = DOpen) DisputeNotOpen) (\<lambda>_.
     bind (modify (st_set_dispute (d\<lparr>d_status := DUnderReview\<rparr>))) (\<lambda>_.
     publish T_dispute_under_review None [StrV dispute_id])))))"

definition escalate_dispute :: "address \<Rightarrow> string \<Rightarrow> string option \<Rightarrow> ('w, unit) contract" where
  "escalate_dispute admin dispute_id notes =
     bind require_not_paused (\<lambda>_.
     bind (require_admin_rate_limited admin) (\<lambda>_.
     bind (require_some (st_get_dispute dispute_id) DisputeNotFound) (\<lambda>d.
     bind (case d_status d of
             DResolved \<Rightarrow> fail DisputeAlreadyResolved
           | DEscalated \<Rightarrow> fail DisputeAlreadyEscalated
           | _ \<Rightarrow> ret ()) (\<lambda>_.
     bind (if_some notes (\<lambda>n. guard (\<not> 256 < length n) InvalidInput)) (\<lambda>_.
     bind (modify (st_set_dispute (d\<lparr>d_status := DEscalated, d_resolution := notes\<rparr>))) (\<lambda>_.
     publish T_dispute_escalated None [StrV dispute_id, OptStrV notes]))))))"

section \<open>Frame\<close>

locale refund_frame = cleanup_frame +
  assumes I_set_refund: "I s \<Longrightarrow> I (st_set_refund r s)"
    and I_add_order_refund: "I s \<Longrightarrow> I (st_add_order_refund_id k rid s)"
begin

lemma pres_refund_steps [pres]:
  "preserves I (modify (st_set_refund r))" "preserves I (modify (st_add_order_refund_id k rid))"
  by (auto intro: preserves_modify I_set_refund I_add_order_refund)

lemma pres_refund_stats [pres]:
  "preserves I (add_merchant_refund_stats a n)" "preserves I (add_global_refund_stats n)"
  unfolding add_merchant_refund_stats_def add_global_refund_stats_def by (rule pres)+

lemma pres_refund_requests [pres]:
  "preserves I (initiate_refund a rid k n rs)" "preserves I (get_refunds_for_order a k)"
  "preserves I (approve_refund a rid)" "preserves I (reject_refund a rid)"
  "preserves I (get_refund a rid)" "preserves I (cleanup_expired_refunds a)"
  unfolding initiate_refund_def get_refunds_for_order_def approve_refund_def reject_refund_def
    get_refund_def cleanup_expired_refunds_def purge_one_refund_def
  by (rule pres)+

lemma pres_execute_refund [pres]: "preserves I (execute_refund h rid)"
  unfolding execute_refund_def
  by (rule pres_know pres | assumption | erule (1) payment_ok | simp (no_asm))+

end

locale dispute_frame = refund_frame +
  assumes I_set_dispute: "I s \<Longrightarrow> I (st_set_dispute d s)"
begin

lemma pres_set_dispute [pres]: "preserves I (modify (st_set_dispute d))"
  by (auto intro: preserves_modify I_set_dispute)

lemma pres_dispute_steps [pres]:
  "preserves I (raise_dispute a did rid rs)" "preserves I (get_dispute did)"
  "preserves I (initiate_dispute a did k rs)" "preserves I (mark_dispute_under_review a did)"
  unfolding raise_dispute_def get_dispute_def initiate_dispute_def mark_dispute_under_review_def
  by (rule pres)+

lemma pres_escalate_dispute [pres]: "preserves I (escalate_dispute a did notes)"
  unfolding escalate_dispute_def
  by (rule pres | simp add: pres split: dispute_status.split)+

lemma pres_resolve_dispute [pres]: "preserves I (resolve_dispute h a did rs force)"
  unfolding resolve_dispute_def
  by (rule pres_know pres | assumption | erule (1) payment_ok | simp (no_asm))+

end

section \<open>Calls\<close>

datatype (plugins only:) refund_call =
    InitiateRefund address string string int string | GetRefundsForOrder address string
    | ApproveRefund address string | RejectRefund address string | ExecuteRefund string
    | GetRefund address string | CleanupExpiredRefunds address

primrec run_refund_call :: "'w host \<Rightarrow> refund_call \<Rightarrow> ('w, unit) contract" where
  "run_refund_call h (InitiateRefund x1 x2 x3 x4 x5) = initiate_refund x1 x2 x3 x4 x5"
| "run_refund_call h (GetRefundsForOrder x1 x2) =
     bind (get_refunds_for_order x1 x2) (\<lambda>_. ret ())"
| "run_refund_call h (ApproveRefund x1 x2) = approve_refund x1 x2"
| "run_refund_call h (RejectRefund x1 x2) = reject_refund x1 x2"
| "run_refund_call h (ExecuteRefund x1) = execute_refund h x1"
| "run_refund_call h (GetRefund x1 x2) = bind (get_refund x1 x2) (\<lambda>_. ret ())"
| "run_refund_call h (CleanupExpiredRefunds x1) =
     bind (cleanup_expired_refunds x1) (\<lambda>_. ret ())"

context refund_frame
begin

lemma pres_run_refund_call [pres]: "preserves I (run_refund_call h c)"
  by (cases c) (simp_all, (rule pres)+)

end

section \<open>Calls, continued\<close>

datatype (plugins only:) dispute_call =
    RaiseDispute address string string string | ResolveDispute address string string bool
    | GetDispute string | InitiateDispute address string string string
    | MarkDisputeUnderReview address string | EscalateDispute address string "string option"

primrec run_dispute_call :: "'w host \<Rightarrow> dispute_call \<Rightarrow> ('w, unit) contract" where
  "run_dispute_call h (RaiseDispute x1 x2 x3 x4) = raise_dispute x1 x2 x3 x4"
| "run_dispute_call h (ResolveDispute x1 x2 x3 x4) = resolve_dispute h x1 x2 x3 x4"
| "run_dispute_call h (GetDispute x1) = bind (get_dispute x1) (\<lambda>_. ret ())"
| "run_dispute_call h (InitiateDispute x1 x2 x3 x4) = initiate_dispute x1 x2 x3 x4"
| "run_dispute_call h (MarkDisputeUnderReview x1 x2) = mark_dispute_under_review x1 x2"
| "run_dispute_call h (EscalateDispute x1 x2 x3) = escalate_dispute x1 x2 x3"

context dispute_frame
begin

lemma pres_run_dispute_call [pres]: "preserves I (run_dispute_call h c)"
  by (cases c) (simp_all, (rule pres)+)

end

section \<open>What a refund call that returned has done\<close>

text \<open>
  A refund is only initiated by the payer or the merchant of an existing payment,
  within the refund window, for an amount of at least both minima that together with
  what has been refunded stays within the payment; it starts pending, and it is at
  most the tenth of its order.
\<close>

theorem initiate_refund_effect:
  assumes "initiate_refund caller rid k n reason s = (Ok (), t)"
  shows "\<exists>p. st_get_payment k s = Some p \<and> caller \<in> auths s \<and>
    caller \<in> {p_payer p, p_merchant_address p} \<and> 0 < n \<and> st_get_min_refund_amount s \<le> n \<and>
    now s \<le> p_paid_at p + st_get_refund_window s \<and> p_refunded_amount p + n \<le> p_amount p \<and>
    st_get_refund rid s = None \<and>
    (\<forall>i. st_get_refund i t = (if i = rid then Some
       \<lparr>r_refund_id = rid, r_order_id = k, r_initiator = caller, r_amount = n, r_reason = reason,
        r_status = RPending, r_created_at = now s\<rparr> else st_get_refund i s)) \<and>
    st_get_order_refund_ids k t = st_get_order_refund_ids k s @ [rid] \<and>
    length (st_get_order_refund_ids k t) \<le> MAX_REFUNDS_PER_PAYMENT \<and>
    (\<forall>i. st_get_payment i t = st_get_payment i s) \<and> world t = world s"
  using assms unfolding initiate_refund_def
  by (clarsimp simp: exec_simps) (auto simp: storage_defs const_defs)

text \<open>
  C21. Executing an approved refund needs the merchant's signature and moves exactly the
  refund's amount from the merchant to the payer; the refund is completed, the payment
  records the new total and its status, no other refund or payment changes, and the refund
  is counted once with its amount in the merchant's and in the global statistics, and in
  no other merchant's.
\<close>

theorem execute_refund_effect:
  assumes "execute_refund h rid s = (Ok (), t)"
  shows "\<exists>r p. \<not> st_get_paused s \<and> st_get_refund rid s = Some r \<and> r_status r = RApproved \<and>
    st_get_payment (r_order_id r) s = Some p \<and> p_merchant_address p \<in> auths s \<and>
    token_transfer h (p_token p) (p_merchant_address p) (p_payer p) (r_amount r) (world s) = Some (world t) \<and>
    (\<forall>i. st_get_refund i t = (if i = r_refund_id r then Some (r\<lparr>r_status := RCompleted\<rparr>)
       else st_get_refund i s)) \<and>
    in_i128 (p_refunded_amount p + r_amount r) \<and>
    (\<forall>i. st_get_payment i t = (if i = p_order_id p then Some
       (p\<lparr>p_refunded_amount := p_refunded_amount p + r_amount r,
          p_status := if p_amount p \<le> p_refunded_amount p + r_amount r then PFullyRefunded else PPartiallyRefunded,
          p_version := p_version p + 1\<rparr>) else st_get_payment i s)) \<and>
    st_get_global_stats t = (st_get_global_stats s)
      \<lparr>gs_total_refunds := gs_total_refunds (st_get_global_stats s) + 1,
       gs_total_refund_volume := i128_sat_add (gs_total_refund_volume (st_get_global_stats s)) (r_amount r)\<rparr> \<and>
    (\<forall>a. st_get_merchant_stats a t = (if a = p_merchant_address p then (st_get_merchant_stats a s)
         \<lparr>mst_total_refunds := mst_total_refunds (st_get_merchant_stats a s) + 1,
          mst_total_refund_volume := i128_sat_add (mst_total_refund_volume (st_get_merchant_stats a s)) (r_amount r)\<rparr>
       else st_get_merchant_stats a s))"
  using assms unfolding execute_refund_def add_merchant_refund_stats_def add_global_refund_stats_def
  by (clarsimp simp: exec_simps) (auto simp: storage_defs refunded_status_def)

section \<open>Refunds beyond the payment\<close>

text \<open>A payment of 1000, order \<open>o1\<close>; the payer, the merchant and the administrator sign.\<close>

definition order1 :: payment_order where
  "order1 = \<lparr>p_order_id = ''o1'', p_merchant_address = Addr 1, p_payer = Addr 2, p_token = Addr 9,
     p_amount = 1000, p_version = 0, p_status = PCompleted, p_paid_at = 900,
     p_refunded_amount = 0, p_memo = [], p_tags = None, p_platform_fee = 0\<rparr>"

definition refund_shop :: "book env" where
  "refund_shop = (let s = shop {Addr 1, Addr 2, Addr 5} 1000 in
     s\<lparr>persistent_st := (persistent_st s)\<lparr>k_Payment := (\<lambda>_. None)(''o1'' := Some order1)\<rparr>\<rparr>)"

lemmas refund_shop_defs = refund_shop_def order1_def

lemmas refund_ops = initiate_refund_def approve_refund_def reject_refund_def execute_refund_def
  raise_dispute_def resolve_dispute_def require_admin_rate_limited_def add_merchant_refund_stats_def add_global_refund_stats_def
  refunded_status_def

text \<open>
  Two requests for a refund, both approved by the merchant and then executed; and two
  disputes over one refund, both resolved for the payer.
\<close>

definition two_refunds ::
  "'w host \<Rightarrow> string \<Rightarrow> payment_order \<Rightarrow> string \<Rightarrow> int \<Rightarrow> string \<Rightarrow> int \<Rightarrow> string \<Rightarrow> ('w, unit) contract" where
  "two_refunds h k p r1 n1 r2 n2 why =
     bind (initiate_refund (p_payer p) r1 k n1 why) (\<lambda>_.
     bind (initiate_refund (p_payer p) r2 k n2 why) (\<lambda>_.
     bind (approve_refund (p_merchant_address p) r1) (\<lambda>_.
     bind (approve_refund (p_merchant_address p) r2) (\<lambda>_.
     bind (execute_refund h r1) (\<lambda>_.
     execute_refund h r2)))))"

definition two_disputes ::
  "'w host \<Rightarrow> address \<Rightarrow> address \<Rightarrow> string \<Rightarrow> string \<Rightarrow> string \<Rightarrow> string \<Rightarrow> string \<Rightarrow> ('w, unit) contract" where
  "two_disputes h payer adm d1 d2 rid why notes =
     bind (raise_dispute payer d1 rid why) (\<lambda>_.
     bind (raise_dispute payer d2 rid why) (\<lambda>_.
     bind (resolve_dispute h adm d1 notes True) (\<lambda>_.
     resolve_dispute h adm d2 notes True)))"

text \<open>
  C22. The refunds of a payment can exceed it: the check at initiation counts only what
  has been executed, and execution does not check again. For any two amounts that the payer
  could each request on their own, both refunds are initiated, approved by the merchant and
  executed, whatever their sum: the payer gets both, and the payment records a refunded
  amount above its own. (The hypotheses say that the order has room for a second refund,
  that payer and merchant sign, that the merchant has the tokens and that no counter overflows.)
\<close>

theorem refunds_can_exceed_the_payment:
  assumes "is_Ok (fst (initiate_refund (p_payer p) r1 k n1 why s))"
    and "is_Ok (fst (initiate_refund (p_payer p) r2 k n2 why s))"
    and "r1 \<noteq> r2" and "length (st_get_order_refund_ids k s) + 1 < MAX_REFUNDS_PER_PAYMENT"
    and "st_get_payment k s = Some p" and "p_order_id p = k" and "p_merchant_address p \<in> auths s"
    and "token_transfer h (p_token p) (p_merchant_address p) (p_payer p) n1 (world s) = Some w1"
    and "token_transfer h (p_token p) (p_merchant_address p) (p_payer p) n2 w1 = Some w2"
    and "p_version p + 2 \<le> u32_max" and "gs_total_refunds (st_get_global_stats s) + 2 \<le> u32_max"
    and "mst_total_refunds (st_get_merchant_stats (p_merchant_address p) s) + 2 \<le> u32_max"
    and "in_i128 (p_refunded_amount p + n1 + n2)"
    and "p_amount p < p_refunded_amount p + n1 + n2"
  shows "\<exists>t. two_refunds h k p r1 n1 r2 n2 why s = (Ok (), t) \<and> world t = w2 \<and>
    st_get_payment k t = Some (p\<lparr>p_refunded_amount := p_refunded_amount p + n1 + n2,
      p_status := PFullyRefunded, p_version := p_version p + 2\<rparr>) \<and>
    map_option r_status (st_get_refund r1 t) = Some RCompleted \<and>
    map_option r_status (st_get_refund r2 t) = Some RCompleted"
proof -
  obtain t1 t2 where "initiate_refund (p_payer p) r1 k n1 why s = (Ok (), t1)"
    "initiate_refund (p_payer p) r2 k n2 why s = (Ok (), t2)"
    using assms(1,2) is_Ok_unit by blast
  with assms(3-) show ?thesis
    unfolding initiate_refund_def
    apply (simp add: exec_simps)
    apply (elim conjE)
    apply (simp add: two_refunds_def refund_ops require_admin_or_def is_admin_def exec_comp storage_defs helper_defs)
    done
qed

text \<open>
  C23. One rejected refund can be forced any two times: nothing stops a second dispute over
  it, and resolving one does not look at the refund's status. Whenever the payer could raise
  either of two disputes over a refund on its own, both are raised, the administrator
  resolves both in favour of the payer, and the amount of the one refund is paid twice and
  counted twice in the refunded amount of the payment.
\<close>

theorem one_refund_is_forced_twice:
  assumes "is_Ok (fst (raise_dispute payer d1 rid why s))" and "is_Ok (fst (raise_dispute payer d2 rid why s))"
    and "d1 \<noteq> d2" and "st_get_refund rid s = Some r" and "r_refund_id r = rid"
    and "st_get_payment (r_order_id r) s = Some p" and "p_order_id p = r_order_id r"
    and "adm \<in> auths s" and "st_get_admin s = Some adm" and "\<not> st_is_auth_locked_out adm s"
    and "notes \<noteq> []" and "length notes \<le> 256"
    and "token_transfer h (p_token p) (p_merchant_address p) (p_payer p) (r_amount r) (world s) = Some w1"
    and "token_transfer h (p_token p) (p_merchant_address p) (p_payer p) (r_amount r) w1 = Some w2"
    and "gs_total_refunds (st_get_global_stats s) + 2 \<le> u32_max"
    and "mst_total_refunds (st_get_merchant_stats (p_merchant_address p) s) + 2 \<le> u32_max"
    and "in_i128 (p_refunded_amount p + r_amount r)" and "in_i128 (p_refunded_amount p + 2 * r_amount r)"
  shows "\<exists>t. two_disputes h payer adm d1 d2 rid why notes s = (Ok (), t) \<and> world t = w2 \<and>
    st_get_payment (r_order_id r) t = Some (p\<lparr>p_refunded_amount := p_refunded_amount p + 2 * r_amount r,
      p_status := if p_amount p \<le> p_refunded_amount p + 2 * r_amount r then PFullyRefunded else PPartiallyRefunded\<rparr>) \<and>
    (\<forall>d \<in> {d1, d2}. map_option d_outcome (st_get_dispute d t) = Some (Some PayerFavor)) \<and>
    st_get_refund rid t = Some (r\<lparr>r_status := RCompleted\<rparr>)"
proof -
  obtain t1 t2 where "raise_dispute payer d1 rid why s = (Ok (), t1)" "raise_dispute payer d2 rid why s = (Ok (), t2)"
    using assms(1,2) is_Ok_unit by blast
  with assms(3-) show ?thesis
    unfolding raise_dispute_def
    apply (simp add: exec_simps)
    apply (elim conjE)
    apply (simp add: two_disputes_def refund_ops exec_comp storage_defs helper_defs)
    apply (simp add: add.commute)
    done
qed

section \<open>Examples\<close>

definition refund_sample :: "(payment_error, unit) outcome \<times> book env" where
  "refund_sample = initiate_refund (Addr 2) ''r1'' ''o1'' 600 ''late'' refund_shop"

definition execute_sample :: "(payment_error, unit) outcome \<times> book env" where
  "execute_sample = execute_refund sample_host ''r1'' (st_set_refund
     \<lparr>r_refund_id = ''r1'', r_order_id = ''o1'', r_initiator = Addr 2, r_amount = 600,
      r_reason = ''late'', r_status = RApproved, r_created_at = 950\<rparr> refund_shop)"

theorem initiate_refund_effect_witness:
  "length (st_get_order_refund_ids ''o1'' (snd refund_sample)) = 1"
proof -
  have "is_Ok (fst refund_sample)"
    unfolding refund_sample_def refund_ops refund_shop_defs
    by (simp add: exec_comp storage_defs helper_defs reference_defs shop_defs const_defs in_i128_def)
  from initiate_refund_effect [OF trans [OF refund_sample_def [symmetric] is_Ok_unit [OF this]]]
  have "st_get_order_refund_ids ''o1'' (snd refund_sample) = st_get_order_refund_ids ''o1'' refund_shop @ [''r1'']"
    by blast
  then show ?thesis
    by (simp add: refund_shop_def st_get_order_refund_ids_def unwrap_or_def shop_def empty_persistent_def)
qed

theorem execute_refund_effect_witness: "gs_total_refunds (st_get_global_stats (snd execute_sample)) = 1"
proof -
  have "is_Ok (fst execute_sample)"
    unfolding execute_sample_def refund_ops refund_shop_defs
    by (simp add: exec_comp storage_defs helper_defs reference_defs shop_defs const_defs in_i128_def)
  from execute_refund_effect [OF trans [OF execute_sample_def [symmetric] is_Ok_unit [OF this]]]
  show ?thesis by (auto simp: refund_shop_def storage_defs shop_defs reference_defs)
qed

text \<open>Two refunds of 600 on the payment of 1000, and one rejected refund of 600 with two disputes.\<close>

theorem refunds_can_exceed_the_payment_witness:
  "\<exists>t q. two_refunds sample_host ''o1'' order1 ''r1'' 600 ''r2'' 600 ''late'' refund_shop = (Ok (), t) \<and>
     st_get_payment ''o1'' t = Some q \<and> p_amount q = 1000 \<and> p_refunded_amount q = 1200"
proof -
  let ?w1 = "the (move (Addr 9) (Addr 1) (Addr 2) 600 rich)"
  let ?w2 = "the (move (Addr 9) (Addr 1) (Addr 2) 600 ?w1)"
  have req: "is_Ok (fst (initiate_refund (p_payer order1) r ''o1'' 600 ''late'' refund_shop))"
    if "r \<in> {''r1'', ''r2''}" for r
    using that unfolding refund_ops refund_shop_defs
    by (auto simp: exec_comp storage_defs helper_defs reference_defs shop_defs const_defs in_i128_def)
  have w: "token_transfer sample_host (p_token order1) (p_merchant_address order1) (p_payer order1) 600 (world refund_shop) = Some ?w1"
    "token_transfer sample_host (p_token order1) (p_merchant_address order1) (p_payer order1) 600 ?w1 = Some ?w2"
    by (simp_all add: refund_shop_defs reference_defs shop_defs)
  have "\<exists>t. two_refunds sample_host ''o1'' order1 ''r1'' 600 ''r2'' 600 ''late'' refund_shop = (Ok (), t) \<and> world t = ?w2 \<and>
    st_get_payment ''o1'' t = Some (order1\<lparr>p_refunded_amount := p_refunded_amount order1 + 600 + 600,
      p_status := PFullyRefunded, p_version := p_version order1 + 2\<rparr>) \<and>
    map_option r_status (st_get_refund ''r1'' t) = Some RCompleted \<and>
    map_option r_status (st_get_refund ''r2'' t) = Some RCompleted"
    by (rule refunds_can_exceed_the_payment [OF req req _ _ _ _ _ w])
      (simp_all add: refund_shop_defs storage_defs shop_defs reference_defs unwrap_or_def const_defs in_i128_def)
  then show ?thesis by (elim exE conjE) (intro exI conjI, assumption+, simp_all add: order1_def)
qed

definition rejected1 :: refund_record where
  "rejected1 = \<lparr>r_refund_id = ''r1'', r_order_id = ''o1'', r_initiator = Addr 2, r_amount = 600,
     r_reason = ''late'', r_status = RRejected, r_created_at = 950\<rparr>"

theorem one_refund_is_forced_twice_witness:
  "\<exists>t q. two_disputes sample_host (Addr 2) (Addr 5) ''d1'' ''d2'' ''r1'' ''no'' ''yes''
       (st_set_refund rejected1 refund_shop) = (Ok (), t) \<and>
     st_get_payment ''o1'' t = Some q \<and> p_refunded_amount q = 1200 \<and> p_amount q = 1000"
proof -
  let ?w1 = "the (move (Addr 9) (Addr 1) (Addr 2) 600 rich)"
  let ?w2 = "the (move (Addr 9) (Addr 1) (Addr 2) 600 ?w1)"
  let ?s = "st_set_refund rejected1 refund_shop"
  have req: "is_Ok (fst (raise_dispute (Addr 2) d ''r1'' ''no'' ?s))" if "d \<in> {''d1'', ''d2''}" for d
    using that unfolding refund_ops refund_shop_defs
    by (auto simp: exec_comp storage_defs helper_defs reference_defs shop_defs const_defs in_i128_def rejected1_def)
  have w: "token_transfer sample_host (p_token order1) (p_merchant_address order1) (p_payer order1) (r_amount rejected1) (world ?s) = Some ?w1"
    "token_transfer sample_host (p_token order1) (p_merchant_address order1) (p_payer order1) (r_amount rejected1) ?w1 = Some ?w2"
    by (simp_all add: refund_shop_defs reference_defs shop_defs rejected1_def storage_defs)
  have "\<exists>t. two_disputes sample_host (Addr 2) (Addr 5) ''d1'' ''d2'' ''r1'' ''no'' ''yes'' ?s = (Ok (), t) \<and> world t = ?w2 \<and>
    st_get_payment (r_order_id rejected1) t = Some (order1\<lparr>p_refunded_amount := p_refunded_amount order1 + 2 * r_amount rejected1,
      p_status := if p_amount order1 \<le> p_refunded_amount order1 + 2 * r_amount rejected1 then PFullyRefunded else PPartiallyRefunded\<rparr>) \<and>
    (\<forall>d \<in> {''d1'', ''d2''}. map_option d_outcome (st_get_dispute d t) = Some (Some PayerFavor)) \<and>
    st_get_refund ''r1'' t = Some (rejected1\<lparr>r_status := RCompleted\<rparr>)"
    by (rule one_refund_is_forced_twice [OF req req _ _ _ _ _ _ _ _ _ _ w])
      (simp_all add: refund_shop_defs storage_defs shop_defs reference_defs unwrap_or_def const_defs in_i128_def rejected1_def)
  then obtain t where "two_disputes sample_host (Addr 2) (Addr 5) ''d1'' ''d2'' ''r1'' ''no'' ''yes'' ?s = (Ok (), t)"
    and "st_get_payment ''o1'' t = Some (order1\<lparr>p_refunded_amount := 1200, p_status := PFullyRefunded\<rparr>)"
    by (auto simp: order1_def rejected1_def)
  then show ?thesis by (auto simp: order1_def)
qed

section \<open>The refund machine\<close>

text \<open>
  What a call may do to the stored refunds: remove closed ones, create a pending one, decide a
  pending one, complete an approved one, or complete any one by a dispute. \<open>pays\<close> are the
  stored payments, \<open>sigs\<close> the signers of the call.
\<close>

inductive refund_step ::
  "address option \<Rightarrow> address set \<Rightarrow> (string \<Rightarrow> payment_order option) \<Rightarrow>
   (string \<Rightarrow> refund_record option) \<Rightarrow> (string \<Rightarrow> refund_record option) \<Rightarrow> bool"
  for admin sigs pays store where
  purge: "(\<And>k. store' k = store k \<or> store' k = None \<and>
      (\<exists>r. store k = Some r \<and> r_status r \<in> {RCompleted, RRejected})) \<Longrightarrow>
    refund_step admin sigs pays store store'"
| create: "r_refund_id r \<noteq> [] \<Longrightarrow> store (r_refund_id r) = None \<Longrightarrow> r_status r = RPending \<Longrightarrow> pays (r_order_id r) = Some p \<Longrightarrow>
    r_initiator r \<in> sigs \<Longrightarrow> r_initiator r \<in> {p_payer p, p_merchant_address p} \<Longrightarrow>
    p_refunded_amount p + r_amount r \<le> p_amount p \<Longrightarrow>
    refund_step admin sigs pays store (store(r_refund_id r := Some r))"
| decide: "store k = Some r \<Longrightarrow> r_status r = RPending \<Longrightarrow> pays (r_order_id r) = Some p \<Longrightarrow>
    a \<in> sigs \<Longrightarrow> admin = Some a \<or> a = p_merchant_address p \<Longrightarrow> st \<in> {RApproved, RRejected} \<Longrightarrow>
    refund_step admin sigs pays store (store(r_refund_id r := Some (r\<lparr>r_status := st\<rparr>)))"
| complete: "store k = Some r \<Longrightarrow> r_status r = RApproved \<Longrightarrow> pays (r_order_id r) = Some p \<Longrightarrow>
    p_merchant_address p \<in> sigs \<Longrightarrow>
    refund_step admin sigs pays store (store(r_refund_id r := Some (r\<lparr>r_status := RCompleted\<rparr>)))"
| force: "store k = Some r \<Longrightarrow> admin = Some a \<Longrightarrow> a \<in> sigs \<Longrightarrow>
    refund_step admin sigs pays store (store(r_refund_id r := Some (r\<lparr>r_status := RCompleted\<rparr>)))"

inductive_cases refund_stepE: "refund_step admin sigs pays store store'"

definition refund_step_of :: "'w env \<Rightarrow> 'w env \<Rightarrow> bool" where
  "refund_step_of s t \<longleftrightarrow> refund_step (st_get_admin s) (auths s) (k_Payment (persistent_st s))
     (k_Refund (persistent_st s)) (k_Refund (persistent_st t))"

lemma refund_step_same: "k_Refund (persistent_st t) = k_Refund (persistent_st s) \<Longrightarrow> refund_step_of s t"
  by (simp add: refund_step_of_def purge)

text \<open>Calls that at most remove closed refunds.\<close>

definition refunds_within :: "(string \<Rightarrow> refund_record option) \<Rightarrow> 'w env \<Rightarrow> bool" where
  "refunds_within m s \<longleftrightarrow> (\<forall>k. k_Refund (persistent_st s) k = m k \<or> k_Refund (persistent_st s) k = None \<and>
     (\<exists>r. m k = Some r \<and> r_status r \<in> {RCompleted, RRejected}))"

lemma refunds_within_step: "refunds_within (k_Refund (persistent_st s)) t \<Longrightarrow> refund_step_of s t"
  unfolding refund_step_of_def refunds_within_def by (rule purge) simp

lemma refunds_within_remove:
  "refunds_within m s \<Longrightarrow> st_get_refund rid s = Some r \<Longrightarrow> r_status r \<in> {RCompleted, RRejected} \<Longrightarrow>
   refunds_within m (st_remove_refund rid s)"
  by (auto simp: refunds_within_def storage_defs) (metis option.distinct(1) option.inject)+

lemma pres_purge:
  "preserves (refunds_within m) (purge_one_refund cutoff n rid)"
  "preserves (refunds_within m) (cleanup_expired_refunds a)"
proof -
  have ev: "preserves (refunds_within m) (publish tp ad d)" for tp ad d
    by (rule preserves_publish) (simp add: refunds_within_def)
  show "preserves (refunds_within m) (purge_one_refund cutoff n rid)" for n rid cutoff
    by (rule preservesI)
      (auto simp: purge_one_refund_def exec_simps Let_def intro: refunds_within_remove
        split: option.splits if_splits)
  then show "preserves (refunds_within m) (cleanup_expired_refunds a)"
    unfolding cleanup_expired_refunds_def by (intro pres ev)
qed

lemma createI:
  "r_refund_id r = k \<Longrightarrow> k \<noteq> [] \<Longrightarrow> store k = None \<Longrightarrow> r_status r = RPending \<Longrightarrow> pays (r_order_id r) = Some p \<Longrightarrow>
   r_initiator r \<in> sigs \<Longrightarrow> r_initiator r \<in> {p_payer p, p_merchant_address p} \<Longrightarrow>
   p_refunded_amount p + r_amount r \<le> p_amount p \<Longrightarrow>
   refund_step admin sigs pays store (store(k := Some r))"
  using create [of r store pays p sigs admin] by auto

lemma initiate_refund_refines: "initiate_refund a rid k n rs s = (Ok z, t) \<Longrightarrow> refund_step_of s t"
  by (clarsimp simp: initiate_refund_def exec_simps)
    (simp add: refund_step_of_def storage_defs, rule createI, auto)

lemma approve_refund_refines: "approve_refund a rid s = (Ok z, t) \<Longrightarrow> refund_step_of s t"
  by (clarsimp simp: approve_refund_def exec_simps)
    (simp add: refund_step_of_def storage_defs, rule decide, auto)

lemma reject_refund_refines: "reject_refund a rid s = (Ok z, t) \<Longrightarrow> refund_step_of s t"
  by (clarsimp simp: reject_refund_def exec_simps)
    (simp add: refund_step_of_def storage_defs, rule decide, auto)

lemma execute_refund_refines: "execute_refund h rid s = (Ok z, t) \<Longrightarrow> refund_step_of s t"
  by (clarsimp simp: execute_refund_def add_merchant_refund_stats_def add_global_refund_stats_def exec_simps)
    (simp add: refund_step_of_def storage_defs, rule complete, auto)

lemma resolve_dispute_refines: "resolve_dispute h a did rs f s = (Ok z, t) \<Longrightarrow> refund_step_of s t"
  apply (clarsimp simp: resolve_dispute_def add_merchant_refund_stats_def add_global_refund_stats_def
      exec_simps Let_def split: if_splits)
   apply (simp add: refund_step_of_def storage_defs, rule force, auto)
  apply (rule refund_step_same, simp add: storage_defs)
  done

lemma refund_reads:
  "get_refunds_for_order a k s = (Ok x, t) \<Longrightarrow> refund_step_of s t"
  "get_refund a rid s = (Ok y, t) \<Longrightarrow> refund_step_of s t"
  "cleanup_expired_refunds a s = (Ok n, t) \<Longrightarrow> refund_step_of s t"
proof -
  show "get_refunds_for_order a k s = (Ok x, t) \<Longrightarrow> refund_step_of s t"
    by (rule refund_step_same) (auto simp: get_refunds_for_order_def exec_simps)
  show "get_refund a rid s = (Ok y, t) \<Longrightarrow> refund_step_of s t"
    by (rule refund_step_same) (auto simp: get_refund_def exec_simps split: if_splits option.splits)
  show "cleanup_expired_refunds a s = (Ok n, t) \<Longrightarrow> refund_step_of s t"
    by (rule refunds_within_step) (erule preservesD [OF pres_purge(2)], simp add: refunds_within_def)
qed

lemma dispute_reads:
  "raise_dispute a did rid rs s = (Ok z, t) \<Longrightarrow> refund_step_of s t"
  "initiate_dispute a did k rs s = (Ok z, t) \<Longrightarrow> refund_step_of s t"
  "get_dispute did s = (Ok d, t) \<Longrightarrow> refund_step_of s t"
  "mark_dispute_under_review a did s = (Ok z, t) \<Longrightarrow> refund_step_of s t"
  by (rule refund_step_same, clarsimp simp: raise_dispute_def initiate_dispute_def get_dispute_def
      mark_dispute_under_review_def exec_simps storage_defs)+

lemma escalate_dispute_reads: "escalate_dispute a did ns s = (Ok z, t) \<Longrightarrow> refund_step_of s t"
  by (rule refund_step_same, cases ns)
    (auto simp: escalate_dispute_def exec_simps storage_defs split: dispute_status.splits,
     (metis dispute_status.exhaust)+)

lemma refund_call_step: "run_refund_call h c s = (Ok (), t) \<Longrightarrow> refund_step_of s t"
  by (cases c) (auto simp: exec_simps intro: initiate_refund_refines approve_refund_refines
      reject_refund_refines execute_refund_refines refund_reads)

lemma dispute_call_step: "run_dispute_call h c s = (Ok (), t) \<Longrightarrow> refund_step_of s t"
  by (cases c) (auto simp: exec_simps intro: resolve_dispute_refines dispute_reads
      escalate_dispute_reads)

end
