(* ===== verification/Multisig.thy ===== *)
theory Multisig
  imports Payments
begin

text \<open>
  Multi-signature payments: initiated with a list of signers and a threshold, signed
  once by each signer, cancelled by the initiator or the administrator, executed once
  enough signatures are collected.
\<close>

section \<open>Operations\<close>

definition initiate_multisig_payment ::
  "address \<Rightarrow> string \<Rightarrow> address \<Rightarrow> address \<Rightarrow> int \<Rightarrow> address list \<Rightarrow> nat \<Rightarrow> nat option \<Rightarrow>
   ('w, unit) contract" where
  "initiate_multisig_payment initiator payment_id merchant_address token_address amount signers
       required_signatures expires_at =
     bind require_not_paused (\<lambda>_.
     bind (require_auth initiator) (\<lambda>_.
     bind (require_positive amount) (\<lambda>_.
     bind (require_valid_id payment_id) (\<lambda>_.
     bind (guard (length signers \<noteq> 0) InvalidInput) (\<lambda>_.
     bind (guard (required_signatures \<noteq> 0) InvalidInput) (\<lambda>_.
     bind (guard (\<not> length signers < required_signatures) InvalidInput) (\<lambda>_.
     bind (gets st_get_max_multisig_signers) (\<lambda>max_signers.
     bind (guard (\<not> max_signers < length signers) TooManySigners) (\<lambda>_.
     bind (gets (st_is_token_allowed token_address)) (\<lambda>allowed.
     bind (guard allowed TokenNotAllowed) (\<lambda>_.
     bind (gets (st_get_multisig payment_id)) (\<lambda>existing.
     bind (guard (existing = None) PaymentAlreadyExists) (\<lambda>_.
     bind (require_some (st_get_merchant merchant_address) MerchantNotFound) (\<lambda>m.
     bind (guard (m_active m) MerchantInactive) (\<lambda>_.
     bind (gets now) (\<lambda>ts.
     bind (gets st_get_multisig_expiry_duration) (\<lambda>duration.
     let resolved_expires_at = Some (unwrap_or expires_at (u64_sat_add ts duration)) in
     bind (modify (st_set_multisig
       \<lparr>ms_payment_id = payment_id, ms_initiator = initiator,
        ms_merchant_address = merchant_address, ms_token = token_address, ms_amount = amount,
        ms_required_signatures = required_signatures, ms_signers = signers, ms_collected = [],
        ms_executed = False, ms_cancelled = False, ms_created_at = ts,
        ms_expires_at = resolved_expires_at\<rparr>)) (\<lambda>_.
     publish T_multisig_initiated None
       [StrV payment_id, AddrV merchant_address, AddrV token_address, I128V amount,
        UintV required_signatures]))))))))))))))))))"

definition sign_multisig_payment :: "address \<Rightarrow> string \<Rightarrow> bytes \<Rightarrow> ('w, unit) contract" where
  "sign_multisig_payment signer payment_id signature =
     bind require_not_paused (\<lambda>_.
     bind (require_auth signer) (\<lambda>_.
     bind (require_some (st_get_multisig payment_id) MultisigNotFound) (\<lambda>ms.
     bind (guard (\<not> ms_executed ms) MultisigAlreadyExecuted) (\<lambda>_.
     bind (guard (\<not> ms_cancelled ms) MultisigCancelled) (\<lambda>_.
     bind (gets now) (\<lambda>ts.
     bind (guard (\<not> unwrap_or (ms_expires_at ms) u64_max \<le> ts) MultisigExpired) (\<lambda>_.
     bind (guard (signer \<in> set (ms_signers ms)) Unauthorized) (\<lambda>_.
     bind (guard (\<not> list_ex (\<lambda>e. se_signer e = signer) (ms_collected ms)) MultisigAlreadySigned) (\<lambda>_.
     modify (st_set_multisig
       (ms\<lparr>ms_collected := ms_collected ms @ [\<lparr>se_signer = signer, se_signature = signature\<rparr>]\<rparr>)))))))))))"

definition cancel_multisig_payment :: "address \<Rightarrow> string \<Rightarrow> ('w, unit) contract" where
  "cancel_multisig_payment caller payment_id =
     bind (require_auth caller) (\<lambda>_.
     bind (require_some (st_get_multisig payment_id) MultisigNotFound) (\<lambda>ms.
     bind (guard (\<not> ms_executed ms) MultisigAlreadyExecuted) (\<lambda>_.
     bind (guard (\<not> ms_cancelled ms) MultisigAlreadyCancelled) (\<lambda>_.
     bind (gets (is_admin caller)) (\<lambda>adm.
     bind (guard (\<not> (\<not> adm \<and> caller \<noteq> ms_initiator ms)) Unauthorized) (\<lambda>_.
     modify (st_set_multisig (ms\<lparr>ms_cancelled := True\<rparr>))))))))"

definition get_multisig_payment :: "address \<Rightarrow> string \<Rightarrow> ('w, multisig_payment) contract" where
  "get_multisig_payment caller payment_id =
     bind (require_auth caller) (\<lambda>_.
     bind (require_some (st_get_multisig payment_id) MultisigNotFound) (\<lambda>ms.
     bind (gets (is_admin caller)) (\<lambda>adm.
     bind (guard (\<not> (\<not> adm \<and> caller \<noteq> ms_initiator ms \<and> caller \<notin> set (ms_signers ms) \<and>
                     caller \<noteq> ms_merchant_address ms)) Unauthorized) (\<lambda>_.
     ret ms))))"

definition execute_multisig_payment :: "'w host \<Rightarrow> address \<Rightarrow> string \<Rightarrow> ('w, unit) contract" where
  "execute_multisig_payment h payer payment_id =
     bind require_not_paused (\<lambda>_.
     bind (require_auth payer) (\<lambda>_.
     bind (require_some (st_get_multisig payment_id) MultisigNotFound) (\<lambda>ms.
     bind (guard (\<not> ms_executed ms) MultisigAlreadyExecuted) (\<lambda>_.
     bind (guard (\<not> ms_cancelled ms) MultisigAlreadyCancelled) (\<lambda>_.
     bind (gets now) (\<lambda>ts.
     bind (if_some (ms_expires_at ms) (\<lambda>expires_at. guard (\<not> expires_at < ts) PaymentExpired)) (\<lambda>_.
     bind (guard (\<not> length (ms_collected ms) < ms_required_signatures ms) InsufficientSignatures) (\<lambda>_.
     bind (transfer h (ms_token ms) payer (ms_merchant_address ms) (ms_amount ms)) (\<lambda>_.
     bind (modify (st_set_multisig (ms\<lparr>ms_executed := True\<rparr>))) (\<lambda>_.
     bind (modify (st_set_payment
       \<lparr>p_order_id = payment_id, p_merchant_address = ms_merchant_address ms, p_payer = payer,
        p_token = ms_token ms, p_amount = ms_amount ms, p_version = 0, p_status = PCompleted,
        p_paid_at = ts, p_refunded_amount = 0, p_memo = '''', p_tags = None,
        p_platform_fee = 0\<rparr>)) (\<lambda>_.
     bind (ignore_result (st_add_merchant_payment_id (ms_merchant_address ms) payment_id)) (\<lambda>_.
     bind (ignore_result (st_add_payer_payment_id payer payment_id)) (\<lambda>_.
     bind (add_global_payment_stats (ms_amount ms)) (\<lambda>_.
     publish T_multisig_executed None
       [StrV payment_id, AddrV payer, AddrV (ms_merchant_address ms), AddrV (ms_token ms),
        I128V (ms_amount ms)]))))))))))))))"

section \<open>Frame\<close>

locale multisig_frame = payment_frame +
  assumes multisig_ok: "I s \<Longrightarrow> st_get_multisig k s = Some ms \<Longrightarrow> ok (ms_merchant_address ms)"
    and I_set_multisig: "I s \<Longrightarrow> ok (ms_merchant_address ms) \<Longrightarrow> I (st_set_multisig ms s)"
begin

lemma pres_set_multisig [pres]:
  "ok (ms_merchant_address ms) \<Longrightarrow> preserves I (modify (st_set_multisig ms))"
  by (auto intro: preserves_modify I_set_multisig)

lemma pres_ignored_ids [pres]:
  "preserves I (ignore_result (st_add_merchant_payment_id a k))"
  "preserves I (ignore_result (st_add_payer_payment_id a k))"
proof -
  have no_write: "t = s" if "st_add_merchant_payment_id a k s = (Err e, t)" for e s and t :: "'a env"
    using that by (auto simp: st_add_merchant_payment_id_def exec_comp Let_def publish_def split: if_splits)
  have no_write': "t = s" if "st_add_payer_payment_id a k s = (Err e, t)" for e s and t :: "'a env"
    using that by (auto simp: st_add_payer_payment_id_def exec_comp Let_def publish_def split: if_splits)
  show "preserves I (ignore_result (st_add_merchant_payment_id a k))"
    using pres_payment_ids(1) [of a k] by (auto simp: preserves_def exec_simps dest: no_write)
  show "preserves I (ignore_result (st_add_payer_payment_id a k))"
    using pres_payment_ids(2) [of a k] by (auto simp: preserves_def exec_simps dest: no_write')
qed

lemma pres_multisig_ops [pres]:
  "preserves I (initiate_multisig_payment a k m t n sg rq ex)"
  "preserves I (sign_multisig_payment a k b)" "preserves I (cancel_multisig_payment a k)"
  "preserves I (get_multisig_payment a k)"
  unfolding initiate_multisig_payment_def sign_multisig_payment_def cancel_multisig_payment_def
    get_multisig_payment_def
  by (rule pres_know pres | erule (1) merchant_okD multisig_ok | simp (no_asm))+

lemma pres_execute_multisig_payment [pres]: "preserves I (execute_multisig_payment h a k)"
  unfolding execute_multisig_payment_def
  by (rule pres_know pres | assumption | erule (1) multisig_ok | simp (no_asm))+

end

section \<open>Calls\<close>

datatype (plugins only:) multisig_call =
    InitiateMultisigPayment address string address address int "address list" nat "nat option"
    | SignMultisigPayment address string bytes | CancelMultisigPayment address string
    | GetMultisigPayment address string | ExecuteMultisigPayment address string

primrec run_multisig_call :: "'w host \<Rightarrow> multisig_call \<Rightarrow> ('w, unit) contract" where
  "run_multisig_call h (InitiateMultisigPayment x1 x2 x3 x4 x5 x6 x7 x8) =
     initiate_multisig_payment x1 x2 x3 x4 x5 x6 x7 x8"
| "run_multisig_call h (SignMultisigPayment x1 x2 x3) = sign_multisig_payment x1 x2 x3"
| "run_multisig_call h (CancelMultisigPayment x1 x2) = cancel_multisig_payment x1 x2"
| "run_multisig_call h (GetMultisigPayment x1 x2) =
     bind (get_multisig_payment x1 x2) (\<lambda>_. ret ())"
| "run_multisig_call h (ExecuteMultisigPayment x1 x2) = execute_multisig_payment h x1 x2"

context multisig_frame
begin

lemma pres_run_multisig_call [pres]: "preserves I (run_multisig_call h c)"
  by (cases c) (simp_all, (rule pres)+)

end

section \<open>The multisig machine\<close>

text \<open>
  What the calls do to the stored multisig payments and to the token contracts. Each
  call that returns is one of these steps, or reads only.
\<close>

type_synonym 'w multisig_abs = "(string \<Rightarrow> multisig_payment option) \<times> 'w"

definition open_multisig :: "multisig_payment \<Rightarrow> bool" where
  "open_multisig ms \<longleftrightarrow> \<not> ms_executed ms \<and> \<not> ms_cancelled ms"

inductive multisig_step ::
  "'w host \<Rightarrow> address option \<Rightarrow> nat \<Rightarrow> address set \<Rightarrow> 'w multisig_abs \<Rightarrow> 'w multisig_abs \<Rightarrow> bool"
  for h admin ts sigs where
  initiate: "store (ms_payment_id ms) = None \<Longrightarrow> ms_initiator ms \<in> sigs \<Longrightarrow> 0 < ms_amount ms \<Longrightarrow>
    0 < ms_required_signatures ms \<Longrightarrow> ms_required_signatures ms \<le> length (ms_signers ms) \<Longrightarrow>
    ms_collected ms = [] \<Longrightarrow> open_multisig ms \<Longrightarrow>
    multisig_step h admin ts sigs (store, w) (store(ms_payment_id ms := Some ms), w)"
| sign: "store k = Some ms \<Longrightarrow> open_multisig ms \<Longrightarrow> a \<in> sigs \<Longrightarrow> a \<in> set (ms_signers ms) \<Longrightarrow>
    a \<notin> se_signer ` set (ms_collected ms) \<Longrightarrow> ts < unwrap_or (ms_expires_at ms) u64_max \<Longrightarrow>
    multisig_step h admin ts sigs (store, w)
      (store(ms_payment_id ms := Some (ms\<lparr>ms_collected :=
         ms_collected ms @ [\<lparr>se_signer = a, se_signature = sg\<rparr>]\<rparr>)), w)"
| cancel: "store k = Some ms \<Longrightarrow> open_multisig ms \<Longrightarrow> a \<in> sigs \<Longrightarrow>
    admin = Some a \<or> a = ms_initiator ms \<Longrightarrow>
    multisig_step h admin ts sigs (store, w) (store(ms_payment_id ms := Some (ms\<lparr>ms_cancelled := True\<rparr>)), w)"
| execute: "store k = Some ms \<Longrightarrow> open_multisig ms \<Longrightarrow> payer \<in> sigs \<Longrightarrow>
    ms_required_signatures ms \<le> length (ms_collected ms) \<Longrightarrow>
    ts \<le> unwrap_or (ms_expires_at ms) ts \<Longrightarrow>
    token_transfer h (ms_token ms) payer (ms_merchant_address ms) (ms_amount ms) w = Some w' \<Longrightarrow>
    multisig_step h admin ts sigs (store, w) (store(ms_payment_id ms := Some (ms\<lparr>ms_executed := True\<rparr>)), w')"

inductive_cases multisig_stepE: "multisig_step h admin ts sigs x y"

definition multisig_abs :: "'w env \<Rightarrow> 'w multisig_abs" where
  "multisig_abs s = (k_Multisig (persistent_st s), world s)"

lemma multisig_initiateI:
  "ms_payment_id ms = k \<Longrightarrow> store k = None \<Longrightarrow> ms_initiator ms \<in> sigs \<Longrightarrow> 0 < ms_amount ms \<Longrightarrow>
   0 < ms_required_signatures ms \<Longrightarrow> ms_required_signatures ms \<le> length (ms_signers ms) \<Longrightarrow>
   ms_collected ms = [] \<Longrightarrow> open_multisig ms \<Longrightarrow>
   multisig_step h admin ts sigs (store, w) (store(k := Some ms), w)"
  using initiate [of store ms sigs] by auto

lemma initiate_multisig_refines:
  "initiate_multisig_payment a k m tok n sg rq ex s = (Ok z, t) \<Longrightarrow>
     multisig_step h (st_get_admin s) (now s) (auths s) (multisig_abs s) (multisig_abs t)"
  by (clarsimp simp: initiate_multisig_payment_def exec_simps Let_def)
    (simp add: multisig_abs_def storage_defs, rule multisig_initiateI, simp_all add: open_multisig_def)

lemma sign_multisig_refines:
  "sign_multisig_payment a k b s = (Ok z, t) \<Longrightarrow>
     multisig_step h (st_get_admin s) (now s) (auths s) (multisig_abs s) (multisig_abs t)"
  by (clarsimp simp: sign_multisig_payment_def exec_simps)
    (simp add: multisig_abs_def storage_defs, rule sign,
     auto simp: open_multisig_def list_ex_iff unwrap_or_def)

lemma cancel_multisig_refines:
  "cancel_multisig_payment a k s = (Ok z, t) \<Longrightarrow>
     multisig_step h (st_get_admin s) (now s) (auths s) (multisig_abs s) (multisig_abs t)"
  by (clarsimp simp: cancel_multisig_payment_def exec_simps)
    (simp add: multisig_abs_def storage_defs, rule cancel,
     auto simp: open_multisig_def is_admin_def storage_defs split: option.splits)

lemma ignored_ids_keep:
  "st_add_merchant_payment_id a k s = (Ok (), t) \<or> (\<exists>e. st_add_merchant_payment_id a k s = (Err e, t)) \<Longrightarrow>
   multisig_abs t = multisig_abs s"
  "st_add_payer_payment_id a k s = (Ok (), t) \<or> (\<exists>e. st_add_payer_payment_id a k s = (Err e, t)) \<Longrightarrow>
   multisig_abs t = multisig_abs s"
  by (auto simp: multisig_abs_def st_add_merchant_payment_id_def st_add_payer_payment_id_def exec_comp
      Let_def publish_def extend_ttl_def upd_persistent_def split: if_splits)

lemma execute_multisig_refines:
  assumes "execute_multisig_payment h a k s = (Ok z, t)"
  shows "multisig_step h (st_get_admin s) (now s) (auths s) (multisig_abs s) (multisig_abs t)"
proof -
  from assms obtain ms w where ms: "st_get_multisig k s = Some ms" "open_multisig ms" "a \<in> auths s"
      "ms_required_signatures ms \<le> length (ms_collected ms)" "now s \<le> unwrap_or (ms_expires_at ms) (now s)"
      "token_transfer h (ms_token ms) a (ms_merchant_address ms) (ms_amount ms) (world s) = Some w"
    and t: "multisig_abs t =
        ((k_Multisig (persistent_st s))(ms_payment_id ms := Some (ms\<lparr>ms_executed := True\<rparr>)), w)"
    unfolding execute_multisig_payment_def
    apply (simp add: if_some_guard_Ok_iff exec_simps del: if_some_Ok_iff)
    apply (elim exE conjE)
    apply (drule ignored_ids_keep(1), drule ignored_ids_keep(2), drule add_global_payment_stats_OkD(2))
    apply (simp add: multisig_abs_def storage_defs open_multisig_def unwrap_or_def split: option.splits)
    done
  then show ?thesis
    by (simp add: multisig_abs_def [of s] t execute st_get_multisig_def)
qed

lemmas multisig_refines = initiate_multisig_refines sign_multisig_refines cancel_multisig_refines
  execute_multisig_refines

text \<open>
  Every multisig entry point that returns is a step of the multisig machine, and the
  reader changes nothing. In particular an execution moves exactly the agreed amount to
  the agreed merchant, and only when enough signatures are collected, before the expiry,
  and for a payment that is neither executed nor cancelled.
\<close>

theorem multisig_calls_refine:
  assumes "run_multisig_call h c s = (Ok (), t)"
  shows "multisig_step h (st_get_admin s) (now s) (auths s) (multisig_abs s) (multisig_abs t) \<or>
    t = s \<and> (\<exists>a k. c = GetMultisigPayment a k)"
  using assms
  by (cases c) (auto simp: exec_simps get_multisig_payment_def intro: multisig_refines)

lemma multisig_call_cases:
  "run_multisig_call h c s = (Ok (), t) \<Longrightarrow>
     multisig_step h (st_get_admin s) (now s) (auths s) (multisig_abs s) (multisig_abs t) \<or> t = s"
  by (cases c) (auto simp: exec_simps get_multisig_payment_def intro: multisig_refines)

section \<open>Quorum and life cycle\<close>

text \<open>
  The signatures collected are by distinct listed signers; an executed payment has
  enough of them.
\<close>

definition quorum_ok :: "multisig_payment \<Rightarrow> bool" where
  "quorum_ok ms \<longleftrightarrow> 0 < ms_required_signatures ms \<and> distinct (map se_signer (ms_collected ms)) \<and>
     se_signer ` set (ms_collected ms) \<subseteq> set (ms_signers ms) \<and>
     (ms_executed ms \<longrightarrow> ms_required_signatures ms \<le> length (ms_collected ms)) \<and>
     \<not> (ms_executed ms \<and> ms_cancelled ms)"

definition all_quorum_ok :: "(string \<Rightarrow> multisig_payment option) \<Rightarrow> bool" where
  "all_quorum_ok store \<longleftrightarrow> (\<forall>k ms. store k = Some ms \<longrightarrow> ms_payment_id ms = k \<and> quorum_ok ms)"

lemma all_quorum_okD: "all_quorum_ok store \<Longrightarrow> store k = Some ms \<Longrightarrow> ms_payment_id ms = k \<and> quorum_ok ms"
  by (simp add: all_quorum_ok_def)

lemma all_quorum_ok_upd:
  "all_quorum_ok store \<Longrightarrow> quorum_ok ms \<Longrightarrow> all_quorum_ok (store(ms_payment_id ms := Some ms))"
  by (simp add: all_quorum_ok_def)

lemma quorum_step:
  assumes "multisig_step h admin ts sigs (store, w) (store', w')" and ok: "all_quorum_ok store"
  shows "all_quorum_ok store'"
  using assms(1)
proof cases
  case (initiate ms)
  then have "quorum_ok ms" by (simp add: quorum_ok_def open_multisig_def)
  with initiate ok show ?thesis by (simp add: all_quorum_ok_upd)
next
  case (sign k ms a sg)
  then have "quorum_ok (ms\<lparr>ms_collected := ms_collected ms @ [\<lparr>se_signer = a, se_signature = sg\<rparr>]\<rparr>)"
    using all_quorum_okD [OF ok, of k ms] by (auto simp: quorum_ok_def open_multisig_def)
  with sign all_quorum_ok_upd [OF ok this] show ?thesis by simp
next
  case (cancel k ms a)
  then have "quorum_ok (ms\<lparr>ms_cancelled := True\<rparr>)"
    using all_quorum_okD [OF ok, of k ms] by (auto simp: quorum_ok_def open_multisig_def)
  with cancel all_quorum_ok_upd [OF ok this] show ?thesis by simp
next
  case (execute k ms payer)
  then have "quorum_ok (ms\<lparr>ms_executed := True\<rparr>)"
    using all_quorum_okD [OF ok, of k ms] by (auto simp: quorum_ok_def open_multisig_def)
  with execute all_quorum_ok_upd [OF ok this] show ?thesis by simp
qed

text \<open>The terms never change, signatures are only added, a closed payment is final.\<close>

definition multisig_follows :: "multisig_payment \<Rightarrow> multisig_payment \<Rightarrow> bool" where
  "multisig_follows ms ms' \<longleftrightarrow>
     ms'\<lparr>ms_collected := ms_collected ms, ms_executed := ms_executed ms, ms_cancelled := ms_cancelled ms\<rparr> = ms \<and>
     take (length (ms_collected ms)) (ms_collected ms') = ms_collected ms \<and>
     (open_multisig ms \<or> ms' = ms)"

interpretation msigs: lifecycle st_get_multisig st_set_multisig ms_payment_id multisig_follows
  "\<lambda>ms. \<not> open_multisig ms"
proof unfold_locales
  show "multisig_follows r r" for r by (simp add: multisig_follows_def)
  show "multisig_follows r r''" if "multisig_follows r r'" "multisig_follows r' r''" for r r' r''
  proof -
    from that have "take (length (ms_collected r)) (ms_collected r'') = ms_collected r"
      by (auto simp: multisig_follows_def) (metis min.absorb1 take_take nle_le length_take)
    with that show ?thesis by (cases r; cases r'; cases r'') (auto simp: multisig_follows_def)
  qed
  show "r' = r" if "\<not> open_multisig r" "multisig_follows r r'" for r r'
    using that by (auto simp: multisig_follows_def)
qed

lemma msigs_evolves_upd:
  "k_Multisig (persistent_st s) k = Some ms \<Longrightarrow>
   k_Multisig (persistent_st t) = (k_Multisig (persistent_st s))(k := Some ms') \<Longrightarrow>
   multisig_follows ms ms' \<Longrightarrow> msigs.evolves s t"
  by (simp add: msigs.evolves_def st_get_multisig_def multisig_follows_def)

lemma multisig_step_evolves:
  assumes "multisig_step h admin ts sigs (multisig_abs s) (multisig_abs t)"
    and ok: "all_quorum_ok (k_Multisig (persistent_st s))"
  shows "msigs.evolves s t"
  using assms(1) unfolding multisig_abs_def
proof cases
  case (initiate ms)
  then show ?thesis by (simp add: msigs.evolves_def st_get_multisig_def multisig_follows_def)
next
  case (sign k ms a sg)
  with all_quorum_okD [OF ok, of k ms] msigs_evolves_upd [of s k ms t] show ?thesis
    by (simp add: multisig_follows_def)
next
  case (cancel k ms a)
  with all_quorum_okD [OF ok, of k ms] msigs_evolves_upd [of s k ms t] show ?thesis
    by (simp add: multisig_follows_def)
next
  case (execute k ms payer)
  with all_quorum_okD [OF ok, of k ms] msigs_evolves_upd [of s k ms t] show ?thesis
    by (simp add: multisig_follows_def)
qed

section \<open>Example\<close>

definition multisig_sample :: "(payment_error, unit) outcome \<times> book env" where
  "multisig_sample = initiate_multisig_payment (Addr 2) ''m1'' (Addr 1) (Addr 9) 700 [Addr 2, Addr 3] 2 None
     (shop {Addr 2} 1000)"

lemma multisig_sample_Ok: "multisig_sample = (Ok (), snd multisig_sample)"
  unfolding multisig_sample_def initiate_multisig_payment_def
  by (rule is_Ok_unit)
    (simp add: exec_comp storage_defs helper_defs reference_defs shop_defs const_defs u64_sat_add_def)

theorem multisig_calls_refine_witness:
  "multisig_step sample_host (Some (Addr 5)) 1000 {Addr 2} (multisig_abs (shop {Addr 2} 1000))
     (multisig_abs (snd multisig_sample))"
proof -
  have "run_multisig_call sample_host
      (InitiateMultisigPayment (Addr 2) ''m1'' (Addr 1) (Addr 9) 700 [Addr 2, Addr 3] 2 None)
      (shop {Addr 2} 1000) = (Ok (), snd multisig_sample)"
    using multisig_sample_Ok by (simp add: multisig_sample_def)
  from multisig_calls_refine [OF this] show ?thesis
    by (simp add: shop_def deployed_def now_def st_get_admin_def)
qed

end
