(* ===== verification/Requests.thy ===== *)
theory Requests
  imports Payments
begin

text \<open>
  Payment requests in temporary storage: a merchant creates one with a time to
  live, a payer pays it, the merchant cancels it or the administrator removes the
  expired ones. The index \<open>PaymentRequestIndex\<close> lists the ids of the stored requests.
\<close>

section \<open>Operations\<close>

definition create_payment_request ::
  "address \<Rightarrow> string \<Rightarrow> address \<Rightarrow> int \<Rightarrow> string \<Rightarrow> nat \<Rightarrow> ('w, unit) contract" where
  "create_payment_request merch request_id tok amount memo ttl =
     bind require_not_paused (\<lambda>_.
     bind (require_auth merch) (\<lambda>_.
     bind (require_positive amount) (\<lambda>_.
     bind (require_bounded_string request_id 1 64) (\<lambda>_.
     bind (guard (ttl \<noteq> 0) InvalidTtl) (\<lambda>_.
     bind (gets now) (\<lambda>ts.
     bind (require_some (\<lambda>_. u64_checked_add ts ttl) InvalidTtl) (\<lambda>expires_at.
     bind (guard (\<not> expires_at \<le> ts) InvalidTtl) (\<lambda>_.
     bind (gets (st_is_token_allowed tok)) (\<lambda>allowed.
     bind (guard allowed TokenNotAllowed) (\<lambda>_.
     bind (gets (st_get_payment_request request_id)) (\<lambda>existing.
     bind (guard (existing = None) PaymentAlreadyExists) (\<lambda>_.
     modify (st_set_payment_request
       \<lparr>pr_request_id = request_id, pr_merchant = merch, pr_token = tok, pr_amount = amount,
        pr_memo = memo, pr_expires_at = expires_at\<rparr>)))))))))))))"

definition pay_payment_request :: "'w host \<Rightarrow> address \<Rightarrow> string \<Rightarrow> ('w, unit) contract" where
  "pay_payment_request h payer request_id =
     bind require_not_paused (\<lambda>_.
     bind (require_auth payer) (\<lambda>_.
     bind (require_some (st_get_payment_request request_id) PaymentNotFound) (\<lambda>pr.
     bind (gets now) (\<lambda>ts.
     bind (if pr_expires_at pr < ts
           then bind (modify (st_remove_payment_request request_id)) (\<lambda>_. fail PaymentExpired)
           else ret ()) (\<lambda>_.
     bind (gets (st_get_payment request_id)) (\<lambda>existing.
     bind (guard (existing = None) PaymentAlreadyExists) (\<lambda>_.
     bind (transfer h (pr_token pr) payer (pr_merchant pr) (pr_amount pr)) (\<lambda>_.
     bind (modify (st_set_payment
       \<lparr>p_order_id = pr_request_id pr, p_merchant_address = pr_merchant pr, p_payer = payer,
        p_token = pr_token pr, p_amount = pr_amount pr, p_version = 0, p_status = PCompleted,
        p_paid_at = ts, p_refunded_amount = 0, p_memo = pr_memo pr, p_tags = None,
        p_platform_fee = 0\<rparr>)) (\<lambda>_.
     bind (st_add_merchant_payment_id (pr_merchant pr) (pr_request_id pr)) (\<lambda>_.
     bind (st_add_payer_payment_id payer (pr_request_id pr)) (\<lambda>_.
     bind (add_global_payment_stats (pr_amount pr)) (\<lambda>_.
     bind (modify (st_remove_payment_request request_id)) (\<lambda>_.
     publish T_payment_request_paid None [StrV request_id])))))))))))))"

definition cancel_payment_request :: "address \<Rightarrow> string \<Rightarrow> ('w, unit) contract" where
  "cancel_payment_request caller request_id =
     bind require_not_paused (\<lambda>_.
     bind (require_auth caller) (\<lambda>_.
     bind (require_some (st_get_payment_request request_id) PaymentNotFound) (\<lambda>pr.
     bind (guard (pr_merchant pr = caller) Unauthorized) (\<lambda>_.
     bind (modify (st_remove_payment_request request_id)) (\<lambda>_.
     publish T_payment_request_cancelled None [StrV request_id])))))"

text \<open>One round of the loop of \<open>cancel_expired_payment_requests\<close>.\<close>

definition cancel_one_request :: "nat \<Rightarrow> nat \<Rightarrow> string \<Rightarrow> ('w, nat) contract" where
  "cancel_one_request ts removed request_id =
     bind (gets (st_get_payment_request request_id)) (\<lambda>found.
     case found of
       Some pr \<Rightarrow>
         if pr_expires_at pr < ts
         then bind (modify (st_remove_payment_request request_id)) (\<lambda>_.
              bind (publish T_payment_request_cancelled None [StrV request_id]) (\<lambda>_.
              u32_add removed 1))
         else ret removed
     | None \<Rightarrow>
         bind (modify (st_remove_payment_request request_id)) (\<lambda>_. ret removed))"

definition cancel_expired_payment_requests :: "address \<Rightarrow> ('w, nat) contract" where
  "cancel_expired_payment_requests admin =
     bind (require_admin admin) (\<lambda>_.
     bind (gets now) (\<lambda>ts.
     bind (gets st_get_payment_request_ids) (\<lambda>ids.
     fold_each ids (cancel_one_request ts) 0)))"

section \<open>Frame\<close>

locale request_frame = payment_frame +
  assumes request_ok: "I s \<Longrightarrow> st_get_payment_request k s = Some pr \<Longrightarrow> ok (pr_merchant pr)"
    and I_set_request: "I s \<Longrightarrow> ok (pr_merchant pr) \<Longrightarrow> I (st_set_payment_request pr s)"
    and I_remove_request: "I s \<Longrightarrow> I (st_remove_payment_request k s)"
begin

lemma pres_request_steps [pres]:
  "ok (pr_merchant pr) \<Longrightarrow> preserves I (modify (st_set_payment_request pr))"
  "preserves I (modify (st_remove_payment_request k))"
  by (auto intro: preserves_modify I_set_request I_remove_request)

lemma pres_request_ops [pres]:
  "preserves I (create_payment_request a k t n memo ttl)" "preserves I (cancel_payment_request a k)"
  "preserves I (cancel_expired_payment_requests a)"
  unfolding create_payment_request_def cancel_payment_request_def
    cancel_expired_payment_requests_def cancel_one_request_def
  by (rule pres_know pres | simp)+

lemma pres_pay_payment_request [pres]: "preserves I (pay_payment_request h a k)"
  unfolding pay_payment_request_def
  by (rule pres_know pres | assumption | erule (1) request_ok | simp (no_asm))+

end

section \<open>Calls\<close>

datatype (plugins only:) request_call =
    CreatePaymentRequest address string address int string nat | PayPaymentRequest address string
    | CancelPaymentRequest address string | CancelExpiredPaymentRequests address

primrec run_request_call :: "'w host \<Rightarrow> request_call \<Rightarrow> ('w, unit) contract" where
  "run_request_call h (CreatePaymentRequest x1 x2 x3 x4 x5 x6) =
     create_payment_request x1 x2 x3 x4 x5 x6"
| "run_request_call h (PayPaymentRequest x1 x2) = pay_payment_request h x1 x2"
| "run_request_call h (CancelPaymentRequest x1 x2) = cancel_payment_request x1 x2"
| "run_request_call h (CancelExpiredPaymentRequests x1) =
     bind (cancel_expired_payment_requests x1) (\<lambda>_. ret ())"

context request_frame
begin

lemma pres_run_request_call [pres]: "preserves I (run_request_call h c)"
  by (cases c) (simp_all, (rule pres)+)

end

section \<open>The removal of expired requests\<close>

definition request_view :: "'w env \<Rightarrow> (string \<Rightarrow> payment_request option) \<times> string list" where
  "request_view s = (t_PaymentRequest (temporary_st s), st_get_payment_request_ids s)"

lemma request_view_remove:
  "request_view (st_remove_payment_request k s) =
     ((t_PaymentRequest (temporary_st s))(k := None), filter (\<lambda>i. i \<noteq> k) (st_get_payment_request_ids s))"
  by (auto simp: request_view_def storage_defs Let_def intro!: filter_True [symmetric]
      split: option.splits)

lemma request_view_events: "request_view (s\<lparr>events := es\<rparr>) = request_view s"
  by (simp add: request_view_def storage_defs)

text \<open>An entry that one round of the loop removes: stale, or past its expiry.\<close>

definition lapsed :: "nat \<Rightarrow> payment_request option \<Rightarrow> bool" where
  "lapsed ts x = (case x of None \<Rightarrow> True | Some r \<Rightarrow> pr_expires_at r < ts)"

lemma cancel_one_request_OkD:
  assumes "cancel_one_request ts n k s = (Ok m, t)"
  shows "request_view t = (if lapsed ts (st_get_payment_request k s)
      then ((t_PaymentRequest (temporary_st s))(k := None), filter (\<lambda>i. i \<noteq> k) (st_get_payment_request_ids s))
      else request_view s)"
    "m = n + (if lapsed ts (st_get_payment_request k s) \<and> st_get_payment_request k s \<noteq> None then 1 else 0)"
  using assms
  by (auto simp: cancel_one_request_def exec_simps lapsed_def request_view_remove request_view_events
      split: option.splits if_splits)

lemma cancel_requests_loop:
  assumes "fold_each ids (cancel_one_request ts) n s = (Ok m, t)" and "distinct ids"
  shows "request_view t =
      ((\<lambda>k. if k \<in> set ids \<and> lapsed ts (st_get_payment_request k s) then None else st_get_payment_request k s),
       filter (\<lambda>k. \<not> (k \<in> set ids \<and> lapsed ts (st_get_payment_request k s))) (st_get_payment_request_ids s)) \<and>
    m = n + length (filter (\<lambda>k. lapsed ts (st_get_payment_request k s) \<and> st_get_payment_request k s \<noteq> None) ids)"
  using assms
proof (induction ids arbitrary: n s)
  case Nil
  then show ?case by (simp add: exec_simps request_view_def st_get_payment_request_def fun_eq_iff)
next
  case (Cons k ids)
  then obtain n' u where one: "cancel_one_request ts n k s = (Ok n', u)"
    and rest: "fold_each ids (cancel_one_request ts) n' u = (Ok m, t)" and k: "k \<notin> set ids" "distinct ids"
    by (auto simp: exec_simps)
  note u = cancel_one_request_OkD [OF one]
  have get: "st_get_payment_request i u = (if i = k \<and> lapsed ts (st_get_payment_request k s) then None
      else st_get_payment_request i s)" for i
    using u(1) by (auto simp: request_view_def st_get_payment_request_def split: if_splits)
  have idx: "st_get_payment_request_ids u = filter (\<lambda>i. \<not> (i = k \<and> lapsed ts (st_get_payment_request k s)))
      (st_get_payment_request_ids s)"
    using u(1) by (auto simp: request_view_def split: if_splits)
  have same: "filter (\<lambda>i. lapsed ts (st_get_payment_request i u) \<and> st_get_payment_request i u \<noteq> None) ids =
      filter (\<lambda>i. lapsed ts (st_get_payment_request i s) \<and> st_get_payment_request i s \<noteq> None) ids"
    using k(1) by (intro filter_cong) (auto simp: get)
  from Cons.IH [OF rest k(2)] show ?case
    unfolding same idx u(2) using k(1)
    by (auto simp: get fun_eq_iff intro!: filter_cong)
qed

lemma cancel_expired_requests_effect:
  assumes "cancel_expired_payment_requests a s = (Ok n, t)" and "distinct (st_get_payment_request_ids s)"
  shows "(\<forall>k. st_get_payment_request k t =
      (if k \<in> set (st_get_payment_request_ids s) \<and> lapsed (now s) (st_get_payment_request k s) then None
       else st_get_payment_request k s)) \<and>
    st_get_payment_request_ids t =
      filter (\<lambda>k. \<not> lapsed (now s) (st_get_payment_request k s)) (st_get_payment_request_ids s) \<and>
    n = length (filter (\<lambda>k. lapsed (now s) (st_get_payment_request k s) \<and> st_get_payment_request k s \<noteq> None)
      (st_get_payment_request_ids s)) \<and>
    st_get_admin s = Some a"
proof -
  from assms(1) have adm: "st_get_admin s = Some a"
    and loop: "fold_each (st_get_payment_request_ids s) (cancel_one_request (now s)) 0 s = (Ok n, t)"
    by (auto simp: cancel_expired_payment_requests_def exec_simps)
  from cancel_requests_loop [OF loop assms(2)] adm show ?thesis
    by (auto simp: request_view_def st_get_payment_request_def cong: filter_cong)
qed

section \<open>Paying a request\<close>

text \<open>
  Paying a request that returned: the request existed and had not expired, its exact
  amount moved from the payer to its merchant without a fee, the payment is stored under
  the request's id, and the request is gone, so it cannot be paid again.
\<close>

theorem pay_payment_request_effect:
  assumes "pay_payment_request h payer k s = (Ok (), t)"
  shows "\<exists>r. st_get_payment_request k s = Some r \<and> now s \<le> pr_expires_at r \<and> payer \<in> auths s \<and>
    st_get_payment k s = None \<and>
    token_transfer h (pr_token r) payer (pr_merchant r) (pr_amount r) (world s) = Some (world t) \<and>
    (\<forall>i. st_get_payment i t = (if i = pr_request_id r then Some
       \<lparr>p_order_id = pr_request_id r, p_merchant_address = pr_merchant r, p_payer = payer,
        p_token = pr_token r, p_amount = pr_amount r, p_version = 0, p_status = PCompleted,
        p_paid_at = now s, p_refunded_amount = 0, p_memo = pr_memo r, p_tags = None,
        p_platform_fee = 0\<rparr> else st_get_payment i s)) \<and>
    st_get_payment_request k t = None \<and> k \<notin> set (st_get_payment_request_ids t)"
  using assms unfolding pay_payment_request_def
  apply (clarsimp simp: exec_simps split: if_splits)
  apply (frule add_merchant_payment_id_OkD(2), frule add_merchant_payment_id_OkD(4),
      drule add_merchant_payment_id_OkD(8))
  apply (frule add_payer_payment_id_OkD(2), frule add_payer_payment_id_OkD(4),
      drule add_payer_payment_id_OkD(8))
  apply (drule add_global_payment_stats_OkD(2))
  apply (simp add: storage_defs Let_def split: option.splits)
  done

section \<open>Example\<close>

definition request_shop :: "book env" where
  "request_shop = (let s = shop {Addr 2, Addr 5} 1000 in
     s\<lparr>temporary_st := (temporary_st s)\<lparr>t_PaymentRequest := (\<lambda>_. None)(''q1'' := Some
         \<lparr>pr_request_id = ''q1'', pr_merchant = Addr 1, pr_token = Addr 9, pr_amount = 40,
          pr_memo = ''tea'', pr_expires_at = 1500\<rparr>, ''q2'' := Some
         \<lparr>pr_request_id = ''q2'', pr_merchant = Addr 1, pr_token = Addr 9, pr_amount = 50,
          pr_memo = ''tea'', pr_expires_at = 900\<rparr>),
       t_PaymentRequestIndex := Some [''q1'', ''q2'', ''q3'']\<rparr>\<rparr>)"

definition pay_sample :: "(payment_error, unit) outcome \<times> book env" where
  "pay_sample = pay_payment_request sample_host (Addr 2) ''q1'' request_shop"

theorem pay_payment_request_effect_witness: "st_get_payment_request ''q1'' (snd pay_sample) = None"
proof -
  have "is_Ok (fst pay_sample)"
    unfolding pay_sample_def pay_payment_request_def payment_block_defs request_shop_def
    by (simp add: exec_comp storage_defs helper_defs reference_defs shop_defs const_defs in_i128_def)
  from pay_payment_request_effect [OF trans [OF pay_sample_def [symmetric] is_Ok_unit [OF this]]]
  show ?thesis by blast
qed

end
