(* ===== verification/Subscriptions.thy ===== *)
theory Subscriptions
  imports Merchants
begin

text \<open>
  Recurring payments: plans, subscriptions and their charges, and the reserve, the
  running total of what a subscriber's active subscriptions may still draw in one
  token, which is what the subscriber approves as the contract's allowance.
\<close>

section \<open>Operations\<close>

definition create_subscription_plan ::
  "address \<Rightarrow> string \<Rightarrow> address \<Rightarrow> int \<Rightarrow> nat \<Rightarrow> nat \<Rightarrow> ('w, unit) contract" where
  "create_subscription_plan admin plan_id tok amount interval_secs max_cycles =
     bind require_not_paused (\<lambda>_.
     bind (require_admin_rate_limited admin) (\<lambda>_.
     bind (require_valid_id plan_id) (\<lambda>_.
     bind (require_positive amount) (\<lambda>_.
     bind (guard (\<not> (interval_secs = 0 \<or> max_cycles = 0)) InvalidInput) (\<lambda>_.
     bind (gets (st_is_token_allowed tok)) (\<lambda>allowed.
     bind (guard allowed TokenNotAllowed) (\<lambda>_.
     bind (gets (st_get_subscription_plan plan_id)) (\<lambda>existing.
     bind (guard (existing = None) SubscriptionPlanAlreadyExists) (\<lambda>_.
     bind (gets now) (\<lambda>ts.
     bind (modify (st_set_subscription_plan
       \<lparr>sp_plan_id = plan_id, sp_token = tok, sp_amount = amount,
        sp_interval_secs = interval_secs, sp_max_cycles = max_cycles, sp_created_at = ts\<rparr>)) (\<lambda>_.
     publish T_subscription_plan_created None [StrV plan_id])))))))))))"

text \<open>\<open>approve(subscriber, current_contract_address, reserve, max_live_until_ledger)\<close>.\<close>

definition approve_reserve :: "'w host \<Rightarrow> address \<Rightarrow> address \<Rightarrow> int \<Rightarrow> ('w, unit) contract" where
  "approve_reserve h tok subscriber reserve =
     bind (gets self) (\<lambda>contract_address.
     bind (gets (\<lambda>s. max_live_until_ledger (ledger s))) (\<lambda>live_until.
     approve h tok subscriber contract_address reserve live_until))"

definition subscribe ::
  "'w host \<Rightarrow> address \<Rightarrow> address \<Rightarrow> string \<Rightarrow> string \<Rightarrow> ('w, unit) contract" where
  "subscribe h merch subscriber plan_id subscription_id =
     bind require_not_paused (\<lambda>_.
     bind (require_auth subscriber) (\<lambda>_.
     bind (require_valid_id subscription_id) (\<lambda>_.
     bind (require_some (st_get_subscription_plan plan_id) SubscriptionPlanNotFound) (\<lambda>plan.
     bind (gets (st_get_subscription subscription_id)) (\<lambda>existing.
     bind (guard (existing = None) SubscriptionAlreadyExists) (\<lambda>_.
     bind (require_some (st_get_merchant merch) MerchantNotFound) (\<lambda>m.
     bind (guard (m_active m) MerchantInactive) (\<lambda>_.
     bind (gets now) (\<lambda>ts.
     bind (modify (st_set_subscription
       \<lparr>sub_subscription_id = subscription_id, sub_plan_id = plan_id, sub_merchant = merch,
        sub_subscriber = subscriber, sub_status = SubActive, sub_cycles_charged = 0,
        sub_last_charged_at = ts, sub_created_at = ts\<rparr>)) (\<lambda>_.
     let total_amount = i128_sat_mul (sp_amount plan) (int (sp_max_cycles plan)) in
     bind (gets (st_get_subscription_reserve subscriber (sp_token plan))) (\<lambda>old_reserve.
     let reserve = i128_sat_add old_reserve total_amount in
     bind (modify (st_set_subscription_reserve subscriber (sp_token plan) reserve)) (\<lambda>_.
     bind (approve_reserve h (sp_token plan) subscriber reserve) (\<lambda>_.
     publish T_subscription_created None
       [StrV subscription_id, AddrV subscriber, AddrV merch])))))))))))))"

definition charge_subscription :: "'w host \<Rightarrow> address \<Rightarrow> string \<Rightarrow> ('w, unit) contract" where
  "charge_subscription h merch subscription_id =
     bind require_not_paused (\<lambda>_.
     bind (require_auth merch) (\<lambda>_.
     bind (require_some (st_get_subscription subscription_id) SubscriptionNotFound) (\<lambda>sub.
     bind (guard (merch = sub_merchant sub) Unauthorized) (\<lambda>_.
     bind (guard (sub_status sub \<noteq> SubCancelled) SubscriptionNotActive) (\<lambda>_.
     bind (require_some (st_get_subscription_plan (sub_plan_id sub)) SubscriptionPlanNotFound) (\<lambda>plan.
     bind (gets (st_is_token_allowed (sp_token plan))) (\<lambda>allowed.
     bind (guard allowed TokenNotAllowed) (\<lambda>_.
     bind (require_some (st_get_merchant (sub_merchant sub)) MerchantNotFound) (\<lambda>m.
     bind (guard (m_active m) MerchantInactive) (\<lambda>_.
     bind (guard (\<not> sp_max_cycles plan \<le> sub_cycles_charged sub) SubscriptionMaxCyclesReached) (\<lambda>_.
     bind (gets now) (\<lambda>ts.
     bind (guard (\<not> ts < u64_sat_add (sub_last_charged_at sub) (sp_interval_secs plan))
       SubscriptionIntervalNotElapsed) (\<lambda>_.
     bind (u32_add (sub_cycles_charged sub) 1) (\<lambda>cycles.
     let sub' = sub\<lparr>sub_cycles_charged := cycles, sub_last_charged_at := ts,
                    sub_status := (if sp_max_cycles plan \<le> cycles then SubCompleted
                                   else sub_status sub)\<rparr> in
     bind (modify (st_set_subscription sub')) (\<lambda>_.
     bind (gets (st_get_subscription_reserve (sub_subscriber sub) (sp_token plan))) (\<lambda>old_reserve.
     let reserve = i128_sat_sub old_reserve (sp_amount plan) in
     bind (modify (st_set_subscription_reserve (sub_subscriber sub) (sp_token plan) reserve)) (\<lambda>_.
     bind (gets self) (\<lambda>contract_address.
     bind (transfer_from h (sp_token plan) contract_address (sub_subscriber sub) (sub_merchant sub)
       (sp_amount plan)) (\<lambda>_.
     publish T_subscription_charged None
       [StrV subscription_id, UintV cycles, I128V (sp_amount plan)])))))))))))))))))))"

definition cancel_subscription :: "'w host \<Rightarrow> address \<Rightarrow> string \<Rightarrow> ('w, unit) contract" where
  "cancel_subscription h caller subscription_id =
     bind require_not_paused (\<lambda>_.
     bind (require_auth caller) (\<lambda>_.
     bind (require_some (st_get_subscription subscription_id) SubscriptionNotFound) (\<lambda>sub.
     bind (guard (\<not> (caller \<noteq> sub_merchant sub \<and> caller \<noteq> sub_subscriber sub)) Unauthorized) (\<lambda>_.
     bind (guard (sub_status sub = SubActive) SubscriptionNotActive) (\<lambda>_.
     bind (require_some (st_get_subscription_plan (sub_plan_id sub)) SubscriptionPlanNotFound) (\<lambda>plan.
     bind (modify (st_set_subscription (sub\<lparr>sub_status := SubCancelled\<rparr>))) (\<lambda>_.
     bind (u32_sub (sp_max_cycles plan) (sub_cycles_charged sub)) (\<lambda>cycles_left.
     let remaining = i128_sat_mul (sp_amount plan) (int cycles_left) in
     bind (gets (st_get_subscription_reserve (sub_subscriber sub) (sp_token plan))) (\<lambda>old_reserve.
     let reserve = i128_sat_sub old_reserve remaining in
     bind (modify (st_set_subscription_reserve (sub_subscriber sub) (sp_token plan) reserve)) (\<lambda>_.
     bind (run_if (caller = sub_subscriber sub)
       (approve_reserve h (sp_token plan) (sub_subscriber sub) reserve)) (\<lambda>_.
     publish T_subscription_cancelled None [StrV subscription_id, AddrV caller])))))))))))"

definition renew_subscription_allowance :: "'w host \<Rightarrow> address \<Rightarrow> address \<Rightarrow> ('w, unit) contract" where
  "renew_subscription_allowance h subscriber tok =
     bind require_not_paused (\<lambda>_.
     bind (require_auth subscriber) (\<lambda>_.
     bind (gets (st_get_subscription_reserve subscriber tok)) (\<lambda>reserve.
     approve_reserve h tok subscriber reserve)))"

definition get_subscription_plan :: "string \<Rightarrow> ('w, subscription_plan) contract" where
  "get_subscription_plan plan_id =
     require_some (st_get_subscription_plan plan_id) SubscriptionPlanNotFound"

definition get_subscription :: "string \<Rightarrow> ('w, subscription) contract" where
  "get_subscription subscription_id =
     require_some (st_get_subscription subscription_id) SubscriptionNotFound"

section \<open>Frame\<close>

locale subscription_frame = auth_frame + token_frame +
  assumes subscription_ok: "I s \<Longrightarrow> st_get_subscription k s = Some b \<Longrightarrow> ok (sub_subscriber b)"
    and I_set_plan: "I s \<Longrightarrow> I (st_set_subscription_plan p s)"
    and I_set_subscription: "I s \<Longrightarrow> ok (sub_subscriber b) \<Longrightarrow> I (st_set_subscription b s)"
    and I_set_reserve: "I s \<Longrightarrow> I (st_set_subscription_reserve a t n s)"
begin

lemma pres_subscription_steps [pres]:
  "preserves I (modify (st_set_subscription_plan p))"
  "ok (sub_subscriber b) \<Longrightarrow> preserves I (modify (st_set_subscription b))"
  "preserves I (modify (st_set_subscription_reserve a t n))"
  by (auto intro: preserves_modify I_set_plan I_set_subscription I_set_reserve)

lemma pres_approve_reserve [pres]: "preserves I (approve_reserve h t a n)"
  unfolding approve_reserve_def by (rule pres)+

lemma pres_plan_ops [pres]:
  "preserves I (create_subscription_plan ad k t n iv mx)"
  "preserves I (renew_subscription_allowance h a t)" "preserves I (get_subscription_plan k)"
  "preserves I (get_subscription k)"
  unfolding create_subscription_plan_def renew_subscription_allowance_def
    get_subscription_plan_def get_subscription_def
  by (rule pres)+

lemma pres_subscription_ops [pres]:
  "preserves I (subscribe h m a pk k)" "preserves I (charge_subscription h m k)"
  "preserves I (cancel_subscription h a k)"
  unfolding subscribe_def charge_subscription_def cancel_subscription_def
  by (rule pres_know pres | erule (1) subscription_ok | simp (no_asm))+

end

section \<open>Calls\<close>

datatype (plugins only:) subscription_call =
    CreateSubscriptionPlan address string address int nat nat
    | Subscribe address address string string | ChargeSubscription address string
    | CancelSubscription address string | RenewSubscriptionAllowance address address
    | GetSubscriptionPlan string | GetSubscription string

primrec run_subscription_call :: "'w host \<Rightarrow> subscription_call \<Rightarrow> ('w, unit) contract" where
  "run_subscription_call h (CreateSubscriptionPlan x1 x2 x3 x4 x5 x6) =
     create_subscription_plan x1 x2 x3 x4 x5 x6"
| "run_subscription_call h (Subscribe x1 x2 x3 x4) = subscribe h x1 x2 x3 x4"
| "run_subscription_call h (ChargeSubscription x1 x2) = charge_subscription h x1 x2"
| "run_subscription_call h (CancelSubscription x1 x2) = cancel_subscription h x1 x2"
| "run_subscription_call h (RenewSubscriptionAllowance x1 x2) =
     renew_subscription_allowance h x1 x2"
| "run_subscription_call h (GetSubscriptionPlan x1) =
     bind (get_subscription_plan x1) (\<lambda>_. ret ())"
| "run_subscription_call h (GetSubscription x1) = bind (get_subscription x1) (\<lambda>_. ret ())"

context subscription_frame
begin

lemma pres_run_subscription_call [pres]: "preserves I (run_subscription_call h c)"
  by (cases c) (simp_all, (rule pres)+)

end

section \<open>The reserve\<close>

lemma reserve_view:
  "k_Sub (persistent_st (st_set_subscription_reserve a tok n s)) = k_Sub (persistent_st s)"
  "k_SP (persistent_st (st_set_subscription_reserve a tok n s)) = k_SP (persistent_st s)"
  "instance_st (st_set_subscription_reserve a tok n s) = instance_st s"
  "world (st_set_subscription_reserve a tok n s) = world s"
  "ledger (st_set_subscription_reserve a tok n s) = ledger s"
  "self (st_set_subscription_reserve a tok n s) = self s"
  "k_SR (persistent_st (st_set_subscription_reserve a tok n s)) =
     (k_SR (persistent_st s))(a := (k_SR (persistent_st s) a)(tok := if n \<le> 0 then None else Some n))"
  by (simp_all add: storage_defs)

lemma unwrap_reserve: "unwrap_or (if n \<le> 0 then None else Some n) 0 = max 0 (n :: int)"
  by (simp add: unwrap_or_def)

section \<open>Charges\<close>

text \<open>
  C24. A charge that returned is by the subscription's own merchant, for an active
  merchant and a token still allowed, at least one interval after the previous charge,
  and never beyond the plan's number of cycles. It moves exactly the plan's amount from
  the subscriber to the merchant, counts one cycle, lowers the reserve by the amount, and
  completes the subscription with the last cycle.
\<close>

theorem charge_subscription_effect:
  assumes "charge_subscription h m k s = (Ok (), t)"
  shows "\<exists>b p. st_get_subscription k s = Some b \<and> st_get_subscription_plan (sub_plan_id b) s = Some p \<and>
    m = sub_merchant b \<and> m \<in> auths s \<and> sub_status b \<noteq> SubCancelled \<and>
    st_is_token_allowed (sp_token p) s \<and> sub_cycles_charged b < sp_max_cycles p \<and>
    u64_sat_add (sub_last_charged_at b) (sp_interval_secs p) \<le> now s \<and>
    token_transfer_from h (sp_token p) (self s) (sub_subscriber b) m (sp_amount p) (world s) = Some (world t) \<and>
    st_get_subscription (sub_subscription_id b) t = Some (b\<lparr>
      sub_cycles_charged := sub_cycles_charged b + 1, sub_last_charged_at := now s,
      sub_status := (if sp_max_cycles p \<le> sub_cycles_charged b + 1 then SubCompleted else sub_status b)\<rparr>) \<and>
    st_get_subscription_reserve (sub_subscriber b) (sp_token p) t =
      max 0 (i128_sat_sub (st_get_subscription_reserve (sub_subscriber b) (sp_token p) s) (sp_amount p))"
  using assms unfolding charge_subscription_def
  by (clarsimp simp: exec_simps Let_def split del: if_split)
    (simp add: storage_defs reserve_view unwrap_reserve split del: if_split
      del: st_set_subscription_reserve_def unwrap_or_def)

section \<open>The subscription machine\<close>

text \<open>What the calls do to the stored subscriptions; \<open>plans\<close> are the stored plans.\<close>

inductive subscription_step ::
  "(string \<Rightarrow> subscription_plan option) \<Rightarrow> nat \<Rightarrow> address set \<Rightarrow>
   (string \<Rightarrow> subscription option) \<Rightarrow> (string \<Rightarrow> subscription option) \<Rightarrow> bool"
  for plans ts sigs subs where
  keep: "subscription_step plans ts sigs subs subs"
| enrol: "subs (sub_subscription_id b) = None \<Longrightarrow> sub_status b = SubActive \<Longrightarrow> sub_cycles_charged b = 0 \<Longrightarrow>
    sub_last_charged_at b = ts \<Longrightarrow> sub_created_at b = ts \<Longrightarrow> sub_subscriber b \<in> sigs \<Longrightarrow> plans (sub_plan_id b) \<noteq> None \<Longrightarrow>
    subscription_step plans ts sigs subs (subs(sub_subscription_id b := Some b))"
| charge: "subs k = Some b \<Longrightarrow> plans (sub_plan_id b) = Some p \<Longrightarrow> sub_status b \<noteq> SubCancelled \<Longrightarrow>
    sub_merchant b \<in> sigs \<Longrightarrow> sub_cycles_charged b < sp_max_cycles p \<Longrightarrow>
    u64_sat_add (sub_last_charged_at b) (sp_interval_secs p) \<le> ts \<Longrightarrow>
    subscription_step plans ts sigs subs (subs(sub_subscription_id b := Some (b\<lparr>
      sub_cycles_charged := sub_cycles_charged b + 1, sub_last_charged_at := ts,
      sub_status := (if sp_max_cycles p \<le> sub_cycles_charged b + 1 then SubCompleted else sub_status b)\<rparr>)))"
| close: "subs k = Some b \<Longrightarrow> sub_status b = SubActive \<Longrightarrow> a \<in> sigs \<Longrightarrow>
    a \<in> {sub_merchant b, sub_subscriber b} \<Longrightarrow>
    subscription_step plans ts sigs subs (subs(sub_subscription_id b := Some (b\<lparr>sub_status := SubCancelled\<rparr>)))"

inductive_cases subscription_stepE: "subscription_step plans ts sigs subs subs'"

definition subscription_step_of :: "'w env \<Rightarrow> 'w env \<Rightarrow> bool" where
  "subscription_step_of s t \<longleftrightarrow> subscription_step (k_SP (persistent_st s)) (now s) (auths s)
     (k_Sub (persistent_st s)) (k_Sub (persistent_st t))"

lemma subscription_step_same:
  "k_Sub (persistent_st t) = k_Sub (persistent_st s) \<Longrightarrow> subscription_step_of s t"
  by (simp add: subscription_step_of_def keep)

lemma openI:
  "sub_subscription_id b = k \<Longrightarrow> subs k = None \<Longrightarrow> sub_status b = SubActive \<Longrightarrow> sub_cycles_charged b = 0 \<Longrightarrow>
   sub_last_charged_at b = ts \<Longrightarrow> sub_created_at b = ts \<Longrightarrow> sub_subscriber b \<in> sigs \<Longrightarrow> plans (sub_plan_id b) \<noteq> None \<Longrightarrow>
   subscription_step plans ts sigs subs (subs(k := Some b))"
  using enrol [of subs b ts sigs plans] by auto

lemma subscribe_refines: "subscribe h m a pl k s = (Ok z, t) \<Longrightarrow> subscription_step_of s t"
  by (clarsimp simp: subscribe_def approve_reserve_def exec_simps Let_def)
    (simp add: subscription_step_of_def storage_defs, rule openI, auto)

lemma charge_refines:
  assumes "charge_subscription h m k s = (Ok z, t)"
  shows "subscription_step_of s t"
proof -
  from assms obtain b p where b: "k_Sub (persistent_st s) k = Some b"
      "k_SP (persistent_st s) (sub_plan_id b) = Some p" "sub_status b \<noteq> SubCancelled"
      "sub_merchant b \<in> auths s" "sub_cycles_charged b < sp_max_cycles p"
      "u64_sat_add (sub_last_charged_at b) (sp_interval_secs p) \<le> now s"
    and t: "k_Sub (persistent_st t) = (k_Sub (persistent_st s))(sub_subscription_id b := Some (b\<lparr>
      sub_cycles_charged := sub_cycles_charged b + 1, sub_last_charged_at := now s,
      sub_status := (if sp_max_cycles p \<le> sub_cycles_charged b + 1 then SubCompleted else sub_status b)\<rparr>))"
    unfolding charge_subscription_def
    by (clarsimp simp: exec_simps Let_def)
      (simp add: storage_defs reserve_view split del: if_split del: st_set_subscription_reserve_def)
  show ?thesis unfolding subscription_step_of_def t by (rule charge) (use b in auto)
qed

lemma cancel_subscription_refines:
  assumes "cancel_subscription h a k s = (Ok z, t)"
  shows "subscription_step_of s t"
proof -
  from assms obtain b where b: "k_Sub (persistent_st s) k = Some b" "sub_status b = SubActive"
      "a \<in> auths s" "a \<in> {sub_merchant b, sub_subscriber b}"
    and t: "k_Sub (persistent_st t) =
      (k_Sub (persistent_st s))(sub_subscription_id b := Some (b\<lparr>sub_status := SubCancelled\<rparr>))"
    unfolding cancel_subscription_def approve_reserve_def run_if_def
    by (cases "a = sub_subscriber (the (st_get_subscription k s))")
      (auto simp: exec_simps Let_def storage_defs reserve_view simp del: st_set_subscription_reserve_def
        split: if_splits)
  show ?thesis unfolding subscription_step_of_def t by (rule close) (use b in auto)
qed

lemma subscription_reads:
  "create_subscription_plan ad k tok n iv mx s = (Ok z, t) \<Longrightarrow> subscription_step_of s t"
  "renew_subscription_allowance h a tok s = (Ok z, t) \<Longrightarrow> subscription_step_of s t"
  "get_subscription_plan k s = (Ok p, t) \<Longrightarrow> subscription_step_of s t"
  "get_subscription k s = (Ok b, t) \<Longrightarrow> subscription_step_of s t"
  by (rule subscription_step_same, clarsimp simp: create_subscription_plan_def approve_reserve_def
      renew_subscription_allowance_def get_subscription_plan_def get_subscription_def exec_simps
      storage_defs)+

lemma subscription_call_step: "run_subscription_call h c s = (Ok (), t) \<Longrightarrow> subscription_step_of s t"
  by (cases c) (auto simp: exec_simps intro: subscribe_refines charge_refines
      cancel_subscription_refines subscription_reads)

text \<open>Plans are written once.\<close>

lemma plans_written_once:
  assumes "run_subscription_call h c s = (Ok (), t)" and "k_SP (persistent_st s) k = Some p"
  shows "k_SP (persistent_st t) k = Some p"
  using assms
  by (cases c)
    (auto simp: exec_simps create_subscription_plan_def subscribe_def charge_subscription_def
      cancel_subscription_def renew_subscription_allowance_def approve_reserve_def
      get_subscription_plan_def get_subscription_def storage_defs reserve_view Let_def
      simp del: st_set_subscription_reserve_def split: if_splits)

section \<open>Example\<close>

text \<open>A plan of 100 per 50 seconds for three cycles, subscribed at time 1000.\<close>

definition sub_shop :: "book env" where
  "sub_shop = (let s = shop {Addr 1} 2000 in
     s\<lparr>persistent_st := (persistent_st s)\<lparr>
         k_SP := (\<lambda>_. None)(''p1'' := Some \<lparr>sp_plan_id = ''p1'', sp_token = Addr 9, sp_amount = 100,
           sp_interval_secs = 50, sp_max_cycles = 3, sp_created_at = 900\<rparr>),
         k_Sub := (\<lambda>_. None)(''s1'' := Some \<lparr>sub_subscription_id = ''s1'', sub_plan_id = ''p1'',
           sub_merchant = Addr 1, sub_subscriber = Addr 2, sub_status = SubActive,
           sub_cycles_charged = 0, sub_last_charged_at = 1000, sub_created_at = 1000\<rparr>),
         k_SR := (\<lambda>_ _. None)(Addr 2 := (\<lambda>_. None)(Addr 9 := Some 300))\<rparr>,
       world := rich\<lparr>allowance := (\<lambda>_ _ _. 300)\<rparr>\<rparr>)"

definition charge_sample :: "(payment_error, unit) outcome \<times> book env" where
  "charge_sample = charge_subscription sample_host (Addr 1) ''s1'' sub_shop"

theorem charge_subscription_effect_witness:
  "st_get_subscription_reserve (Addr 2) (Addr 9) (snd charge_sample) = 200"
proof -
  have "is_Ok (fst charge_sample)"
    unfolding charge_sample_def charge_subscription_def sub_shop_def
    by (simp add: exec_comp storage_defs helper_defs reference_defs shop_defs const_defs in_i128_def
        u64_sat_add_def i128_sat_sub_def i128_clamp_def)
  from charge_subscription_effect [OF trans [OF charge_sample_def [symmetric] is_Ok_unit [OF this]]]
  obtain b p where "st_get_subscription ''s1'' sub_shop = Some b"
    and "st_get_subscription_plan (sub_plan_id b) sub_shop = Some p"
    and "st_get_subscription_reserve (sub_subscriber b) (sp_token p) (snd charge_sample) =
      max 0 (i128_sat_sub (st_get_subscription_reserve (sub_subscriber b) (sp_token p) sub_shop) (sp_amount p))"
    by blast
  moreover from this(1) have "sub_plan_id b = ''p1''" "sub_subscriber b = Addr 2"
    by (auto simp: sub_shop_def st_get_subscription_def Let_def)
  moreover have "k_SP (persistent_st sub_shop) ''p1'' = Some \<lparr>sp_plan_id = ''p1'', sp_token = Addr 9,
      sp_amount = 100, sp_interval_secs = 50, sp_max_cycles = 3, sp_created_at = 900\<rparr>"
    by (simp add: sub_shop_def Let_def)
  moreover have "st_get_subscription_reserve (Addr 2) (Addr 9) sub_shop = 300"
    by (simp add: sub_shop_def st_get_subscription_reserve_def unwrap_or_def Let_def)
  ultimately show ?thesis
    by (auto simp: st_get_subscription_plan_def i128_sat_sub_def i128_clamp_def const_defs)
qed

end
