(* ===== verification/Escrow.thy ===== *)
theory Escrow
  imports Merchants
begin

text \<open>
  The two escrows: the time-locked one (\<open>create_escrow\<close>, \<open>release_escrow\<close>,
  \<open>cancel_escrow_before_lock\<close>) and the conditional hold with an arbiter
  (\<open>escrow_hold\<close>, \<open>escrow_release\<close>, \<open>escrow_cancel\<close>). Both keep the funds on the
  contract's own address.
\<close>

section \<open>Time-locked escrow\<close>

definition create_escrow ::
  "'w host \<Rightarrow> address \<Rightarrow> address \<Rightarrow> int \<Rightarrow> address \<Rightarrow> nat \<Rightarrow> string \<Rightarrow> ('w, unit) contract" where
  "create_escrow h payer merch amount tok unlock_at order_id =
     bind require_not_paused (\<lambda>_.
     bind (require_auth payer) (\<lambda>_.
     bind (require_positive amount) (\<lambda>_.
     bind (require_valid_id order_id) (\<lambda>_.
     bind (gets now) (\<lambda>ts.
     bind (guard (\<not> unlock_at \<le> ts) InvalidInput) (\<lambda>_.
     bind (gets (st_is_token_allowed tok)) (\<lambda>allowed.
     bind (guard allowed TokenNotAllowed) (\<lambda>_.
     bind (gets (st_get_escrow order_id)) (\<lambda>existing.
     bind (guard (existing = None) EscrowAlreadyExists) (\<lambda>_.
     bind (require_some (st_get_merchant merch) MerchantNotFound) (\<lambda>m.
     bind (guard (m_active m) MerchantInactive) (\<lambda>_.
     bind (gets self) (\<lambda>contract_address.
     bind (transfer h tok payer contract_address amount) (\<lambda>_.
     bind (modify (st_set_escrow
       \<lparr>e_order_id = order_id, e_payer = payer, e_merchant = merch, e_token = tok,
        e_amount = amount, e_unlock_at = unlock_at, e_status = ELocked, e_created_at = ts\<rparr>)) (\<lambda>_.
     publish T_escrow_created None [StrV order_id, I128V amount])))))))))))))))"

definition release_escrow :: "'w host \<Rightarrow> string \<Rightarrow> ('w, unit) contract" where
  "release_escrow h order_id =
     bind require_not_paused (\<lambda>_.
     bind (require_some (st_get_escrow order_id) EscrowNotFound) (\<lambda>e.
     bind (guard (e_status e = ELocked) EscrowAlreadyFinalised) (\<lambda>_.
     bind (gets now) (\<lambda>ts.
     bind (guard (\<not> ts < e_unlock_at e) EscrowNotUnlocked) (\<lambda>_.
     bind (modify (st_set_escrow (e\<lparr>e_status := EReleased\<rparr>))) (\<lambda>_.
     bind (gets self) (\<lambda>contract_address.
     bind (transfer h (e_token e) contract_address (e_merchant e) (e_amount e)) (\<lambda>_.
     publish T_escrow_released None [StrV order_id, I128V (e_amount e)]))))))))"

definition cancel_escrow_before_lock :: "'w host \<Rightarrow> address \<Rightarrow> string \<Rightarrow> ('w, unit) contract" where
  "cancel_escrow_before_lock h payer order_id =
     bind require_not_paused (\<lambda>_.
     bind (require_auth payer) (\<lambda>_.
     bind (require_some (st_get_escrow order_id) EscrowNotFound) (\<lambda>e.
     bind (guard (e_status e = ELocked) EscrowAlreadyFinalised) (\<lambda>_.
     bind (guard (e_payer e = payer) EscrowUnauthorised) (\<lambda>_.
     bind (gets now) (\<lambda>ts.
     bind (guard (\<not> e_unlock_at e \<le> ts) EscrowLockExpired) (\<lambda>_.
     bind (modify (st_set_escrow (e\<lparr>e_status := ECancelled\<rparr>))) (\<lambda>_.
     bind (gets self) (\<lambda>contract_address.
     bind (transfer h (e_token e) contract_address (e_payer e) (e_amount e)) (\<lambda>_.
     publish T_escrow_cancelled None [StrV order_id, I128V (e_amount e)]))))))))))"

definition get_escrow :: "string \<Rightarrow> ('w, escrow_record) contract" where
  "get_escrow order_id = require_some (st_get_escrow order_id) EscrowNotFound"

section \<open>Conditional hold\<close>

definition escrow_hold ::
  "'w host \<Rightarrow> address \<Rightarrow> string \<Rightarrow> address \<Rightarrow> address \<Rightarrow> int \<Rightarrow> bytes \<Rightarrow> address \<Rightarrow> nat \<Rightarrow>
   ('w, escrow_hold_record) contract" where
  "escrow_hold h payer escrow_id merch tok amount condition_hash arbiter timeout_at =
     bind require_not_paused (\<lambda>_.
     bind (require_auth payer) (\<lambda>_.
     bind (require_positive amount) (\<lambda>_.
     bind (require_valid_id escrow_id) (\<lambda>_.
     bind (guard (length condition_hash = 32) InvalidInput) (\<lambda>_.
     bind (gets now) (\<lambda>ts.
     bind (guard (\<not> timeout_at \<le> ts) InvalidInput) (\<lambda>_.
     bind (gets (st_is_token_allowed tok)) (\<lambda>allowed.
     bind (guard allowed TokenNotAllowed) (\<lambda>_.
     bind (gets (st_get_escrow_hold escrow_id)) (\<lambda>existing.
     bind (guard (existing = None) EscrowAlreadyExists) (\<lambda>_.
     bind (require_some (st_get_merchant merch) MerchantNotFound) (\<lambda>m.
     bind (guard (m_active m) MerchantInactive) (\<lambda>_.
     bind (gets self) (\<lambda>contract_address.
     bind (transfer h tok payer contract_address amount) (\<lambda>_.
     let hold = \<lparr>eh_escrow_id = escrow_id, eh_payer = payer, eh_merchant = merch, eh_token = tok,
                 eh_amount = amount, eh_condition_hash = condition_hash, eh_arbiter = arbiter,
                 eh_timeout_at = timeout_at, eh_status = HHeld, eh_created_at = ts\<rparr> in
     bind (modify (st_set_escrow_hold hold)) (\<lambda>_.
     bind (publish T_escrow_held None
       [StrV escrow_id, AddrV payer, AddrV merch, I128V amount, BytesV condition_hash]) (\<lambda>_.
     ret hold)))))))))))))))))"

definition escrow_release :: "'w host \<Rightarrow> address \<Rightarrow> string \<Rightarrow> ('w, unit) contract" where
  "escrow_release h caller escrow_id =
     bind require_not_paused (\<lambda>_.
     bind (require_auth caller) (\<lambda>_.
     bind (require_some (st_get_escrow_hold escrow_id) EscrowNotFound) (\<lambda>e.
     bind (guard (eh_status e = HHeld) EscrowAlreadyFinalised) (\<lambda>_.
     bind (gets now) (\<lambda>ts.
     let is_arbiter = (eh_arbiter e = caller); timeout_passed = (eh_timeout_at e \<le> ts) in
     bind (guard (\<not> (\<not> is_arbiter \<and> \<not> timeout_passed)) EscrowNotUnlocked) (\<lambda>_.
     bind (modify (st_set_escrow_hold (e\<lparr>eh_status := HReleased\<rparr>))) (\<lambda>_.
     bind (gets self) (\<lambda>contract_address.
     bind (transfer h (eh_token e) contract_address (eh_merchant e) (eh_amount e)) (\<lambda>_.
     publish T_escrow_released None
       [StrV escrow_id, AddrV (eh_merchant e), I128V (eh_amount e)])))))))))"

definition escrow_cancel :: "'w host \<Rightarrow> address \<Rightarrow> string \<Rightarrow> ('w, unit) contract" where
  "escrow_cancel h caller escrow_id =
     bind require_not_paused (\<lambda>_.
     bind (require_auth caller) (\<lambda>_.
     bind (require_some (st_get_escrow_hold escrow_id) EscrowNotFound) (\<lambda>e.
     bind (guard (eh_status e = HHeld) EscrowAlreadyFinalised) (\<lambda>_.
     bind (guard (eh_payer e = caller) EscrowUnauthorised) (\<lambda>_.
     bind (gets now) (\<lambda>ts.
     bind (guard (\<not> eh_timeout_at e \<le> ts) EscrowLockExpired) (\<lambda>_.
     bind (modify (st_set_escrow_hold (e\<lparr>eh_status := HCancelled\<rparr>))) (\<lambda>_.
     bind (gets self) (\<lambda>contract_address.
     bind (transfer h (eh_token e) contract_address (eh_payer e) (eh_amount e)) (\<lambda>_.
     publish T_escrow_cancelled None
       [StrV escrow_id, AddrV (eh_payer e), I128V (eh_amount e)]))))))))))"

definition get_escrow_hold :: "string \<Rightarrow> ('w, escrow_hold_record) contract" where
  "get_escrow_hold escrow_id = require_some (st_get_escrow_hold escrow_id) EscrowNotFound"

section \<open>Frame\<close>

text \<open>
  The funds move in both directions here, so this frame is only for predicates that
  do not read the token contracts at all.
\<close>

locale escrow_frame = token_frame +
  assumes I_world: "I s \<Longrightarrow> I (s\<lparr>world := w\<rparr>)"
    and I_set_escrow: "I s \<Longrightarrow> I (st_set_escrow e s)"
    and I_set_hold: "I s \<Longrightarrow> I (st_set_escrow_hold eh s)"
begin

lemma pres_escrow_steps [pres]:
  "preserves I (modify (st_set_escrow e))" "preserves I (modify (st_set_escrow_hold eh))"
  by (auto intro: preserves_modify I_set_escrow I_set_hold)

lemma pres_escrow_ops [pres]:
  "preserves I (create_escrow h a m n t u k)" "preserves I (release_escrow h k)"
  "preserves I (cancel_escrow_before_lock h a k)" "preserves I (get_escrow k)"
  "preserves I (escrow_hold h a k m t n c ar ts)" "preserves I (escrow_release h a k)"
  "preserves I (escrow_cancel h a k)" "preserves I (get_escrow_hold k)"
  unfolding create_escrow_def release_escrow_def cancel_escrow_before_lock_def get_escrow_def
    escrow_hold_def escrow_release_def escrow_cancel_def get_escrow_hold_def
  by (rule preserves_token I_world pres | assumption)+

end

section \<open>Calls\<close>

datatype (plugins only:) escrow_call =
    CreateEscrow address address int address nat string | ReleaseEscrow string
    | CancelEscrowBeforeLock address string | GetEscrow string
    | EscrowHoldCall address string address address int bytes address nat
    | EscrowReleaseCall address string | EscrowCancelCall address string | GetEscrowHold string

primrec run_escrow_call :: "'w host \<Rightarrow> escrow_call \<Rightarrow> ('w, unit) contract" where
  "run_escrow_call h (CreateEscrow x1 x2 x3 x4 x5 x6) = create_escrow h x1 x2 x3 x4 x5 x6"
| "run_escrow_call h (ReleaseEscrow x1) = release_escrow h x1"
| "run_escrow_call h (CancelEscrowBeforeLock x1 x2) = cancel_escrow_before_lock h x1 x2"
| "run_escrow_call h (GetEscrow x1) = bind (get_escrow x1) (\<lambda>_. ret ())"
| "run_escrow_call h (EscrowHoldCall x1 x2 x3 x4 x5 x6 x7 x8) =
     bind (escrow_hold h x1 x2 x3 x4 x5 x6 x7 x8) (\<lambda>_. ret ())"
| "run_escrow_call h (EscrowReleaseCall x1 x2) = escrow_release h x1 x2"
| "run_escrow_call h (EscrowCancelCall x1 x2) = escrow_cancel h x1 x2"
| "run_escrow_call h (GetEscrowHold x1) = bind (get_escrow_hold x1) (\<lambda>_. ret ())"

context escrow_frame
begin

lemma pres_run_escrow_call [pres]: "preserves I (run_escrow_call h c)"
  by (cases c) (simp_all, (rule pres)+)

end

section \<open>The escrow machine\<close>

text \<open>
  What the two escrows promise, without storage and events: a map of time locks, a map
  of holds, and the token contracts. \<open>C\<close> is the contract's address, \<open>ts\<close> the time
  and \<open>signers\<close> the authorised addresses. Every successful call is one step.
\<close>

type_synonym 'w escrow_abs =
  "(string \<Rightarrow> escrow_record option) \<times> (string \<Rightarrow> escrow_hold_record option) \<times> 'w"

inductive escrow_step ::
  "'w host \<Rightarrow> address \<Rightarrow> nat \<Rightarrow> address set \<Rightarrow> 'w escrow_abs \<Rightarrow> 'w escrow_abs \<Rightarrow> bool"
  for h C ts signers where
  lock: "locks (e_order_id e) = None \<Longrightarrow> e_status e = ELocked \<Longrightarrow> 0 < e_amount e \<Longrightarrow>
    ts < e_unlock_at e \<Longrightarrow> e_payer e \<in> signers \<Longrightarrow>
    token_transfer h (e_token e) (e_payer e) C (e_amount e) w = Some w' \<Longrightarrow>
    escrow_step h C ts signers (locks, holds, w) (locks(e_order_id e := Some e), holds, w')"
| release: "locks k = Some e \<Longrightarrow> e_status e = ELocked \<Longrightarrow> e_unlock_at e \<le> ts \<Longrightarrow>
    token_transfer h (e_token e) C (e_merchant e) (e_amount e) w = Some w' \<Longrightarrow>
    escrow_step h C ts signers (locks, holds, w)
      (locks(e_order_id e := Some (e\<lparr>e_status := EReleased\<rparr>)), holds, w')"
| cancel: "locks k = Some e \<Longrightarrow> e_status e = ELocked \<Longrightarrow> ts < e_unlock_at e \<Longrightarrow> e_payer e \<in> signers \<Longrightarrow>
    token_transfer h (e_token e) C (e_payer e) (e_amount e) w = Some w' \<Longrightarrow>
    escrow_step h C ts signers (locks, holds, w)
      (locks(e_order_id e := Some (e\<lparr>e_status := ECancelled\<rparr>)), holds, w')"
| hold: "holds (eh_escrow_id e) = None \<Longrightarrow> eh_status e = HHeld \<Longrightarrow> 0 < eh_amount e \<Longrightarrow>
    ts < eh_timeout_at e \<Longrightarrow> eh_payer e \<in> signers \<Longrightarrow>
    token_transfer h (eh_token e) (eh_payer e) C (eh_amount e) w = Some w' \<Longrightarrow>
    escrow_step h C ts signers (locks, holds, w) (locks, holds(eh_escrow_id e := Some e), w')"
| hold_release: "holds k = Some e \<Longrightarrow> eh_status e = HHeld \<Longrightarrow> a \<in> signers \<Longrightarrow>
    a = eh_arbiter e \<or> eh_timeout_at e \<le> ts \<Longrightarrow>
    token_transfer h (eh_token e) C (eh_merchant e) (eh_amount e) w = Some w' \<Longrightarrow>
    escrow_step h C ts signers (locks, holds, w)
      (locks, holds(eh_escrow_id e := Some (e\<lparr>eh_status := HReleased\<rparr>)), w')"
| hold_cancel: "holds k = Some e \<Longrightarrow> eh_status e = HHeld \<Longrightarrow> ts < eh_timeout_at e \<Longrightarrow>
    eh_payer e \<in> signers \<Longrightarrow>
    token_transfer h (eh_token e) C (eh_payer e) (eh_amount e) w = Some w' \<Longrightarrow>
    escrow_step h C ts signers (locks, holds, w)
      (locks, holds(eh_escrow_id e := Some (e\<lparr>eh_status := HCancelled\<rparr>)), w')"

inductive_cases escrow_stepE: "escrow_step h C ts signers x y"

definition escrow_abs :: "'w env \<Rightarrow> 'w escrow_abs" where
  "escrow_abs s = (k_Escrow (persistent_st s), k_EscrowHold (persistent_st s), world s)"

lemma escrow_abs_simps:
  "escrow_abs (st_set_escrow e s) =
     ((k_Escrow (persistent_st s))(e_order_id e := Some e), k_EscrowHold (persistent_st s), world s)"
  "escrow_abs (st_set_escrow_hold eh s) =
     (k_Escrow (persistent_st s), (k_EscrowHold (persistent_st s))(eh_escrow_id eh := Some eh), world s)"
  "escrow_abs (s\<lparr>events := es\<rparr>) = escrow_abs s"
  by (simp_all add: escrow_abs_def storage_defs)

lemma lockI:
  "e_order_id e = k \<Longrightarrow> locks k = None \<Longrightarrow> e_status e = ELocked \<Longrightarrow> 0 < e_amount e \<Longrightarrow>
    ts < e_unlock_at e \<Longrightarrow> e_payer e \<in> signers \<Longrightarrow>
    token_transfer h (e_token e) (e_payer e) C (e_amount e) w = Some w' \<Longrightarrow>
    escrow_step h C ts signers (locks, holds, w) (locks(k := Some e), holds, w')"
  using lock [of locks e] by auto

lemma holdI:
  "eh_escrow_id e = k \<Longrightarrow> holds k = None \<Longrightarrow> eh_status e = HHeld \<Longrightarrow> 0 < eh_amount e \<Longrightarrow>
    ts < eh_timeout_at e \<Longrightarrow> eh_payer e \<in> signers \<Longrightarrow>
    token_transfer h (eh_token e) (eh_payer e) C (eh_amount e) w = Some w' \<Longrightarrow>
    escrow_step h C ts signers (locks, holds, w) (locks, holds(k := Some e), w')"
  using hold [of holds e] by auto

lemma create_escrow_refines:
  "create_escrow h a m n tok u k s = (Ok z, t) \<Longrightarrow>
     escrow_step h (self s) (now s) (auths s) (escrow_abs s) (escrow_abs t)"
  by (clarsimp simp: create_escrow_def exec_simps escrow_abs_simps)
    (simp add: escrow_abs_def storage_defs, rule lockI, simp_all)

lemma release_escrow_refines:
  "release_escrow h k s = (Ok z, t) \<Longrightarrow>
     escrow_step h (self s) (now s) (auths s) (escrow_abs s) (escrow_abs t)"
  by (clarsimp simp: release_escrow_def exec_simps escrow_abs_simps)
    (simp add: escrow_abs_def storage_defs, rule release, simp_all)

lemma cancel_escrow_refines:
  "cancel_escrow_before_lock h a k s = (Ok z, t) \<Longrightarrow>
     escrow_step h (self s) (now s) (auths s) (escrow_abs s) (escrow_abs t)"
  by (clarsimp simp: cancel_escrow_before_lock_def exec_simps escrow_abs_simps)
    (simp add: escrow_abs_def storage_defs, rule cancel, simp_all)

lemma escrow_hold_refines:
  "escrow_hold h a k m tok n c ar u s = (Ok r, t) \<Longrightarrow>
     escrow_step h (self s) (now s) (auths s) (escrow_abs s) (escrow_abs t)"
  by (clarsimp simp: escrow_hold_def exec_simps escrow_abs_simps Let_def)
    (simp add: escrow_abs_def storage_defs, rule holdI, simp_all)

lemma escrow_release_refines:
  "escrow_release h a k s = (Ok z, t) \<Longrightarrow>
     escrow_step h (self s) (now s) (auths s) (escrow_abs s) (escrow_abs t)"
  by (clarsimp simp: escrow_release_def exec_simps escrow_abs_simps Let_def)
    (simp add: escrow_abs_def storage_defs, rule hold_release [where a = a], auto)

lemma escrow_cancel_refines:
  "escrow_cancel h a k s = (Ok z, t) \<Longrightarrow>
     escrow_step h (self s) (now s) (auths s) (escrow_abs s) (escrow_abs t)"
  by (clarsimp simp: escrow_cancel_def exec_simps escrow_abs_simps)
    (simp add: escrow_abs_def storage_defs, rule hold_cancel, simp_all)

lemmas escrow_refines = create_escrow_refines release_escrow_refines cancel_escrow_refines
  escrow_hold_refines escrow_release_refines escrow_cancel_refines

text \<open>
  C32. Every escrow entry point that returns refines the escrow machine: it is one of its
  six steps, or, for the two readers, changes nothing.
\<close>

theorem escrow_calls_refine:
  assumes "run_escrow_call h c s = (Ok (), t)"
  shows "escrow_step h (self s) (now s) (auths s) (escrow_abs s) (escrow_abs t) \<or>
    t = s \<and> (\<exists>k. c = GetEscrow k \<or> c = GetEscrowHold k)"
  using assms
  by (cases c)
    (auto simp: exec_simps get_escrow_def get_escrow_hold_def
      intro: escrow_refines)

text \<open>The same for the invariants of the whole contract.\<close>

lemma escrow_call_cases:
  "run_escrow_call h c s = (Ok (), t) \<Longrightarrow>
     escrow_step h (self s) (now s) (auths s) (escrow_abs s) (escrow_abs t) \<or> t = s"
  by (cases c) (auto simp: exec_simps get_escrow_def get_escrow_hold_def intro: escrow_refines)

section \<open>Life cycles\<close>

text \<open>The terms of an escrow never change; its status changes once, from \<open>ELocked\<close>.\<close>

definition lock_follows :: "escrow_record \<Rightarrow> escrow_record \<Rightarrow> bool" where
  "lock_follows e e' \<longleftrightarrow> e'\<lparr>e_status := e_status e\<rparr> = e \<and> (e_status e = ELocked \<or> e' = e)"

definition hold_follows :: "escrow_hold_record \<Rightarrow> escrow_hold_record \<Rightarrow> bool" where
  "hold_follows e e' \<longleftrightarrow> e'\<lparr>eh_status := eh_status e\<rparr> = e \<and> (eh_status e = HHeld \<or> e' = e)"

interpretation locks: lifecycle st_get_escrow st_set_escrow e_order_id lock_follows
  "\<lambda>e. e_status e \<noteq> ELocked"
proof unfold_locales
  show "lock_follows r r" for r by (simp add: lock_follows_def)
  show "lock_follows r r''" if "lock_follows r r'" "lock_follows r' r''" for r r' r''
    using that by (cases r; cases r'; cases r'') (auto simp: lock_follows_def)
  show "r' = r" if "e_status r \<noteq> ELocked" "lock_follows r r'" for r r'
    using that by (auto simp: lock_follows_def)
qed

interpretation held: lifecycle st_get_escrow_hold st_set_escrow_hold eh_escrow_id hold_follows
  "\<lambda>e. eh_status e \<noteq> HHeld"
proof unfold_locales
  show "hold_follows r r" for r by (simp add: hold_follows_def)
  show "hold_follows r r''" if "hold_follows r r'" "hold_follows r' r''" for r r' r''
    using that by (cases r; cases r'; cases r'') (auto simp: hold_follows_def)
  show "r' = r" if "eh_status r \<noteq> HHeld" "hold_follows r r'" for r r'
    using that by (auto simp: hold_follows_def)
qed

definition escrows_keyed :: "'w env \<Rightarrow> bool" where
  "escrows_keyed s \<longleftrightarrow> escrows.well_keyed s \<and> holds.well_keyed s"

lemma escrow_step_evolves:
  assumes "escrow_step h C ts signers (escrow_abs s) (escrow_abs t)" and "escrows_keyed s"
  shows "escrows_keyed t \<and> locks.evolves s t \<and> held.evolves s t"
  using assms
  by (auto simp: escrow_abs_def escrows_keyed_def escrows.well_keyed_def holds.well_keyed_def
      locks.evolves_def held.evolves_def lock_follows_def hold_follows_def st_get_escrow_def
      st_get_escrow_hold_def elim!: escrow_stepE split: if_splits)

section \<open>Solvency\<close>

text \<open>
  What a SEP-41 token guarantees, for a balance function \<open>bal\<close> on the state of the
  token contracts: a transfer moves a non-negative amount from one account to another
  and touches no other, an allowance moves nothing.
\<close>

definition moved ::
  "(address \<Rightarrow> address \<Rightarrow> 'w \<Rightarrow> int) \<Rightarrow> address \<Rightarrow> address \<Rightarrow> address \<Rightarrow> int \<Rightarrow> 'w \<Rightarrow> 'w \<Rightarrow> bool" where
  "moved bal tok src dst n w w' \<longleftrightarrow> 0 \<le> n \<and>
     (\<forall>tok' a. bal tok' a w' = bal tok' a w - (if tok' = tok \<and> a = src then n else 0)
        + (if tok' = tok \<and> a = dst then n else 0))"

definition sep41 :: "'w host \<Rightarrow> (address \<Rightarrow> address \<Rightarrow> 'w \<Rightarrow> int) \<Rightarrow> bool" where
  "sep41 h bal \<longleftrightarrow>
     (\<forall>tok src dst n w w'. token_transfer h tok src dst n w = Some w' \<longrightarrow> moved bal tok src dst n w w') \<and>
     (\<forall>tok sp src dst n w w'. token_transfer_from h tok sp src dst n w = Some w' \<longrightarrow>
        moved bal tok src dst n w w') \<and>
     (\<forall>tok src sp n l w w'. token_approve h tok src sp n l w = Some w' \<longrightarrow>
        (\<forall>tok' a. bal tok' a w' = bal tok' a w))"

lemma sep41D:
  assumes "sep41 h bal"
  shows "token_transfer h tok src dst n w = Some w' \<Longrightarrow> moved bal tok src dst n w w'"
    "token_transfer_from h tok sp src dst n w = Some w' \<Longrightarrow> moved bal tok src dst n w w'"
    "token_approve h tok src sp n l w = Some w' \<Longrightarrow> bal tok' a w' = bal tok' a w"
  using assms by (auto simp: sep41_def)

text \<open>What the contract owes in a token: the locked escrows and the open holds.\<close>

definition lock_value :: "address \<Rightarrow> escrow_record \<Rightarrow> int" where
  "lock_value tok e = (if e_status e = ELocked \<and> e_token e = tok then e_amount e else 0)"

definition hold_value :: "address \<Rightarrow> escrow_hold_record \<Rightarrow> int" where
  "hold_value tok e = (if eh_status e = HHeld \<and> eh_token e = tok then eh_amount e else 0)"

definition escrow_debt :: "address \<Rightarrow> 'w escrow_abs \<Rightarrow> int" where
  "escrow_debt tok x = (case x of (locks, holds, w) \<Rightarrow>
     map_total (lock_value tok) locks + map_total (hold_value tok) holds)"

definition escrows_finite :: "'w escrow_abs \<Rightarrow> bool" where
  "escrows_finite x \<longleftrightarrow> (case x of (locks, holds, w) \<Rightarrow> finite (dom locks) \<and> finite (dom holds) \<and>
     (\<forall>k e. locks k = Some e \<longrightarrow> e_order_id e = k) \<and> (\<forall>k e. holds k = Some e \<longrightarrow> eh_escrow_id e = k))"

definition solvent :: "(address \<Rightarrow> address \<Rightarrow> 'w \<Rightarrow> int) \<Rightarrow> address \<Rightarrow> 'w escrow_abs \<Rightarrow> bool" where
  "solvent bal C x \<longleftrightarrow> escrows_finite x \<and> (\<forall>tok. escrow_debt tok x \<le> bal tok C (snd (snd x)))"

lemma sep41_into:
  "token_transfer h tok src C n w = Some w' \<Longrightarrow> sep41 h bal \<Longrightarrow> src \<in> signers \<Longrightarrow> C \<notin> signers \<Longrightarrow>
   bal tok' C w' = bal tok' C w + (if tok' = tok then n else 0)"
  using sep41D(1) [of h bal tok src C n w w'] by (auto simp: moved_def)

lemma sep41_out:
  "token_transfer h tok C dst n w = Some w' \<Longrightarrow> sep41 h bal \<Longrightarrow>
   bal tok' C w - (if tok' = tok then n else 0) \<le> bal tok' C w'"
  using sep41D(1) [of h bal tok C dst n w w'] by (auto simp: moved_def)

lemma escrow_step_surplus:
  assumes "escrow_step h C ts signers x y" and "escrows_finite x" and "sep41 h bal" and "C \<notin> signers"
  shows "escrows_finite y \<and>
    bal tok C (snd (snd x)) - escrow_debt tok x \<le> bal tok C (snd (snd y)) - escrow_debt tok y"
  using assms
proof cases
  case (lock locks e w w' holds)
  with assms show ?thesis
    using sep41_into [of h "e_token e" "e_payer e" C "e_amount e" w w' bal signers tok]
    by (simp add: escrows_finite_def escrow_debt_def map_total_upd lock_value_def)
next
  case (release locks k e w w' holds)
  with assms show ?thesis
    using sep41_out [of h "e_token e" C "e_merchant e" "e_amount e" w w' bal tok]
    by (auto simp: escrows_finite_def escrow_debt_def map_total_upd lock_value_def)
next
  case (cancel locks k e w w' holds)
  with assms show ?thesis
    using sep41_out [of h "e_token e" C "e_payer e" "e_amount e" w w' bal tok]
    by (auto simp: escrows_finite_def escrow_debt_def map_total_upd lock_value_def)
next
  case (hold holds e w w' locks)
  with assms show ?thesis
    using sep41_into [of h "eh_token e" "eh_payer e" C "eh_amount e" w w' bal signers tok]
    by (simp add: escrows_finite_def escrow_debt_def map_total_upd hold_value_def)
next
  case (hold_release holds k e a w w' locks)
  with assms show ?thesis
    using sep41_out [of h "eh_token e" C "eh_merchant e" "eh_amount e" w w' bal tok]
    by (auto simp: escrows_finite_def escrow_debt_def map_total_upd hold_value_def)
next
  case (hold_cancel holds k e w w' locks)
  with assms show ?thesis
    using sep41_out [of h "eh_token e" C "eh_payer e" "eh_amount e" w w' bal tok]
    by (auto simp: escrows_finite_def escrow_debt_def map_total_upd hold_value_def)
qed

text \<open>
  Each step of the escrow machine keeps the contract solvent, whoever the parties
  are, as long as the contract itself signs nothing: the balance it holds in every token
  covers all locked escrows and open holds.
\<close>

theorem escrow_step_solvent:
  assumes "escrow_step h C ts signers x y" and "solvent bal C x" and "sep41 h bal" and "C \<notin> signers"
  shows "solvent bal C y"
  unfolding solvent_def
proof (intro conjI allI)
  from assms(2) have fin: "escrows_finite x" and le: "escrow_debt tok x \<le> bal tok C (snd (snd x))" for tok
    by (simp_all add: solvent_def)
  note surplus = escrow_step_surplus [OF assms(1) fin assms(3,4)]
  show "escrows_finite y" using surplus by blast
  show "escrow_debt tok y \<le> bal tok C (snd (snd y))" for tok
    using surplus [of tok] le [of tok] by simp
qed

section \<open>Examples\<close>

lemma sep41_sample_host: "sep41 sample_host balance_of"
  unfolding sep41_def moved_def sample_host_def balance_of_def
  by (auto simp: move_def spend_def allow_def Let_def split: if_splits)

definition escrow_sample :: "(payment_error, unit) outcome \<times> book env" where
  "escrow_sample = create_escrow sample_host (Addr 2) (Addr 1) 1000 (Addr 9) 2000 ''e1'' (shop {Addr 2} 1000)"

lemma escrow_sample_Ok: "escrow_sample = (Ok (), snd escrow_sample)"
  unfolding escrow_sample_def create_escrow_def
  by (rule is_Ok_unit) (simp add: exec_comp storage_defs helper_defs reference_defs shop_defs const_defs)

theorem escrow_calls_refine_witness:
  "escrow_step sample_host (Addr 0) 1000 {Addr 2} (escrow_abs (shop {Addr 2} 1000)) (escrow_abs (snd escrow_sample))"
proof -
  have "run_escrow_call sample_host (CreateEscrow (Addr 2) (Addr 1) 1000 (Addr 9) 2000 ''e1'')
      (shop {Addr 2} 1000) = (Ok (), snd escrow_sample)"
    using escrow_sample_Ok by (simp add: escrow_sample_def)
  from escrow_calls_refine [OF this] show ?thesis
    by (simp add: shop_def deployed_def now_def)
qed

theorem escrow_step_solvent_witness:
  "solvent balance_of (Addr 0) (escrow_abs (snd escrow_sample)) \<and> 
   balance_of (Addr 9) (Addr 0) (world (snd escrow_sample)) = 1000"
proof -
  let ?s = "shop {Addr 2} 1000"
  have "escrow_step sample_host (Addr 0) 1000 {Addr 2} (escrow_abs ?s) (escrow_abs (snd escrow_sample))"
    using create_escrow_refines [OF trans [OF escrow_sample_def [symmetric] escrow_sample_Ok]]
    by (simp add: shop_def deployed_def now_def)
  moreover have "solvent balance_of (Addr 0) (escrow_abs ?s)"
    by (simp add: solvent_def escrows_finite_def escrow_debt_def escrow_abs_def shop_def
        deployed_def empty_persistent_def rich_def dom_def balance_of_def)
  moreover have "balance_of (Addr 9) (Addr 0) (world (snd escrow_sample)) = 1000"
    unfolding balance_of_def escrow_sample_def create_escrow_def
    by (simp add: exec_comp storage_defs helper_defs reference_defs shop_defs const_defs)
  ultimately show ?thesis using escrow_step_solvent sep41_sample_host by fastforce
qed

end
