(* ===== verification/Versioning.thy ===== *)
theory Versioning
  imports Admin
begin

text \<open>
  Contract version, WASM upgrade, and the two storage migrations: the version number
  of the schema and the one-time renaming of the version 1 instance keys.
\<close>

text \<open>\<open>env!("CARGO_PKG_VERSION")\<close> of the package, from its Cargo.toml.\<close>

definition CARGO_PKG_VERSION :: string where
  "CARGO_PKG_VERSION = ''1.0.0''"

section \<open>Operations\<close>

definition get_contract_version :: "('w, string) contract" where
  "get_contract_version = ret CARGO_PKG_VERSION"

definition set_contract_version :: "address \<Rightarrow> ('w, unit) contract" where
  "set_contract_version admin =
     bind (require_admin_rate_limited admin) (\<lambda>_.
     modify (st_set_stored_version CARGO_PKG_VERSION))"

definition migrate_storage_keys :: "address \<Rightarrow> ('w, unit) contract" where
  "migrate_storage_keys admin =
     bind (require_admin_rate_limited admin) (\<lambda>_. modify st_migrate_storage_keys)"

definition assert_version_matches :: "address \<Rightarrow> ('w, unit) contract" where
  "assert_version_matches admin =
     bind (require_admin_rate_limited admin) (\<lambda>_.
     bind (gets st_get_stored_version) (\<lambda>stored.
     if_some stored (\<lambda>v. guard (v = CARGO_PKG_VERSION) VersionMismatch)))"

definition upgrade :: "address \<Rightarrow> bytes \<Rightarrow> ('w, unit) contract" where
  "upgrade admin new_wasm_hash =
     bind (require_admin_rate_limited admin) (\<lambda>_.
     bind (update_current_contract_wasm new_wasm_hash) (\<lambda>_.
     publish T_contract_upgraded None [BytesV new_wasm_hash]))"

definition migrate :: "address \<Rightarrow> ('w, nat) contract" where
  "migrate admin =
     bind (require_admin admin) (\<lambda>_.
     bind (gets st_get_storage_version) (\<lambda>on_chain.
     bind (guard (\<not> CURRENT_STORAGE_VERSION < on_chain) StorageVersionTooNew) (\<lambda>_.
     bind (modify (st_set_storage_version CURRENT_STORAGE_VERSION)) (\<lambda>_.
     bind (publish T_storage_migrated None [UintV on_chain, UintV CURRENT_STORAGE_VERSION]) (\<lambda>_.
     ret CURRENT_STORAGE_VERSION)))))"

definition check_upgrade_compatibility :: "('w, nat) contract" where
  "check_upgrade_compatibility =
     bind (gets st_get_storage_version) (\<lambda>on_chain.
     bind (guard (\<not> CURRENT_STORAGE_VERSION < on_chain) StorageVersionTooNew) (\<lambda>_.
     bind (guard (\<not> on_chain < CURRENT_STORAGE_VERSION) StorageMigrationRequired) (\<lambda>_.
     ret CURRENT_STORAGE_VERSION)))"

text \<open>The renaming leaves the administrator and the audit counters.\<close>

lemma migrate_instance_field:
  "(\<And>v i. F (wo v i) = F i) \<Longrightarrow> (\<And>v i. F (wn v i) = F i) \<Longrightarrow> F (migrate_instance old wo wn i) = F i"
  by (simp add: migrate_instance_def split: option.splits)

lemma migrate_keys_fields [simp]:
  "i_Admin (migrate_keys i) = i_Admin i"
  "i_AdminAuditCount (migrate_keys i) = i_AdminAuditCount i"
  "i_AdminAuditMaxEntries (migrate_keys i) = i_AdminAuditMaxEntries i"
  unfolding migrate_keys_def Let_def
  by (simp_all add: migrate_instance_field [where F = i_Admin]
      migrate_instance_field [where F = i_AdminAuditCount]
      migrate_instance_field [where F = i_AdminAuditMaxEntries])

lemma migrate_keys_pause [simp]: "pause_instance (migrate_keys i) = pause_instance i"
  unfolding migrate_keys_def Let_def pause_instance_def
  by (simp add: migrate_instance_field [where F = i_Paused] migrate_instance_field [where F = i_ULU]
      migrate_instance_field [where F = i_EPA] migrate_instance_field [where F = i_PG])

section \<open>Frame\<close>

locale version_frame = auth_frame + config_frame +
  assumes I_migrate_keys: "I s \<Longrightarrow> I (st_migrate_storage_keys s)"
begin

lemma pres_migrate_keys [pres]: "preserves I (modify st_migrate_storage_keys)"
  by (rule preserves_modify) (rule I_migrate_keys)

lemma pres_version_ops [pres]:
  "preserves I get_contract_version" "preserves I (set_contract_version a)"
  "preserves I (migrate_storage_keys a)" "preserves I (assert_version_matches a)"
  "preserves I (upgrade a b)" "preserves I (migrate a)" "preserves I check_upgrade_compatibility"
  unfolding get_contract_version_def set_contract_version_def migrate_storage_keys_def
    assert_version_matches_def upgrade_def migrate_def check_upgrade_compatibility_def
  by (rule pres)+

end

section \<open>Calls\<close>

datatype (plugins only:) version_call =
    GetContractVersion | SetContractVersion address | MigrateStorageKeys address
    | AssertVersionMatches address | Upgrade address bytes | Migrate address
    | CheckUpgradeCompatibility

primrec run_version_call :: "'w host \<Rightarrow> version_call \<Rightarrow> ('w, unit) contract" where
  "run_version_call h GetContractVersion = bind get_contract_version (\<lambda>_. ret ())"
| "run_version_call h (SetContractVersion x1) = set_contract_version x1"
| "run_version_call h (MigrateStorageKeys x1) = migrate_storage_keys x1"
| "run_version_call h (AssertVersionMatches x1) = assert_version_matches x1"
| "run_version_call h (Upgrade x1 x2) = upgrade x1 x2"
| "run_version_call h (Migrate x1) = bind (migrate x1) (\<lambda>_. ret ())"
| "run_version_call h CheckUpgradeCompatibility =
     bind check_upgrade_compatibility (\<lambda>_. ret ())"

context version_frame
begin

lemma pres_run_version_call [pres]: "preserves I (run_version_call h c)"
  by (cases c) (simp_all, (rule pres)+)

end

section \<open>The migrations\<close>

text \<open>What a new slot holds afterwards: the old value if there was one.\<close>

definition slot_after :: "'a option \<Rightarrow> 'a option \<Rightarrow> 'a option" where
  "slot_after old new = (case old of Some v \<Rightarrow> Some v | None \<Rightarrow> new)"

lemma migrate_instance_slot:
  "(\<And>i. old i = None \<Longrightarrow> wo None i = i) \<Longrightarrow> (\<And>i. wn (new i) i = i) \<Longrightarrow>
   migrate_instance old wo wn i = wo None (wn (slot_after (old i) (new i)) i)"
  by (simp add: migrate_instance_def slot_after_def split: option.splits)

lemma instance_slots_same:
  "(i :: instance_store)\<lparr>i_CP := i_CP i\<rparr> = i" "v1_CleanupPeriod i = None \<Longrightarrow> i\<lparr>v1_CleanupPeriod := None\<rparr> = i"
  "(i :: instance_store)\<lparr>i_PFB := i_PFB i\<rparr> = i" "v1_PlatformFeeBps i = None \<Longrightarrow> i\<lparr>v1_PlatformFeeBps := None\<rparr> = i"
  "(i :: instance_store)\<lparr>i_RW := i_RW i\<rparr> = i" "v1_RefundWindow i = None \<Longrightarrow> i\<lparr>v1_RefundWindow := None\<rparr> = i"
  "(i :: instance_store)\<lparr>i_LPT := i_LPT i\<rparr> = i" "v1_LargePaymentThreshold i = None \<Longrightarrow> i\<lparr>v1_LargePaymentThreshold := None\<rparr> = i"
  "(i :: instance_store)\<lparr>i_MRA := i_MRA i\<rparr> = i" "v1_MinRefundAmount i = None \<Longrightarrow> i\<lparr>v1_MinRefundAmount := None\<rparr> = i"
  "(i :: instance_store)\<lparr>i_MED := i_MED i\<rparr> = i" "v1_MultisigExpiryDuration i = None \<Longrightarrow> i\<lparr>v1_MultisigExpiryDuration := None\<rparr> = i"
  "(i :: instance_store)\<lparr>i_SV := i_SV i\<rparr> = i" "v1_StoredVersion i = None \<Longrightarrow> i\<lparr>v1_StoredVersion := None\<rparr> = i"
  "(i :: instance_store)\<lparr>i_ML := i_ML i\<rparr> = i" "v1_MerchantList i = None \<Longrightarrow> i\<lparr>v1_MerchantList := None\<rparr> = i"
  "(i :: instance_store)\<lparr>i_FR := i_FR i\<rparr> = i" "v1_FeeRecipient i = None \<Longrightarrow> i\<lparr>v1_FeeRecipient := None\<rparr> = i"
  by (cases i; simp)+

lemma migrate_keys_moved:
  "migrate_keys i = i\<lparr>i_CP := slot_after (v1_CleanupPeriod i) (i_CP i),
        i_PFB := slot_after (v1_PlatformFeeBps i) (i_PFB i),
        i_RW := slot_after (v1_RefundWindow i) (i_RW i),
        i_LPT := slot_after (v1_LargePaymentThreshold i) (i_LPT i),
        i_MRA := slot_after (v1_MinRefundAmount i) (i_MRA i),
        i_MED := slot_after (v1_MultisigExpiryDuration i) (i_MED i),
        i_SV := slot_after (v1_StoredVersion i) (i_SV i),
        i_ML := slot_after (v1_MerchantList i) (i_ML i),
        i_FR := slot_after (v1_FeeRecipient i) (i_FR i),
        v1_CleanupPeriod := None, v1_PlatformFeeBps := None, v1_RefundWindow := None,
        v1_LargePaymentThreshold := None, v1_MinRefundAmount := None,
        v1_MultisigExpiryDuration := None, v1_StoredVersion := None, v1_MerchantList := None,
        v1_FeeRecipient := None\<rparr>"
  unfolding migrate_keys_def Let_def
  apply (subst migrate_instance_slot [where new = i_CP], erule instance_slots_same, rule instance_slots_same)
  apply (subst migrate_instance_slot [where new = i_PFB], erule instance_slots_same, rule instance_slots_same)
  apply (subst migrate_instance_slot [where new = i_RW], erule instance_slots_same, rule instance_slots_same)
  apply (subst migrate_instance_slot [where new = i_LPT], erule instance_slots_same, rule instance_slots_same)
  apply (subst migrate_instance_slot [where new = i_MRA], erule instance_slots_same, rule instance_slots_same)
  apply (subst migrate_instance_slot [where new = i_MED], erule instance_slots_same, rule instance_slots_same)
  apply (subst migrate_instance_slot [where new = i_SV], erule instance_slots_same, rule instance_slots_same)
  apply (subst migrate_instance_slot [where new = i_ML], erule instance_slots_same, rule instance_slots_same)
  apply (subst migrate_instance_slot [where new = i_FR], erule instance_slots_same, rule instance_slots_same)
  apply simp
  done

text \<open>
  C40. The key migration, run by the administrator, moves every value of version 1 to its
  new slot, keeps the new slots that had no old value, clears all nine old slots, leaves
  every other slot of the three stores alone (but for the administrator's own count of
  failures, which each such call clears), and is idempotent: run again, it returns and changes
  nothing.
\<close>

theorem migrate_storage_keys_moves:
  assumes "migrate_storage_keys admin s = (Ok (), t)" and "i = instance_st s"
  shows "st_get_admin s = Some admin \<and> admin \<in> auths s \<and>
    t = (st_clear_auth_fail_count admin s)\<lparr>instance_st := i\<lparr>i_CP := slot_after (v1_CleanupPeriod i) (i_CP i),
        i_PFB := slot_after (v1_PlatformFeeBps i) (i_PFB i),
        i_RW := slot_after (v1_RefundWindow i) (i_RW i),
        i_LPT := slot_after (v1_LargePaymentThreshold i) (i_LPT i),
        i_MRA := slot_after (v1_MinRefundAmount i) (i_MRA i),
        i_MED := slot_after (v1_MultisigExpiryDuration i) (i_MED i),
        i_SV := slot_after (v1_StoredVersion i) (i_SV i),
        i_ML := slot_after (v1_MerchantList i) (i_ML i),
        i_FR := slot_after (v1_FeeRecipient i) (i_FR i),
        v1_CleanupPeriod := None, v1_PlatformFeeBps := None, v1_RefundWindow := None,
        v1_LargePaymentThreshold := None, v1_MinRefundAmount := None,
        v1_MultisigExpiryDuration := None, v1_StoredVersion := None, v1_MerchantList := None,
        v1_FeeRecipient := None\<rparr>\<rparr> \<and>
    migrate_storage_keys admin t = (Ok (), t)"
proof -
  have run: "st_get_admin v = Some admin \<and> admin \<in> auths v \<and>
      u = (st_clear_auth_fail_count admin v)\<lparr>instance_st := migrate_keys (instance_st v)\<rparr>"
    if "migrate_storage_keys admin v = (Ok (), u)" for u v :: "'a env"
    using that by (auto simp: migrate_storage_keys_def exec_simps storage_defs)
  note first = run [OF assms(1)]
  have free: "\<not> st_is_auth_locked_out admin s"
    using assms(1) by (auto simp: migrate_storage_keys_def require_admin_rate_limited_def exec_simps)
  have again: "st_migrate_storage_keys t = t" "st_clear_auth_fail_count admin t = t"
    using first by (simp_all add: migrate_keys_moved slot_after_def storage_defs)
  have "migrate_storage_keys admin t = (Ok (), st_migrate_storage_keys (st_clear_auth_fail_count admin t))"
    using first free
    by (simp add: migrate_storage_keys_def require_admin_rate_limited_def exec_comp migrate_keys_moved
        slot_after_def storage_defs)
  then have "migrate_storage_keys admin t = (Ok (), t)" by (simp add: again)
  with first show ?thesis unfolding migrate_keys_moved assms(2) by blast
qed

text \<open>
  The schema version: a migration that returns leaves a version the binary accepts,
  and it refuses, changing nothing, exactly when an authorised administrator runs it on
  data of a newer binary.
\<close>

theorem migrate_version_gate:
  "(migrate admin s = (Ok v, t) \<longrightarrow> v = CURRENT_STORAGE_VERSION \<and>
      check_upgrade_compatibility t = (Ok CURRENT_STORAGE_VERSION, t)) \<and>
   (admin \<in> auths s \<and> st_get_admin s = Some admin \<longrightarrow>
      (migrate admin s = (Err StorageVersionTooNew, s) \<longleftrightarrow> CURRENT_STORAGE_VERSION < st_get_storage_version s))"
proof (intro conjI impI)
  assume "migrate admin s = (Ok v, t)"
  then have "v = CURRENT_STORAGE_VERSION" and "i_StorageVersion (instance_st t) = Some CURRENT_STORAGE_VERSION"
    by (auto simp: migrate_def exec_simps storage_defs)
  then show "v = CURRENT_STORAGE_VERSION"
    and "check_upgrade_compatibility t = (Ok CURRENT_STORAGE_VERSION, t)"
    by (simp_all add: check_upgrade_compatibility_def exec_comp st_get_storage_version_def unwrap_or_def)
next
  assume "admin \<in> auths s \<and> st_get_admin s = Some admin"
  then show "migrate admin s = (Err StorageVersionTooNew, s) \<longleftrightarrow>
      CURRENT_STORAGE_VERSION < st_get_storage_version s"
    by (simp add: migrate_def require_admin_def exec_comp)
qed

section \<open>Examples\<close>

text \<open>An old cleanup period and an old fee, the latter over a new one.\<close>

definition old_shop :: "book env" where
  "old_shop = (let s = shop {Addr 5} 0 in s\<lparr>instance_st :=
     (instance_st s)\<lparr>v1_CleanupPeriod := Some 77, v1_PlatformFeeBps := Some 30\<rparr>\<rparr>)"

theorem migrate_storage_keys_moves_witness:
  "(let i = instance_st (snd (migrate_storage_keys (Addr 5) old_shop)) in
    i_CP i = Some 77 \<and> i_PFB i = Some 30 \<and> i_FR i = Some (Addr 6) \<and>
    v1_CleanupPeriod i = None \<and> v1_PlatformFeeBps i = None)"
proof -
  have "is_Ok (fst (migrate_storage_keys (Addr 5) old_shop))"
    by (simp add: migrate_storage_keys_def require_admin_rate_limited_def exec_comp storage_defs
        shop_defs reference_defs old_shop_def)
  from migrate_storage_keys_moves [OF is_Ok_unit [OF this] refl]
  have t: "snd (migrate_storage_keys (Addr 5) old_shop) = (st_clear_auth_fail_count (Addr 5) old_shop)\<lparr>instance_st :=
      (instance_st old_shop)\<lparr>i_CP := slot_after (v1_CleanupPeriod (instance_st old_shop)) (i_CP (instance_st old_shop)),
        i_PFB := slot_after (v1_PlatformFeeBps (instance_st old_shop)) (i_PFB (instance_st old_shop)),
        i_RW := slot_after (v1_RefundWindow (instance_st old_shop)) (i_RW (instance_st old_shop)),
        i_LPT := slot_after (v1_LargePaymentThreshold (instance_st old_shop)) (i_LPT (instance_st old_shop)),
        i_MRA := slot_after (v1_MinRefundAmount (instance_st old_shop)) (i_MRA (instance_st old_shop)),
        i_MED := slot_after (v1_MultisigExpiryDuration (instance_st old_shop)) (i_MED (instance_st old_shop)),
        i_SV := slot_after (v1_StoredVersion (instance_st old_shop)) (i_SV (instance_st old_shop)),
        i_ML := slot_after (v1_MerchantList (instance_st old_shop)) (i_ML (instance_st old_shop)),
        i_FR := slot_after (v1_FeeRecipient (instance_st old_shop)) (i_FR (instance_st old_shop)),
        v1_CleanupPeriod := None, v1_PlatformFeeBps := None, v1_RefundWindow := None,
        v1_LargePaymentThreshold := None, v1_MinRefundAmount := None,
        v1_MultisigExpiryDuration := None, v1_StoredVersion := None, v1_MerchantList := None,
        v1_FeeRecipient := None\<rparr>\<rparr>" by blast
  show ?thesis unfolding t by (simp add: old_shop_def shop_defs reference_defs slot_after_def)
qed

theorem migrate_version_gate_witness:
  "check_upgrade_compatibility (snd (migrate (Addr 5) (shop {Addr 5} 0))) =
     (Ok 1, snd (migrate (Addr 5) (shop {Addr 5} 0)))"
proof -
  have "migrate (Addr 5) (shop {Addr 5} 0) = (Ok 1, snd (migrate (Addr 5) (shop {Addr 5} 0)))"
    by (simp add: migrate_def require_admin_def exec_comp storage_defs shop_defs reference_defs const_defs)
  with migrate_version_gate [of "Addr 5" "shop {Addr 5} 0" 1] show ?thesis
    by (simp add: CURRENT_STORAGE_VERSION_def)
qed

end
