(* ===== verification/Contract.thy ===== *)
theory Contract
  imports Queries Refunds Multisig Requests Subscriptions Escrow Versioning
begin

text \<open>
  The contract as a whole: one call per entry point, the transaction that runs it,
  and the steps of a ledger: a transaction, or the passing of time with whatever
  other parties do to the token contracts meanwhile. An invariant of the contract is
  an interpretation of one of the two frames below.
\<close>

section \<open>Calls and steps\<close>

datatype (plugins only:) call =
    AdminC admin_call | GuardC guard_call | MerchantC merchant_call | PaymentC payment_call
  | QueryC query_call | RefundC refund_call | DisputeC dispute_call | MultisigC multisig_call
  | RequestC request_call | SubscriptionC subscription_call | EscrowC escrow_call
  | VersionC version_call

primrec run_call :: "'w host \<Rightarrow> call \<Rightarrow> ('w, unit) contract" where
  "run_call h (AdminC c) = run_admin_call h c"
| "run_call h (GuardC c) = run_guard_call h c"
| "run_call h (MerchantC c) = run_merchant_call h c"
| "run_call h (PaymentC c) = run_payment_call h c"
| "run_call h (QueryC c) = run_query_call h c"
| "run_call h (RefundC c) = run_refund_call h c"
| "run_call h (DisputeC c) = run_dispute_call h c"
| "run_call h (MultisigC c) = run_multisig_call h c"
| "run_call h (RequestC c) = run_request_call h c"
| "run_call h (SubscriptionC c) = run_subscription_call h c"
| "run_call h (EscrowC c) = run_escrow_call h c"
| "run_call h (VersionC c) = run_version_call h c"

text \<open>
  Time passes: the ledger numbers grow, the next transaction carries other
  authorisations (never the contract's own), other parties act on the tokens within
  \<open>others\<close>, and temporary entries may expire.
\<close>

definition expired :: "('k \<Rightarrow> 'v option) \<Rightarrow> ('k \<Rightarrow> 'v option) \<Rightarrow> bool" where
  "expired m n \<longleftrightarrow> (\<forall>k. n k = None \<or> n k = m k)"

definition temporary_expired :: "temporary_store \<Rightarrow> temporary_store \<Rightarrow> bool" where
  "temporary_expired t u \<longleftrightarrow>
     expired (t_PaymentRequest t) (t_PaymentRequest u) \<and>
     (t_PaymentRequestIndex u = None \<or> t_PaymentRequestIndex u = t_PaymentRequestIndex t) \<and>
     (\<forall>a. expired (t_RateLimitCounter t a) (t_RateLimitCounter u a)) \<and>
     expired (t_AuthFailCount t) (t_AuthFailCount u) \<and>
     expired (t_AuthLockoutUntil t) (t_AuthLockoutUntil u) \<and>
     expired (t_MerchantCommitment t) (t_MerchantCommitment u)"

definition time_passes :: "('w \<Rightarrow> 'w \<Rightarrow> bool) \<Rightarrow> 'w env \<Rightarrow> 'w env \<Rightarrow> bool" where
  "time_passes others s t \<longleftrightarrow>
     now s \<le> now t \<and> seq_no s \<le> seq_no t \<and> network_id (ledger t) = network_id (ledger s) \<and>
     self t = self s \<and> self s \<notin> auths t \<and> instance_st t = instance_st s \<and>
     persistent_st t = persistent_st s \<and> temporary_expired (temporary_st s) (temporary_st t) \<and>
     others (world s) (world t)"

inductive step :: "'w host \<Rightarrow> ('w \<Rightarrow> 'w \<Rightarrow> bool) \<Rightarrow> 'w env \<Rightarrow> 'w env \<Rightarrow> bool"
  for h others where
  transaction: "step h others s (snd (invoke (run_call h c) s))"
| passing: "time_passes others s t \<Longrightarrow> step h others s t"

inductive_cases stepE: "step h others s t"

inductive steps :: "'w host \<Rightarrow> ('w \<Rightarrow> 'w \<Rightarrow> bool) \<Rightarrow> 'w env \<Rightarrow> 'w env \<Rightarrow> bool"
  for h others where
  steps_refl: "steps h others s s"
| steps_snoc: "steps h others s t \<Longrightarrow> step h others t u \<Longrightarrow> steps h others s u"

lemma steps_invariant:
  assumes "steps h others s t" and "I s"
    and "\<And>c. preserves I (run_call h c)"
    and "\<And>u v. I u \<Longrightarrow> time_passes others u v \<Longrightarrow> I v"
  shows "I t"
  using assms(1,2)
proof induction
  case (steps_snoc s t u)
  from steps_snoc(2) show ?case
  proof cases
    case (transaction c)
    with steps_snoc assms(3) show ?thesis by (auto intro: preserves_invoke)
  next
    case passing
    with steps_snoc assms(4) show ?thesis by auto
  qed
qed

section \<open>Frames of the contract\<close>

text \<open>
  Each of the first locales leaves one component out, for predicates that read the
  records of that component; the last one has them all.
\<close>

locale rest_of_escrow =
  guard_frame + dispute_frame + multisig_frame + request_frame + subscription_frame + version_frame
begin

lemma pres_all_but_escrow:
  "(\<And>e. c \<noteq> EscrowC e) \<Longrightarrow> preserves I (run_call h c)"
  by (cases c) (auto intro: pres)

end

locale rest_of_multisig =
  guard_frame + dispute_frame + request_frame + subscription_frame + version_frame + escrow_frame
begin

lemma pres_all_but_multisig:
  "(\<And>e. c \<noteq> MultisigC e) \<Longrightarrow> preserves I (run_call h c)"
  by (cases c) (auto intro: pres)

end

locale rest_of_subscriptions =
  guard_frame + dispute_frame + multisig_frame + request_frame + version_frame + escrow_frame
begin

lemma pres_all_but_subscriptions:
  "(\<And>e. c \<noteq> SubscriptionC e) \<Longrightarrow> preserves I (run_call h c)"
  by (cases c) (auto intro: pres)

end

locale rest_of_refunds =
  guard_frame + multisig_frame + request_frame + subscription_frame + version_frame + escrow_frame
begin

lemma pres_all_but_refunds:
  "(\<And>e. c \<noteq> RefundC e) \<Longrightarrow> (\<And>e. c \<noteq> DisputeC e) \<Longrightarrow>
   (\<And>a. c \<noteq> PaymentC (CleanupExpiredPaymentsCall a)) \<Longrightarrow> preserves I (run_call h c)"
  by (cases c) (auto intro: pres pres_payment_call_but_cleanup)

end

locale rest_of_disputes =
  guard_frame + refund_frame + multisig_frame + request_frame + subscription_frame + version_frame +
  escrow_frame
begin

lemma pres_all_but_disputes:
  "(\<And>e. c \<noteq> DisputeC e) \<Longrightarrow> preserves I (run_call h c)"
  by (cases c) (auto intro: pres)

end

locale rest_of_pause =
  admin_frame + dispute_frame + multisig_frame + request_frame + subscription_frame + version_frame +
  escrow_frame
begin

lemma pres_all_but_pause:
  "(\<And>g. c = GuardC g \<Longrightarrow> \<not> pause_call g) \<Longrightarrow> preserves I (run_call h c)"
  by (cases c) (auto intro: pres pres_guard_call_but_pause)

end

text \<open>
  Most calls neither write a payment nor count one, nor touch a merchant. The last but one
  locale is for predicates that only those few calls can falsify.
\<close>

definition quiet_call :: "call \<Rightarrow> bool" where
  "quiet_call c \<longleftrightarrow> (case c of
       MerchantC _ \<Rightarrow> False
     | PaymentC (GetPayerNonce _) \<Rightarrow> True
     | PaymentC (GetMerchantNonce _) \<Rightarrow> True
     | PaymentC _ \<Rightarrow> False
     | RefundC (ExecuteRefund _) \<Rightarrow> False
     | DisputeC (ResolveDispute _ _ _ _) \<Rightarrow> False
     | MultisigC (ExecuteMultisigPayment _ _) \<Rightarrow> False
     | RequestC (PayPaymentRequest _ _) \<Rightarrow> False
     | _ \<Rightarrow> True)"

locale quiet_frame = guard_frame + subscription_frame + version_frame + escrow_frame +
  assumes I_set_refund: "I s \<Longrightarrow> I (st_set_refund r s)"
    and I_remove_refund: "I s \<Longrightarrow> I (st_remove_refund k s)"
    and I_add_order_refund: "I s \<Longrightarrow> I (st_add_order_refund_id k rid s)"
    and I_set_dispute: "I s \<Longrightarrow> I (st_set_dispute d s)"
    and I_set_multisig: "I s \<Longrightarrow> I (st_set_multisig ms s)"
    and I_set_request: "I s \<Longrightarrow> I (st_set_payment_request pr s)"
    and I_remove_request: "I s \<Longrightarrow> I (st_remove_payment_request k s)"
begin

lemma pres_quiet_steps [pres]:
  "preserves I (modify (st_set_refund r))" "preserves I (modify (st_remove_refund k))"
  "preserves I (modify (st_add_order_refund_id k rid))" "preserves I (modify (st_set_dispute d))"
  "preserves I (modify (st_set_multisig ms))" "preserves I (modify (st_set_payment_request pr))"
  "preserves I (modify (st_remove_payment_request k))"
  by (auto intro: preserves_modify I_set_refund I_remove_refund I_add_order_refund I_set_dispute
      I_set_multisig I_set_request I_remove_request)

lemma pres_quiet_refunds [pres]:
  "preserves I (initiate_refund a rid k n rs)" "preserves I (get_refunds_for_order a k)"
  "preserves I (approve_refund a rid)" "preserves I (reject_refund a rid)"
  "preserves I (get_refund a rid)" "preserves I (cleanup_expired_refunds a)"
  unfolding initiate_refund_def get_refunds_for_order_def approve_refund_def reject_refund_def
    get_refund_def cleanup_expired_refunds_def purge_one_refund_def
  by (rule pres)+

lemma pres_quiet_disputes [pres]:
  "preserves I (raise_dispute a did rid rs)" "preserves I (get_dispute did)"
  "preserves I (initiate_dispute a did k rs)" "preserves I (mark_dispute_under_review a did)"
  "preserves I (escalate_dispute a did notes)"
  unfolding raise_dispute_def get_dispute_def initiate_dispute_def mark_dispute_under_review_def
    escalate_dispute_def
  by (rule pres | simp add: pres split: dispute_status.split)+

lemma pres_quiet_multisigs [pres]:
  "preserves I (initiate_multisig_payment a k m t n sg rq ex)"
  "preserves I (sign_multisig_payment a k b)" "preserves I (cancel_multisig_payment a k)"
  "preserves I (get_multisig_payment a k)"
  unfolding initiate_multisig_payment_def sign_multisig_payment_def cancel_multisig_payment_def
    get_multisig_payment_def
  by (rule pres)+

lemma pres_quiet_requests [pres]:
  "preserves I (create_payment_request a k t n memo ttl)" "preserves I (cancel_payment_request a k)"
  "preserves I (cancel_expired_payment_requests a)"
  unfolding create_payment_request_def cancel_payment_request_def
    cancel_expired_payment_requests_def cancel_one_request_def
  by (rule pres | simp)+

lemma pres_quiet_call: "quiet_call c \<Longrightarrow> preserves I (run_call h c)"
  unfolding quiet_call_def
  by (auto simp: get_payer_nonce_def get_merchant_nonce_def intro!: pres
      split: call.splits payment_call.splits refund_call.splits dispute_call.splits multisig_call.splits
        request_call.splits)

end

locale whole_frame = rest_of_escrow + escrow_frame
begin

lemma pres_run_call [pres]: "preserves I (run_call h c)"
  by (cases c) (auto intro: pres)

end

end
