(* ===== verification/Invariants.thy ===== *)
theory Invariants
  imports Contract
begin

text \<open>
  The invariants that span components, each an interpretation of a frame of the whole
  contract (all calls), or of one that leaves a component out (all calls but that
  component's), and the reachable states.
\<close>

section \<open>Invariants of the whole contract\<close>

text \<open>The administrator, once set.\<close>

lemma kept_admin: "kept_instance i = kept_instance j \<Longrightarrow> i_Admin i = i_Admin j"
  by (simp add: kept_instance_defs)

lemma base_admin: "base_instance i = base_instance j \<Longrightarrow> i_Admin i = i_Admin j"
  by (simp add: base_instance_def)

interpretation admin_kept: whole_frame "\<lambda>s. st_get_admin s \<noteq> None" "\<lambda>_. True" h for h :: "'w host"
  by unfold_locales
    (rule preserves_append_audit preserves_add_payment_id
      | (auto simp: storage_defs Let_def dest: kept_admin base_admin)[1])+

text \<open>The lockout counters: no call that reaches the ledger raises them.\<close>

definition no_lockouts :: "'w env \<Rightarrow> bool" where
  "no_lockouts s \<longleftrightarrow> (\<forall>a. st_get_auth_fail_count a s = (0, 0) \<and> st_get_auth_lockout_until a s = 0)"

interpretation no_lockouts: whole_frame no_lockouts "\<lambda>_. True" h for h :: "'w host"
  by unfold_locales
    (rule preserves_append_audit preserves_add_payment_id
      | (simp add: no_lockouts_def storage_defs Let_def; fail))+

text \<open>The history indices.\<close>

definition histories_capped :: "'w env \<Rightarrow> bool" where
  "histories_capped s \<longleftrightarrow>
     (\<forall>a ids. k_MP (persistent_st s) a = Some ids \<longrightarrow> length ids \<le> MAX_PAYMENT_IDS_PER_ACCOUNT) \<and>
     (\<forall>a ids. k_PP (persistent_st s) a = Some ids \<longrightarrow> length ids \<le> MAX_PAYMENT_IDS_PER_ACCOUNT)"

lemma pres_capped_ids:
  "preserves histories_capped (st_add_merchant_payment_id a k)"
  "preserves histories_capped (st_add_payer_payment_id a k)"
proof -
  show "preserves histories_capped (st_add_merchant_payment_id a k)"
  proof (rule preservesI)
    fix s x t
    assume "st_add_merchant_payment_id a k s = (Ok x, t)" and "histories_capped s"
    from add_merchant_payment_id_OkD(1,2) [OF this(1)] this(2) show "histories_capped t"
      by (auto simp: histories_capped_def)
  qed
  show "preserves histories_capped (st_add_payer_payment_id a k)"
  proof (rule preservesI)
    fix s x t
    assume "st_add_payer_payment_id a k s = (Ok x, t)" and "histories_capped s"
    from add_payer_payment_id_OkD(1,2) [OF this(1)] this(2) show "histories_capped t"
      by (auto simp: histories_capped_def)
  qed
qed

interpretation histories_capped: whole_frame histories_capped "\<lambda>_. True" h for h :: "'w host"
  by unfold_locales
    (rule preserves_append_audit pres_capped_ids
      | (simp add: histories_capped_def storage_defs Let_def; fail))+

text \<open>The audit log.\<close>

definition audit_ok :: "'w env \<Rightarrow> bool" where
  "audit_ok s \<longleftrightarrow> log_ok s \<and> 0 < get_admin_audit_max_entries s"

lemma pres_audit_ok: "preserves audit_ok (append_audit action caller params)"
proof (rule preservesI)
  fix s x t
  assume run: "append_audit action caller params s = (Ok x, t)" and "audit_ok s"
  then have "log_ok s" and mx: "0 < get_admin_audit_max_entries s" by (simp_all add: audit_ok_def)
  from log_ok_append [OF this run] get_entry_append(3) [OF run mx] mx show "audit_ok t"
    by (simp add: audit_ok_def)
qed

definition audit_view :: "'w env \<Rightarrow> (nat \<Rightarrow> admin_audit_entry option) \<times> nat option \<times> nat option \<times> nat" where
  "audit_view s = (k_AdminAuditEntry (persistent_st s), i_AdminAuditCount (instance_st s),
     i_AdminAuditMaxEntries (instance_st s), seq_no s)"

lemma audit_ok_view: "audit_ok s \<Longrightarrow> audit_view t = audit_view s \<Longrightarrow> audit_ok t"
  by (simp add: audit_view_def audit_ok_def log_ok_def get_admin_audit_entry_def
      get_admin_audit_count_def get_admin_audit_max_entries_def)

interpretation audit_log: whole_frame audit_ok "\<lambda>_. True" h for h :: "'w host"
  by unfold_locales
    (rule preserves_add_payment_id pres_audit_ok TrueI conjI
      | (erule audit_ok_view, simp add: audit_view_def storage_defs Let_def kept_instance_defs; fail))+

text \<open>
  The typing of the stores: every record is stored under its own key, and the nonces fit
  their width.
\<close>

definition stores_typed :: "'w env \<Rightarrow> bool" where
  "stores_typed s \<longleftrightarrow> merchants.well_keyed s \<and> payments.well_keyed s \<and> refunds.well_keyed s \<and>
     disputes.well_keyed s \<and> multisigs.well_keyed s \<and> plans.well_keyed s \<and>
     subscriptions.well_keyed s \<and> escrows.well_keyed s \<and> holds.well_keyed s \<and>
     requests.well_keyed s \<and> commitments.well_keyed s \<and>
     (\<forall>a. st_get_nonce a s \<le> u64_max) \<and> (\<forall>a. st_get_merchant_nonce a s \<le> u64_max)"

lemmas stores_typed_defs = stores_typed_def merchants.well_keyed_def payments.well_keyed_def
  refunds.well_keyed_def disputes.well_keyed_def multisigs.well_keyed_def plans.well_keyed_def
  subscriptions.well_keyed_def escrows.well_keyed_def holds.well_keyed_def requests.well_keyed_def
  commitments.well_keyed_def

definition typed_view where
  "typed_view s = (k_Merchant (persistent_st s), k_Payment (persistent_st s), k_Refund (persistent_st s),
     k_Dispute (persistent_st s), k_Multisig (persistent_st s), k_SP (persistent_st s),
     k_Sub (persistent_st s), k_Escrow (persistent_st s), k_EscrowHold (persistent_st s),
     t_PaymentRequest (temporary_st s), t_MerchantCommitment (temporary_st s),
     k_Nonce (persistent_st s), k_MerchantNonce (persistent_st s))"

lemma stores_typed_view: "stores_typed s \<Longrightarrow> typed_view t = typed_view s \<Longrightarrow> stores_typed t"
  by (simp add: typed_view_def stores_typed_defs storage_defs)

interpretation stores_typed: whole_frame stores_typed "\<lambda>_. True" h for h :: "'w host"
  by unfold_locales
    (rule preserves_append_audit preserves_add_payment_id TrueI conjI
      | (erule stores_typed_view, simp add: typed_view_def storage_defs Let_def; fail)
      | (auto simp: stores_typed_defs storage_defs Let_def u64_sat_add_def split: if_splits; fail))+

text \<open>A merchant's nonce never goes back.\<close>

interpretation nonce_grows: whole_frame "\<lambda>s. n \<le> u64_max \<longrightarrow> n \<le> st_get_merchant_nonce m s" "\<lambda>_. True" h
  for n m and h :: "'w host"
  by unfold_locales
    (rule preserves_append_audit preserves_add_payment_id
      | (simp add: storage_defs Let_def u64_sat_add_def; fail)
      | (auto simp: storage_defs u64_sat_add_def; fail))+

text \<open>The two escrow stores, for the calls of the other components.\<close>

interpretation escrow_kept: rest_of_escrow
  "\<lambda>s. k_Escrow (persistent_st s) = locks \<and> k_EscrowHold (persistent_st s) = holds" "\<lambda>_. True" h
  for locks holds and h :: "'w host"
  by unfold_locales
    (rule preserves_append_audit preserves_add_payment_id
      | (simp add: storage_defs Let_def; fail))+

interpretation multisig_kept: rest_of_multisig
  "\<lambda>s. k_Multisig (persistent_st s) = ms" "\<lambda>_. True" h for ms and h :: "'w host"
  by unfold_locales
    (rule preserves_append_audit preserves_add_payment_id
      | (simp add: storage_defs Let_def; fail))+

text \<open>
  The contract is a party to nothing but its own escrows: it signs no transaction, is no
  merchant, no payee and no subscriber.
\<close>

definition uninvolved :: "address \<Rightarrow> 'w env \<Rightarrow> bool" where
  "uninvolved C s \<longleftrightarrow> self s = C \<and> C \<notin> auths s \<and>
     (\<forall>a m. k_Merchant (persistent_st s) a = Some m \<longrightarrow> a \<noteq> C \<and> m_address m \<noteq> C) \<and>
     (\<forall>k p. k_Payment (persistent_st s) k = Some p \<longrightarrow> p_merchant_address p \<noteq> C) \<and>
     (\<forall>k r. t_PaymentRequest (temporary_st s) k = Some r \<longrightarrow> pr_merchant r \<noteq> C) \<and>
     (\<forall>k ms. k_Multisig (persistent_st s) k = Some ms \<longrightarrow> ms_merchant_address ms \<noteq> C) \<and>
     (\<forall>k b. k_Sub (persistent_st s) k = Some b \<longrightarrow> sub_subscriber b \<noteq> C)"

interpretation uninvolved: whole_frame "uninvolved C" "\<lambda>a. a \<noteq> C" h for C and h :: "'w host"
  by unfold_locales
    (rule preserves_append_audit preserves_add_payment_id
      | (auto simp: uninvolved_def storage_defs Let_def split: if_splits)[1])+

text \<open>The surplus of the contract's balance over its escrow debt, in one token.\<close>

definition surplus :: "(address \<Rightarrow> address \<Rightarrow> 'w \<Rightarrow> int) \<Rightarrow> address \<Rightarrow> 'w env \<Rightarrow> int" where
  "surplus bal tok s = bal tok (self s) (world s) - escrow_debt tok (escrow_abs s)"

definition covered ::
  "'w host \<Rightarrow> (address \<Rightarrow> address \<Rightarrow> 'w \<Rightarrow> int) \<Rightarrow> address \<Rightarrow> address \<Rightarrow> int \<Rightarrow> 'w env \<Rightarrow> bool" where
  "covered h bal C tok b s \<longleftrightarrow> uninvolved C s \<and>
     (sep41 h bal \<longrightarrow> escrows_finite (escrow_abs s) \<and> b \<le> surplus bal tok s)"

lemma covered_view:
  "covered h bal C tok b s \<Longrightarrow> uninvolved C t \<Longrightarrow>
   k_Escrow (persistent_st t) = k_Escrow (persistent_st s) \<Longrightarrow>
   k_EscrowHold (persistent_st t) = k_EscrowHold (persistent_st s) \<Longrightarrow> 
   (sep41 h bal \<Longrightarrow> bal tok C (world s) \<le> bal tok C (world t)) \<Longrightarrow> covered h bal C tok b t"
  unfolding covered_def surplus_def escrow_abs_def
  by (auto simp: uninvolved_def escrow_debt_def escrows_finite_def)

lemma covered_debit:
  assumes "covered h bal C tok b s" and "src \<noteq> C"
    and "token_transfer h tok' src dst n (world s) = Some w \<or>
      token_transfer_from h tok' sp src dst n (world s) = Some w"
  shows "covered h bal C tok b (s\<lparr>world := w\<rparr>)"
proof (rule covered_view [OF assms(1)])
  show "uninvolved C (s\<lparr>world := w\<rparr>)" using assms(1) by (simp add: covered_def uninvolved_def)
  show "bal tok C (world s) \<le> bal tok C (world (s\<lparr>world := w\<rparr>))" if "sep41 h bal"
    using sep41D(1) [OF that, of tok' src dst n "world s" w]
      sep41D(2) [OF that, of tok' sp src dst n "world s" w] assms(2,3)
    by (auto simp: moved_def)
qed simp_all

lemma covered_approve:
  assumes "covered h bal C tok b s" and "token_approve h tok' src sp n l (world s) = Some w"
  shows "covered h bal C tok b (s\<lparr>world := w\<rparr>)"
proof (rule covered_view [OF assms(1)])
  show "uninvolved C (s\<lparr>world := w\<rparr>)" using assms(1) by (simp add: covered_def uninvolved_def)
  show "bal tok C (world s) \<le> bal tok C (world (s\<lparr>world := w\<rparr>))" if "sep41 h bal"
    using sep41D(3) [OF that assms(2), of tok C] by simp
qed simp_all

interpretation covered: rest_of_escrow "covered h bal C tok b" "\<lambda>a. a \<noteq> C" h for C bal tok b and h :: "'w host"
proof unfold_locales
  fix s :: "'w env" and src tok' dst sp n l w
  assume s: "covered h bal C tok b s"
  show "covered h bal C tok b (s\<lparr>world := w\<rparr>)"
    if "src \<noteq> C" "token_transfer h tok' src dst n (world s) = Some w"
    using covered_debit [OF s that(1)] that(2) by blast
  show "covered h bal C tok b (s\<lparr>world := w\<rparr>)"
    if "src \<noteq> C" "token_transfer_from h tok' sp src dst n (world s) = Some w"
    using covered_debit [OF s that(1)] that(2) by blast
  show "covered h bal C tok b (s\<lparr>world := w\<rparr>)"
    if "token_approve h tok' src sp n l (world s) = Some w"
    using s that by (rule covered_approve)
qed (rule preserves_append_audit preserves_add_payment_id
      | ((rule covered_view, assumption); (auto simp: covered_def uninvolved_def storage_defs Let_def
           kept_instance_defs split: if_splits; fail))
      | (auto simp: covered_def uninvolved_def storage_defs; fail))+

section \<open>Reachable states\<close>

text \<open>A contract just deployed: nothing is stored, and the contract signs nothing.\<close>

definition fresh :: "'w env \<Rightarrow> bool" where
  "fresh s \<longleftrightarrow> instance_st s = empty_instance \<and> persistent_st s = empty_persistent \<and>
     temporary_st s = empty_temporary \<and> self s \<notin> auths s"

text \<open>What passes outside the contract, seen by the invariants above.\<close>

lemma passing_view:
  assumes "time_passes others s t"
  shows "instance_st t = instance_st s" "persistent_st t = persistent_st s" "self t = self s"
    "self s \<notin> auths t" "others (world s) (world t)" "seq_no s \<le> seq_no t"
    "t_PaymentRequest (temporary_st t) k = Some r \<Longrightarrow> t_PaymentRequest (temporary_st s) k = Some r"
    "t_AuthFailCount (temporary_st t) a = Some x \<Longrightarrow> t_AuthFailCount (temporary_st s) a = Some x"
    "t_AuthLockoutUntil (temporary_st t) a = Some n \<Longrightarrow> t_AuthLockoutUntil (temporary_st s) a = Some n"
  using assms unfolding time_passes_def temporary_expired_def expired_def
  by (auto, (metis option.distinct(1))+)

lemma uninvolved_passing: "uninvolved C s \<Longrightarrow> time_passes others s t \<Longrightarrow> uninvolved C t"
  by (frule passing_view(1), frule passing_view(2), frule passing_view(3), frule passing_view(4))
    (auto simp: uninvolved_def dest: passing_view(7))

lemma stores_typed_passing:
  assumes "stores_typed u" and "time_passes others u v"
  shows "stores_typed v"
proof -
  have "t_MerchantCommitment (temporary_st v) a = Some c \<Longrightarrow> t_MerchantCommitment (temporary_st u) a = Some c" for a c
    using assms(2) unfolding time_passes_def temporary_expired_def expired_def by (metis option.distinct(1))
  then show ?thesis
    using assms passing_view(2,7) [OF assms(2)] by (simp add: stores_typed_defs storage_defs)
qed

lemma stores_typed_reachable:
  assumes "steps h others s t" and "fresh s"
  shows "stores_typed t"
  using assms(1)
proof (rule steps_invariant)
  show "stores_typed s"
    using assms(2) by (simp add: fresh_def stores_typed_defs storage_defs empty_persistent_def empty_temporary_def)
qed (rule stores_typed.pres_run_call, rule stores_typed_passing)

text \<open>Other parties never debit the contract.\<close>

definition never_debits ::
  "(address \<Rightarrow> address \<Rightarrow> 'w \<Rightarrow> int) \<Rightarrow> address \<Rightarrow> ('w \<Rightarrow> 'w \<Rightarrow> bool) \<Rightarrow> bool" where
  "never_debits bal C others \<longleftrightarrow> (\<forall>w w' tok. others w w' \<longrightarrow> bal tok C w \<le> bal tok C w')"

lemma escrow_call_covered:
  assumes "run_escrow_call h c s = (Ok (), t)" and s: "covered h bal C tok b s"
  shows "covered h bal C tok b t"
proof -
  have un: "uninvolved C s" and un': "uninvolved C t"
    using s preservesD [OF uninvolved.pres_run_escrow_call assms(1)] by (simp_all add: covered_def)
  have selfs: "self s = C" "self t = C" "C \<notin> auths s" using un un' by (simp_all add: uninvolved_def)
  have "escrow_step h (self s) (now s) (auths s) (escrow_abs s) (escrow_abs t) \<or> t = s"
    using assms(1) by (rule escrow_call_cases)
  then show ?thesis
  proof
    assume step: "escrow_step h (self s) (now s) (auths s) (escrow_abs s) (escrow_abs t)"
    show ?thesis
      using s un' selfs escrow_step_surplus [OF step, of bal tok]
      by (auto simp: covered_def surplus_def escrow_abs_def)
  qed (use s in simp)
qed

lemma pres_covered: "preserves (covered h bal C tok b) (run_call h c)"
proof (cases "\<exists>e. c = EscrowC e")
  case True
  then show ?thesis by (auto intro!: preservesI dest: escrow_call_covered)
next
  case False
  then show ?thesis by (intro covered.pres_all_but_escrow) blast
qed

lemma covered_passing:
  assumes "covered h bal C tok b s" and "time_passes others s t" and "never_debits bal C others"
  shows "covered h bal C tok b t"
  using assms uninvolved_passing [of C s others t]
  by (intro covered_view [OF assms(1)]) (auto simp: covered_def time_passes_def never_debits_def)

lemma covered_steps:
  "steps h others s t \<Longrightarrow> covered h bal C tok b s \<Longrightarrow> never_debits bal C others \<Longrightarrow>
   covered h bal C tok b t"
  by (erule steps_invariant) (auto intro: pres_covered covered_passing)

lemma fresh_covered: "fresh s \<Longrightarrow> covered h bal (self s) tok (bal tok (self s) (world s)) s"
  by (simp add: covered_def uninvolved_def fresh_def surplus_def escrow_abs_def escrow_debt_def
      escrows_finite_def empty_persistent_def empty_temporary_def dom_def)

section \<open>Runs\<close>

text \<open>Calls leave the ledger header alone, and no call makes the contract sign.\<close>

interpretation ledger_kept: whole_frame "\<lambda>s. ledger s = l" "\<lambda>_. True" h for l and h :: "'w host"
  by unfold_locales
    (rule preserves_append_audit preserves_add_payment_id
      | (simp add: storage_defs Let_def; fail))+

lemma reachable_self:
  assumes "steps h others s t" and "fresh s"
  shows "self t = self s" and "self t \<notin> auths t"
proof -
  have "uninvolved (self s) s"
    using assms(2) by (simp add: uninvolved_def fresh_def empty_persistent_def empty_temporary_def)
  with assms(1) have "uninvolved (self s) t"
    by (rule steps_invariant) (rule uninvolved.pres_run_call, rule uninvolved_passing)
  then show "self t = self s" "self t \<notin> auths t" by (simp_all add: uninvolved_def)
qed

text \<open>A sequence of transactions, and one from the deployment to a locked escrow.\<close>

definition run_calls :: "'w host \<Rightarrow> call list \<Rightarrow> 'w env \<Rightarrow> 'w env" where
  "run_calls h cs s = fold (\<lambda>c u. snd (invoke (run_call h c) u)) cs s"

lemma run_calls_steps: "steps h others s (run_calls h cs s)"
  unfolding run_calls_def
  by (induction cs rule: rev_induct) (auto intro: steps_refl steps_snoc transaction)

lemma run_calls_ledger: "ledger (run_calls h cs s) = ledger s"
proof (induction cs rule: rev_induct)
  case (snoc c cs)
  have "ledger (snd (invoke (run_call h c) u)) = ledger u" for u
    by (rule preserves_invoke [OF ledger_kept.pres_run_call]) simp
  with snoc show ?case by (simp add: run_calls_def)
qed (simp add: run_calls_def)

text \<open>Only the clock moves.\<close>

definition later :: "nat \<Rightarrow> 'w env \<Rightarrow> 'w env" where
  "later n s = s\<lparr>ledger := (ledger s)\<lparr>timestamp := n\<rparr>\<rparr>"

lemma later_passes: "self s \<notin> auths s \<Longrightarrow> now s \<le> n \<Longrightarrow> time_passes (\<lambda>w w'. w' = w) s (later n s)"
  by (simp add: time_passes_def temporary_expired_def expired_def later_def now_def seq_no_def)

lemma run_later:
  assumes "fresh s" and "now s \<le> n"
  shows "steps h (\<lambda>w w'. w' = w) (run_calls h cs s) (later n (run_calls h cs s))"
    and "steps h (\<lambda>w w'. w' = w) s (later n (run_calls h cs s))"
proof -
  note run = run_calls_steps [of h "\<lambda>w w'. w' = w" s cs]
  have "time_passes (\<lambda>w w'. w' = w) (run_calls h cs s) (later n (run_calls h cs s))"
    using reachable_self(2) [OF run assms(1)] assms(2) run_calls_ledger [of h cs s]
    by (intro later_passes) (simp_all add: now_def)
  then show "steps h (\<lambda>w w'. w' = w) (run_calls h cs s) (later n (run_calls h cs s))"
    and "steps h (\<lambda>w w'. w' = w) s (later n (run_calls h cs s))"
    using run by (blast intro: steps_refl steps_snoc passing)+
qed

definition launch :: "book env" where
  "launch = deployed rich {Addr 1, Addr 2, Addr 5} 1000"

definition launch_calls :: "call list" where
  "launch_calls = [AdminC (SetAdminCall (Addr 5)),
     GuardC (AddAllowedTokenCall (Addr 5) (Addr 9) None),
     MerchantC (RegisterMerchant (Addr 1) ''shop'' ''ab'' ''cd'' Retail None),
     EscrowC (CreateEscrow (Addr 2) (Addr 1) 1000 (Addr 9) 2000 ''e1'')]"

lemma fresh_launch: "fresh launch"
  by (simp add: fresh_def launch_def deployed_def)

lemmas launch_ops = set_admin_def add_allowed_token_def register_merchant_def create_escrow_def
  append_audit_def append_admin_audit_entry_def

lemma rich_nonneg: "0 \<le> balance_of tok a (world launch)"
  by (simp add: balance_of_def launch_def deployed_def rich_def)

lemma never_debits_none [simp]: "never_debits bal C (\<lambda>w w'. w' = w)"
  by (simp add: never_debits_def)

lemma now_launch [simp]: "now launch = 1000"
  by (simp add: launch_def deployed_def now_def)

end
