(* ===== verification/Pausing.thy ===== *)
theory Pausing
  imports Invariants
begin

text \<open>
  The emergency pause along the steps of the whole contract: what ends it, and that
  no call moves a token while it lasts.
\<close>

section \<open>The end of a pause\<close>

interpretation pause_kept: rest_of_pause "\<lambda>s. pause_instance (instance_st s) = v" "\<lambda>_. True" h
  for v and h :: "'w host"
  by unfold_locales
    (rule preserves_append_audit preserves_add_payment_id
      | (simp add: kept_instance_def storage_defs Let_def pause_instance_def; fail)
      | (simp add: kept_instance_def storage_defs Let_def; fail))+

lemma call_pause_step:
  assumes "run_call h c s = (Ok (), t)"
  shows "pause_step_of s t"
proof (cases "\<exists>g. c = GuardC g \<and> pause_call g")
  case True
  with assms show ?thesis by (auto intro: pause_call_step)
next
  case False
  then have "preserves (\<lambda>u. pause_instance (instance_st u) = pause_instance (instance_st s)) (run_call h c)"
    by (intro pause_kept.pres_all_but_pause) auto
  from preservesD [OF this assms] show ?thesis by (simp add: pause_step_same)
qed

lemma approvals_distinct:
  assumes "steps h others s t" and "fresh s"
  shows "distinct (st_get_early_unpause_approvals t)"
  using assms(1)
proof (rule steps_invariant)
  show "distinct (st_get_early_unpause_approvals s)"
    using assms(2) by (simp add: fresh_def storage_defs empty_instance_def)
  show "preserves (\<lambda>s. distinct (st_get_early_unpause_approvals s)) (run_call h c)" for c
    by (rule preservesI) (auto dest!: call_pause_step simp: pause_step_of_def pause_abs_def elim!: pause_stepE)
qed (simp add: passing_view storage_defs)

text \<open>
  C14. A pause ends in two ways only: the administrator unpauses, not before the timelock
  of a reasoned pause is over, or a current guardian adds the approval that makes at
  least three approvals of distinct addresses. Every other call, of any component and by
  anyone, leaves a paused contract paused.
\<close>

theorem pause_is_lifted_by_timelock_or_guardians:
  assumes "steps h others s t" and "fresh s" and "run_call h c t = (Ok (), u)"
    and "st_get_paused t" and "\<not> st_get_paused u"
  shows "(\<exists>a. st_get_admin t = Some a \<and> a \<in> auths t \<and>
      (\<forall>l. st_get_unpause_lock_until t = Some l \<longrightarrow> l \<le> now t)) \<or>
    (\<exists>g \<in> auths t. g \<in> set (st_get_pause_guardians t) \<and>
      distinct (st_get_early_unpause_approvals t @ [g]) \<and>
      3 \<le> length (st_get_early_unpause_approvals t @ [g]))"
  using call_pause_step [OF assms(3)] approvals_distinct [OF assms(1,2)] assms(4,5)
  by (auto simp: pause_step_of_def pause_abs_def EARLY_UNPAUSE_THRESHOLD_def elim!: pause_stepE)

section \<open>Funds while paused\<close>

text \<open>A host on which no token call succeeds, and the calls that use no token.\<close>

definition no_tokens :: "'w host \<Rightarrow> 'w host" where
  "no_tokens h = h\<lparr>token_transfer := \<lambda>_ _ _ _ _. None, token_transfer_from := \<lambda>_ _ _ _ _ _. None,
     token_approve := \<lambda>_ _ _ _ _ _. None\<rparr>"

interpretation world_kept: rest_of_escrow "\<lambda>s. world s = w" "\<lambda>_. True" "no_tokens h" for w and h :: "'w host"
  by unfold_locales
    (rule preserves_append_audit preserves_add_payment_id
      | (simp add: no_tokens_def storage_defs Let_def; fail))+

lemma no_tokens_sel [simp]:
  "address_xdr (no_tokens h) = address_xdr h" "string_xdr (no_tokens h) = string_xdr h"
  "sha256 (no_tokens h) = sha256 h" "sort_payments (no_tokens h) = sort_payments h"
  by (simp_all add: no_tokens_def)

text \<open>The entry points that can call a token contract.\<close>

definition uses_token :: "call \<Rightarrow> bool" where
  "uses_token c \<longleftrightarrow> (case c of
       PaymentC (ProcessPaymentWithSignature _ _ _ _ _ _ _ _ _ _ _) \<Rightarrow> True
     | PaymentC (ProcessPaymentWithNonce _ _ _ _ _ _ _ _) \<Rightarrow> True
     | PaymentC (BatchPayment _ _) \<Rightarrow> True
     | RefundC (ExecuteRefund _) \<Rightarrow> True
     | DisputeC (ResolveDispute _ _ _ _) \<Rightarrow> True
     | MultisigC (ExecuteMultisigPayment _ _) \<Rightarrow> True
     | RequestC (PayPaymentRequest _ _) \<Rightarrow> True
     | SubscriptionC (Subscribe _ _ _ _) \<Rightarrow> True
     | SubscriptionC (ChargeSubscription _ _) \<Rightarrow> True
     | SubscriptionC (CancelSubscription _ _) \<Rightarrow> True
     | SubscriptionC (RenewSubscriptionAllowance _ _) \<Rightarrow> True
     | EscrowC (CreateEscrow _ _ _ _ _ _) \<Rightarrow> True
     | EscrowC (ReleaseEscrow _) \<Rightarrow> True
     | EscrowC (CancelEscrowBeforeLock _ _) \<Rightarrow> True
     | EscrowC (EscrowHoldCall _ _ _ _ _ _ _ _) \<Rightarrow> True
     | EscrowC (EscrowReleaseCall _ _) \<Rightarrow> True
     | EscrowC (EscrowCancelCall _ _) \<Rightarrow> True
     | _ \<Rightarrow> False)"

lemma calls_without_host:
  "run_admin_call (no_tokens h) a = run_admin_call h a"
  "run_guard_call (no_tokens h) g = run_guard_call h g"
  "run_merchant_call (no_tokens h) m = run_merchant_call h m"
  "run_query_call (no_tokens h) q = run_query_call h q"
  "run_version_call (no_tokens h) v = run_version_call h v"
  by ((cases a; simp add: transfer_admin_def), (cases g; simp),
      (cases m; simp add: reveal_merchant_registration_def commitment_pre_image_def),
      (cases q; simp add: get_merchant_payment_history_def get_payer_payment_history_def build_page_def),
      (cases v; simp))

lemma other_calls_use_no_token: "\<not> uses_token c \<Longrightarrow> run_call (no_tokens h) c = run_call h c"
  by (auto simp: uses_token_def calls_without_host
      split: call.splits payment_call.splits
        refund_call.splits dispute_call.splits multisig_call.splits
        request_call.splits subscription_call.splits escrow_call.splits)

lemma paused_bind:
  assumes "st_get_paused s"
  shows "bind require_not_paused k s = (Err ContractPaused, s)"
    and "bind (bind require_not_paused k) k' s = (Err ContractPaused, s)"
  using assms by (simp_all add: require_not_paused_def exec_comp)

lemmas token_ops = process_payment_with_signature_def process_payment_with_nonce_def batch_payment_def
  execute_refund_def resolve_dispute_def execute_multisig_payment_def pay_payment_request_def
  subscribe_def charge_subscription_def cancel_subscription_def renew_subscription_allowance_def
  create_escrow_def release_escrow_def cancel_escrow_before_lock_def escrow_hold_def escrow_release_def
  escrow_cancel_def

lemma token_calls_are_guarded:
  assumes "st_get_paused s" and "uses_token c"
  shows "run_call h c s = (Err ContractPaused, s)"
  using assms(2) unfolding uses_token_def
  by (auto simp: token_ops paused_bind [OF assms(1)]
      split: call.splits payment_call.splits refund_call.splits dispute_call.splits multisig_call.splits
        request_call.splits subscription_call.splits escrow_call.splits)

lemma escrow_readers:
  "\<not> uses_token (EscrowC e) \<Longrightarrow> run_escrow_call h e s = (Ok (), t) \<Longrightarrow> t = s"
  by (cases e) (auto simp: uses_token_def get_escrow_def get_escrow_hold_def exec_simps)

text \<open>
  C15. While the contract is paused, every entry point that can call a token contract
  returns \<open>ContractPaused\<close> and changes nothing, and no transaction of any kind changes
  a token balance or an allowance.
\<close>

theorem paused_contract_moves_no_funds:
  assumes "st_get_paused s"
  shows "(uses_token c \<longrightarrow> run_call h c s = (Err ContractPaused, s)) \<and>
    world (snd (invoke (run_call h c) s)) = world s"
proof (cases "uses_token c")
  case True
  with token_calls_are_guarded [OF assms] show ?thesis by (simp add: invoke_def)
next
  case False
  have "preserves (\<lambda>u. world u = world s) (run_call h c)"
  proof (cases "\<exists>e. c = EscrowC e")
    case True
    then show ?thesis using False by (auto intro!: preservesI dest: escrow_readers)
  next
    case other: False
    have "preserves (\<lambda>u. world u = world s) (run_call (no_tokens h) c)"
      using other by (intro world_kept.pres_all_but_escrow) auto
    then show ?thesis unfolding other_calls_use_no_token [OF False] .
  qed
  from preserves_invoke [OF this] False show ?thesis by simp
qed

section \<open>Examples\<close>

definition paused_run :: "book env" where
  "paused_run = run_calls sample_host [AdminC (SetAdminCall (Addr 5)),
     GuardC (PauseContractCall (Addr 5))] launch"

lemma paused_run_state:
  "st_get_paused paused_run \<and>
   is_Ok (fst (run_call sample_host (GuardC (UnpauseContractCall (Addr 5))) paused_run)) \<and>
   \<not> st_get_paused (snd (run_call sample_host (GuardC (UnpauseContractCall (Addr 5))) paused_run))"
  unfolding paused_run_def run_calls_def launch_def
  by (simp add: invoke_def set_admin_def pause_contract_def unpause_contract_def append_audit_def
      append_admin_audit_entry_def require_admin_rate_limited_def exec_comp storage_defs helper_defs
      reference_defs const_defs)

theorem pause_is_lifted_by_timelock_or_guardians_witness:
  "(\<exists>a. st_get_admin paused_run = Some a \<and> a \<in> auths paused_run) \<or>
   (\<exists>g \<in> auths paused_run. g \<in> set (st_get_pause_guardians paused_run))"
proof -
  have "steps sample_host (\<lambda>w w'. w' = w) launch paused_run"
    unfolding paused_run_def by (rule run_calls_steps)
  from pause_is_lifted_by_timelock_or_guardians [OF this fresh_launch is_Ok_unit]
    paused_run_state show ?thesis by blast
qed

theorem paused_contract_moves_no_funds_witness:
  "run_call sample_host (EscrowC (ReleaseEscrow ''e1'')) paused_run = (Err ContractPaused, paused_run)"
  using paused_contract_moves_no_funds [of paused_run "EscrowC (ReleaseEscrow ''e1'')" sample_host]
    paused_run_state by (simp add: uses_token_def)

end
