(* ===== verification/Consent.thy ===== *)
theory Consent
  imports Pausing
begin

text \<open>
  Whose funds a call can move: who signed, the contract itself, and the two entry points
  that debit an address on the strength of a stored record.
\<close>

section \<open>Calls that debit signers only\<close>

text \<open>A token call debits its source only, by exactly its amount.\<close>

lemma debited:
  assumes "sep41 h bal" and "bal tok A w' < bal tok A w"
    and "token_transfer h tok' src dst n w = Some w' \<or> token_transfer_from h tok' sp src dst n w = Some w'"
  shows "A = src \<and> tok = tok' \<and> bal tok A w' = bal tok A w - n"
proof -
  have "moved bal tok' src dst n w w'" using sep41D(1,2) [OF assms(1)] assms(3) by metis
  with assms(2) show ?thesis by (auto simp: moved_def split: if_splits)
qed

lemma not_debited:
  "sep41 h bal \<Longrightarrow> token_transfer h tok' src dst n w = Some w' \<Longrightarrow> src \<noteq> A \<Longrightarrow>
   bal tok A w \<le> bal tok A w'"
  "sep41 h bal \<Longrightarrow> token_transfer_from h tok' sp src dst n w = Some w' \<Longrightarrow> src \<noteq> A \<Longrightarrow>
   bal tok A w \<le> bal tok A w'"
  using debited [of h bal tok A w' w] by force+

text \<open>The address \<open>A\<close> does not sign, and holds at least \<open>b\<close> of a token that keeps its standard.\<close>

definition untouched ::
  "'w host \<Rightarrow> (address \<Rightarrow> address \<Rightarrow> 'w \<Rightarrow> int) \<Rightarrow> address \<Rightarrow> address \<Rightarrow> int \<Rightarrow> 'w env \<Rightarrow> bool" where
  "untouched h bal A tok b s \<longleftrightarrow> A \<notin> auths s \<and> (sep41 h bal \<longrightarrow> b \<le> bal tok A (world s))"

lemma untouched_view:
  "untouched h bal A tok b s \<Longrightarrow> auths t = auths s \<Longrightarrow> world t = world s \<Longrightarrow> untouched h bal A tok b t"
  by (simp add: untouched_def)

locale debits_signers = auth_frame + stats_frame + token_frame
begin

lemma pres_transfer_with_fee: "ok a \<Longrightarrow> preserves I (transfer_with_fee h a m t n)"
  unfolding transfer_with_fee_def platform_fee_for_def by (rule pres | assumption)+

lemma pres_bookkeeping:
  "preserves I (add_merchant_payment_stats m n)" "preserves I (add_global_payment_stats n)"
  "preserves I (flag_large_payment a n)" "preserves I (add_merchant_refund_stats m n)"
  "preserves I (add_global_refund_stats n)"
  unfolding add_merchant_payment_stats_def add_global_payment_stats_def flag_large_payment_def
    add_merchant_refund_stats_def add_global_refund_stats_def
  by (rule pres)+

end

interpretation untouched: debits_signers "untouched h bal A tok b" "\<lambda>a. a \<noteq> A" h
  for h :: "'w host" and bal A tok b
proof unfold_locales
  fix s :: "'w env" and src tok' dst sp n l w
  assume s: "untouched h bal A tok b s"
  show "untouched h bal A tok b (s\<lparr>world := w\<rparr>)"
    if "src \<noteq> A" "token_transfer h tok' src dst n (world s) = Some w"
    using s not_debited(1) [OF _ that(2,1), of bal tok] by (auto simp: untouched_def)
  show "untouched h bal A tok b (s\<lparr>world := w\<rparr>)"
    if "src \<noteq> A" "token_transfer_from h tok' sp src dst n (world s) = Some w"
    using s not_debited(2) [OF _ that(2,1), of bal tok] by (auto simp: untouched_def)
  show "untouched h bal A tok b (s\<lparr>world := w\<rparr>)"
    if "token_approve h tok' src sp n l (world s) = Some w"
    using s that sep41D(3) [of h bal tok' src sp n l "world s" w tok A] by (simp add: untouched_def)
qed (erule untouched_view; simp add: storage_defs | simp add: untouched_def; blast)+

lemma untouched_modify:
  "(\<And>s. auths (f s) = auths s) \<Longrightarrow> (\<And>s. world (f s) = world s) \<Longrightarrow>
   preserves (untouched h bal A tok b) (modify f)"
  by (auto simp: untouched_def intro!: preserves_modify)

lemma ids_untouched:
  "preserves (untouched h bal A tok b) (st_add_merchant_payment_id a k)"
  "preserves (untouched h bal A tok b) (st_add_payer_payment_id a k)"
  by (rule preserves_add_payment_id; erule untouched_view; simp add: storage_defs)+

lemma rate_limit_untouched: "preserves (untouched h bal A tok b) (take_rate_limit_slot a)"
  unfolding take_rate_limit_slot_def st_increment_rate_limit_counter_def
  by (rule pres_know pres untouched_modify | simp add: storage_defs)+

lemmas untouched_rules = untouched.pres_transfer_with_fee untouched.pres_bookkeeping ids_untouched
  rate_limit_untouched

lemma payments_debit_signers:
  "preserves (untouched h bal A tok b) (process_payment_with_signature h a k m t n memo tags nc ts sg pk)"
  "preserves (untouched h bal A tok b) (process_payment_with_nonce h a k m t n memo tags nc)"
  unfolding process_payment_with_signature_def process_payment_with_nonce_def
  by (rule pres_know untouched_rules pres untouched_modify | assumption | simp add: storage_defs)+

lemma batches_debit_signers: "preserves (untouched h bal A tok b) (batch_payment h a items)"
  unfolding batch_payment_def validate_batch_item_def transfer_groups_def record_batch_item_def
  by (rule pres_know untouched_rules pres untouched_modify | assumption | simp add: storage_defs)+

lemma settlements_debit_signers:
  "preserves (untouched h bal A tok b) (execute_refund h rid)"
  "preserves (untouched h bal A tok b) (pay_payment_request h a k)"
  unfolding execute_refund_def pay_payment_request_def
  by (rule pres_know untouched_rules pres untouched_modify | assumption | simp add: storage_defs Let_def)+

lemma subscribers_debit_signers:
  "preserves (untouched h bal A tok b) (subscribe h m a pk k)"
  "preserves (untouched h bal A tok b) (cancel_subscription h a k)"
  "preserves (untouched h bal A tok b) (renew_subscription_allowance h a t)"
  unfolding subscribe_def cancel_subscription_def renew_subscription_allowance_def approve_reserve_def
  by (rule pres_know untouched_rules pres untouched_modify | assumption | simp add: storage_defs Let_def)+


lemmas signers_only = payments_debit_signers batches_debit_signers settlements_debit_signers
  subscribers_debit_signers

lemma multisig_debits_signers:
  "execute_multisig_payment h a k s = (Ok z, t) \<Longrightarrow> sep41 h bal \<Longrightarrow> A \<notin> auths s \<Longrightarrow>
   bal tok A (world s) \<le> bal tok A (world t)"
  by (drule execute_multisig_refines)
    (auto simp: multisig_abs_def elim!: multisig_stepE intro: not_debited(1))

section \<open>Calls that debit on the strength of a record\<close>

lemma escrow_debits:
  assumes "run_escrow_call h c s = (Ok (), t)" and "sep41 h bal" and "A \<notin> auths s" and "A \<noteq> self s"
  shows "bal tok A (world s) \<le> bal tok A (world t)"
  using escrow_call_cases [OF assms(1)] assms(2-)
  by (auto simp: escrow_abs_def elim!: escrow_stepE intro: not_debited(1))

lemma resolve_dispute_debits:
  "resolve_dispute h a did rs f s = (Ok z, t) \<Longrightarrow> world t = world s \<or>
   f \<and> a \<in> auths s \<and> st_get_admin s = Some a \<and>
     (\<exists>d r p. st_get_dispute did s = Some d \<and> st_get_refund (d_refund_id d) s = Some r \<and>
        st_get_payment (r_order_id r) s = Some p \<and>
        token_transfer h (p_token p) (p_merchant_address p) (p_payer p) (r_amount r) (world s) = Some (world t))"
  by (clarsimp simp: resolve_dispute_def add_merchant_refund_stats_def add_global_refund_stats_def
      exec_simps Let_def split: if_splits) (auto simp: storage_defs)


lemma other_calls_keep_world:
  assumes "run_call h c s = (Ok (), t)" and "\<not> uses_token c"
  shows "world t = world s"
proof (cases "\<exists>e. c = EscrowC e")
  case True
  with assms show ?thesis by (auto dest: escrow_readers)
next
  case False
  then have "preserves (\<lambda>u. world u = world s) (run_call (no_tokens h) c)"
    by (intro world_kept.pres_all_but_escrow) auto
  from preservesD [OF this] assms show ?thesis by (simp add: other_calls_use_no_token)
qed

lemma token_call_cases:
  assumes "uses_token c"
    and "\<And>e. c = EscrowC e \<Longrightarrow> Q" and "\<And>a k. c = MultisigC (ExecuteMultisigPayment a k) \<Longrightarrow> Q"
    and "\<And>a k n f. c = DisputeC (ResolveDispute a k n f) \<Longrightarrow> Q"
    and "\<And>m k. c = SubscriptionC (ChargeSubscription m k) \<Longrightarrow> Q"
    and "(\<And>(h :: 'w host) bal A tok b. preserves (untouched h bal A tok b) (run_call h c)) \<Longrightarrow> Q"
  shows Q
  using assms unfolding uses_token_def
  by (auto simp: signers_only split: call.splits payment_call.splits refund_call.splits dispute_call.splits multisig_call.splits
        request_call.splits subscription_call.splits escrow_call.splits)

lemma charge_subscription_debits:
  "charge_subscription h m k s = (Ok z, t) \<Longrightarrow> \<exists>b p. st_get_subscription k s = Some b \<and>
     st_get_subscription_plan (sub_plan_id b) s = Some p \<and> m = sub_merchant b \<and> m \<in> auths s \<and>
     token_transfer_from h (sp_token p) (self s) (sub_subscriber b) m (sp_amount p) (world s) = Some (world t)"
  unfolding charge_subscription_def
  by (clarsimp simp: exec_simps Let_def split del: if_split)
    (simp add: storage_defs reserve_view split del: if_split del: st_set_subscription_reserve_def)

section \<open>No debit without consent\<close>

text \<open>
  C4. No debit without consent. Whatever call returns, in whatever state, an address that
  it leaves with less of a standard token has signed the transaction, with three
  exceptions: the contract itself, which pays out escrows; the subscriber of a stored
  subscription, debited by the plan's amount when its merchant charges; and the merchant
  of a disputed payment, debited by the refund when the administrator resolves the
  dispute for the payer. The contract asks for no signature of the latter two.
\<close>

theorem no_debit_without_consent:
  fixes h :: "'w host"
  assumes "sep41 h bal" and "run_call h c s = (Ok (), t)" and "bal tok A (world t) < bal tok A (world s)"
  shows "A \<in> auths s \<or> (A = self s \<and> (\<exists>e. c = EscrowC e)) \<or>
    (\<exists>k b p. c = SubscriptionC (ChargeSubscription (sub_merchant b) k) \<and> sub_merchant b \<in> auths s \<and>
       st_get_subscription k s = Some b \<and> st_get_subscription_plan (sub_plan_id b) s = Some p \<and>
       A = sub_subscriber b \<and> tok = sp_token p \<and>
       bal tok A (world t) = bal tok A (world s) - sp_amount p) \<or>
    (\<exists>a k n d r p. c = DisputeC (ResolveDispute a k n True) \<and> a \<in> auths s \<and> st_get_admin s = Some a \<and>
       st_get_dispute k s = Some d \<and> st_get_refund (d_refund_id d) s = Some r \<and>
       st_get_payment (r_order_id r) s = Some p \<and> A = p_merchant_address p \<and> tok = p_token p \<and>
       bal tok A (world t) = bal tok A (world s) - r_amount r)"
proof (cases "A \<in> auths s")
  case False
  have "world t \<noteq> world s" using assms(3) by auto
  then have "uses_token c" using other_calls_keep_world [OF assms(2)] by blast
  then show ?thesis
  proof (rule token_call_cases)
    fix e
    assume "c = EscrowC e"
    with assms False show ?thesis using escrow_debits [of h e s t bal A tok] by auto
  next
    fix a k
    assume "c = MultisigC (ExecuteMultisigPayment a k)"
    with assms False show ?thesis using multisig_debits_signers [of h a k s "()" t bal A tok] by auto
  next
    fix a k n f
    assume c: "c = DisputeC (ResolveDispute a k n f)"
    with assms(2) have "resolve_dispute h a k n f s = (Ok (), t)" by simp
    with \<open>world t \<noteq> world s\<close> obtain d r p where r: "f" "a \<in> auths s" "st_get_admin s = Some a"
        "st_get_dispute k s = Some d" "st_get_refund (d_refund_id d) s = Some r" "st_get_payment (r_order_id r) s = Some p"
      and tr: "token_transfer h (p_token p) (p_merchant_address p) (p_payer p) (r_amount r) (world s) = Some (world t)"
      by (blast dest: resolve_dispute_debits)
    from debited [OF assms(1,3) disjI1 [OF tr]] r c show ?thesis by auto
  next
    fix m k
    assume c: "c = SubscriptionC (ChargeSubscription m k)"
    with assms(2) have "charge_subscription h m k s = (Ok (), t)" by simp
    then obtain b p where b: "st_get_subscription k s = Some b" "m = sub_merchant b" "m \<in> auths s"
        "st_get_subscription_plan (sub_plan_id b) s = Some p"
      and tr: "token_transfer_from h (sp_token p) (self s) (sub_subscriber b) m (sp_amount p) (world s) = Some (world t)"
      by (blast dest: charge_subscription_debits)
    from debited [OF assms(1,3) disjI2 [OF tr]] b c show ?thesis by auto
  next
    assume "\<And>(h :: 'w host) bal A tok b. preserves (untouched h bal A tok b) (run_call h c)"
    then have "untouched h bal A tok (bal tok A (world s)) t"
      using assms(2) by (rule preservesD) (simp add: untouched_def False)
    with assms(1,3) show ?thesis by (simp add: untouched_def)
  qed
qed simp

text \<open>A charge that the subscriber has not signed: the exception, at work.\<close>

lemma charge_sample_debits:
  "is_Ok (fst charge_sample) \<and> Addr 2 \<notin> auths sub_shop \<and> self sub_shop \<noteq> Addr 2 \<and>
   balance_of (Addr 9) (Addr 2) (world (snd charge_sample)) < balance_of (Addr 9) (Addr 2) (world sub_shop)"
  unfolding charge_sample_def charge_subscription_def sub_shop_def
  by (simp add: exec_comp storage_defs helper_defs reference_defs shop_defs const_defs in_i128_def
      u64_sat_add_def i128_sat_sub_def i128_clamp_def balance_of_def)

theorem no_debit_without_consent_witness:
  "\<exists>b p. st_get_subscription ''s1'' sub_shop = Some b \<and> sub_subscriber b = Addr 2 \<and>
     st_get_subscription_plan (sub_plan_id b) sub_shop = Some p \<and>
     balance_of (Addr 9) (Addr 2) (world (snd charge_sample)) =
       balance_of (Addr 9) (Addr 2) (world sub_shop) - sp_amount p"
proof -
  note run = charge_sample_debits
  have "run_call sample_host (SubscriptionC (ChargeSubscription (Addr 1) ''s1'')) sub_shop = (Ok (), snd charge_sample)"
    using is_Ok_unit [OF conjunct1 [OF run]] by (simp add: charge_sample_def)
  from no_debit_without_consent [OF sep41_sample_host this, of "Addr 9" "Addr 2"] run show ?thesis by auto
qed

end
