(* ===== verification/Lifecycles.thy ===== *)
theory Lifecycles
  imports Invariants
begin

text \<open>
  The machines of multisig payments, refunds and subscriptions along the steps of the
  whole contract: what their single steps keep is kept by every sequence of calls of all
  components, and nobody else writes their records.
\<close>

text \<open>The three ways a step can go: a call of the component, another call, time.\<close>

lemma machine_invariant:
  assumes "steps h others s t" and "I s"
    and own: "\<And>c u v. P c \<Longrightarrow> run_call h c u = (Ok (), v) \<Longrightarrow> I u \<Longrightarrow> I v"
    and rest: "\<And>c u v. \<not> P c \<Longrightarrow> run_call h c u = (Ok (), v) \<Longrightarrow> view v = view u"
    and passes: "\<And>u v. time_passes others u v \<Longrightarrow> view v = view u"
    and same: "\<And>u v. view v = view u \<Longrightarrow> I u \<Longrightarrow> I v"
  shows "I t"
  using assms(1,2)
proof (rule steps_invariant)
  show "preserves I (run_call h c)" for c
  proof (rule preservesI)
    fix u and x :: unit and v
    assume "run_call h c u = (Ok x, v)" and "I u"
    then show "I v" using own rest same by (cases "P c") auto
  qed
qed (use passes same in blast)

section \<open>Multisig payments\<close>

lemma other_calls_keep_multisigs:
  "(\<And>e. c \<noteq> MultisigC e) \<Longrightarrow> run_call h c u = (Ok x, v) \<Longrightarrow>
   k_Multisig (persistent_st v) = k_Multisig (persistent_st u)"
  using preservesD [OF multisig_kept.pres_all_but_multisig] by blast

lemma multisig_invariant:
  assumes "steps h others s t" and "I s"
    and mach: "\<And>u v. multisig_step h (st_get_admin u) (now u) (auths u) (multisig_abs u) (multisig_abs v) \<Longrightarrow>
      I u \<Longrightarrow> I v"
    and same: "\<And>u v. k_Multisig (persistent_st v) = k_Multisig (persistent_st u) \<Longrightarrow> I u \<Longrightarrow> I v"
  shows "I t"
  using assms(1,2)
proof (rule machine_invariant [where P = "\<lambda>c. \<exists>e. c = MultisigC e" and view = "\<lambda>s. k_Multisig (persistent_st s)"])
  show "I v" if "\<exists>e. c = MultisigC e" "run_call h c u = (Ok (), v)" "I u" for c u v
    using that by (auto dest!: multisig_call_cases intro: mach)
  show "k_Multisig (persistent_st v) = k_Multisig (persistent_st u)"
    if "\<not> (\<exists>e. c = MultisigC e)" "run_call h c u = (Ok (), v)" for c u v
    using other_calls_keep_multisigs [OF _ that(2)] that(1) by blast
  show "k_Multisig (persistent_st v) = k_Multisig (persistent_st u)" if "time_passes others u v" for u v
    using passing_view(2) [OF that] by simp
qed (rule same)

lemma quorum_reachable:
  "steps h others s t \<Longrightarrow> all_quorum_ok (k_Multisig (persistent_st s)) \<Longrightarrow>
   all_quorum_ok (k_Multisig (persistent_st t))"
  by (erule multisig_invariant) (auto simp: multisig_abs_def intro: quorum_step)

lemma fresh_quorum: "fresh s \<Longrightarrow> all_quorum_ok (k_Multisig (persistent_st s))"
  by (simp add: fresh_def all_quorum_ok_def empty_persistent_def)

lemma msigs_evolves_same:
  "k_Multisig (persistent_st v) = k_Multisig (persistent_st u) \<Longrightarrow>
   msigs.evolves s v = msigs.evolves s u"
  by (simp add: msigs.evolves_def st_get_multisig_def)

lemma multisigs_evolve:
  assumes "steps h others s t" and "all_quorum_ok (k_Multisig (persistent_st s))"
  shows "msigs.evolves s t"
proof -
  have "all_quorum_ok (k_Multisig (persistent_st s)) \<and> msigs.evolves s s"
    using assms(2) by (simp add: msigs.evolves_refl)
  with assms(1) have "all_quorum_ok (k_Multisig (persistent_st t)) \<and> msigs.evolves s t"
  proof (rule multisig_invariant)
    show "all_quorum_ok (k_Multisig (persistent_st v)) \<and> msigs.evolves s v"
      if "multisig_step h (st_get_admin u) (now u) (auths u) (multisig_abs u) (multisig_abs v)"
        and u: "all_quorum_ok (k_Multisig (persistent_st u)) \<and> msigs.evolves s u" for u v
      using quorum_step [OF that(1) [unfolded multisig_abs_def]]
        msigs.evolves_trans [OF _ multisig_step_evolves [OF that(1)]] u by blast
    show "all_quorum_ok (k_Multisig (persistent_st v)) \<and> msigs.evolves s v"
      if "k_Multisig (persistent_st v) = k_Multisig (persistent_st u)"
        and "all_quorum_ok (k_Multisig (persistent_st u)) \<and> msigs.evolves s u" for u v
      using that msigs_evolves_same by metis
  qed
  then show ?thesis by simp
qed

text \<open>
  C6. In every state reached from the deployment a multisig payment was executed only
  with as many signatures as it requires, all from distinct listed signers. Across any
  further steps it does not disappear, its terms never change and signatures are only
  added; once executed or cancelled it stays exactly as it is.
\<close>

theorem multisig_needs_its_quorum:
  assumes "steps h others s t" and "fresh s" and "steps h others t u"
    and "st_get_multisig k t = Some ms"
  shows "ms_payment_id ms = k \<and> 0 < ms_required_signatures ms \<and>
    se_signer ` set (ms_collected ms) \<subseteq> set (ms_signers ms) \<and>
    (ms_executed ms \<longrightarrow> \<not> ms_cancelled ms \<and>
      ms_required_signatures ms \<le> card (se_signer ` set (ms_collected ms))) \<and>
    (\<exists>ms' new. st_get_multisig k u = Some ms' \<and>
      ms'\<lparr>ms_collected := ms_collected ms, ms_executed := ms_executed ms, ms_cancelled := ms_cancelled ms\<rparr> = ms \<and>
      ms_collected ms' = ms_collected ms @ new \<and> (ms_executed ms \<or> ms_cancelled ms \<longrightarrow> ms' = ms))"
proof -
  note ok = quorum_reachable [OF assms(1) fresh_quorum [OF assms(2)]]
  from all_quorum_okD [OF ok, of k ms] assms(4) have q: "ms_payment_id ms = k" "quorum_ok ms"
    by (simp_all add: st_get_multisig_def)
  then have "card (se_signer ` set (ms_collected ms)) = length (ms_collected ms)"
    using distinct_card [of "map se_signer (ms_collected ms)"] by (simp add: quorum_ok_def)
  moreover obtain ms' where ms': "st_get_multisig k u = Some ms'" "multisig_follows ms ms'"
    using msigs.evolves_get [OF multisigs_evolve [OF assms(3) ok] assms(4)] by blast
  then have "ms_collected ms' = ms_collected ms @ drop (length (ms_collected ms)) (ms_collected ms')"
    by (metis append_take_drop_id multisig_follows_def)
  ultimately show ?thesis
    using q ms' by (auto simp: quorum_ok_def multisig_follows_def open_multisig_def)
qed

section \<open>Signed payments\<close>

lemma nonce_steps:
  assumes "steps h others s t" and "n \<le> u64_max" and "n \<le> st_get_merchant_nonce m s"
  shows "n \<le> st_get_merchant_nonce m t"
proof -
  from assms(1) have "n \<le> u64_max \<longrightarrow> n \<le> st_get_merchant_nonce m t"
    by (rule steps_invariant) (simp add: assms(3), rule nonce_grows.pres_run_call,
      simp add: passing_view st_get_merchant_nonce_def)
  with assms(2) show ?thesis by simp
qed

text \<open>
  C5. A signed payment is never replayed: once a payment with a nonce has been accepted
  for a merchant, no later payment to that merchant with the same nonce is accepted, in
  whatever state, by whatever payer and for whatever order, amount and signature. (The
  last nonce, 2^64 - 1, is the exception: there the counter saturates.)
\<close>

theorem signed_payment_never_replayed:
  assumes "process_payment_with_signature h payer k m tok n memo tags nc ts sg pk s = (Ok (), t)"
    and "nc < u64_max" and "steps h others t u"
  shows "\<not> is_Ok (fst (process_payment_with_signature h payer' k' m tok' n' memo' tags' nc ts' sg' pk' u))"
proof
  assume "is_Ok (fst (process_payment_with_signature h payer' k' m tok' n' memo' tags' nc ts' sg' pk' u))"
  from signed_payment_nonce [OF is_Ok_unit [OF this]]
  have "nc = u64_sat_add (st_get_merchant_nonce m u) 1" by simp
  moreover have "nc \<le> st_get_merchant_nonce m u"
    using nonce_steps [OF assms(3), of nc m] signed_payment_nonce [OF assms(1)] assms(2) by simp
  ultimately show False using u64_sat_add_1 [OF assms(2)] by blast
qed

section \<open>Refunds\<close>

interpretation refunds_kept: rest_of_refunds "\<lambda>s. k_Refund (persistent_st s) = rs" "\<lambda>_. True" h
  for rs and h :: "'w host"
  by unfold_locales
    (rule preserves_append_audit preserves_add_payment_id
      | (simp add: storage_defs Let_def; fail))+

text \<open>The call by which the administrator removes the payments past their retention, with their refunds.\<close>

definition is_cleanup :: "call \<Rightarrow> bool" where
  "is_cleanup c \<longleftrightarrow> (\<exists>a. c = PaymentC (CleanupExpiredPaymentsCall a))"

lemma cleanup_call_refunds:
  assumes "run_call h c s = (Ok (), t)" and "is_cleanup c"
  shows "k_Refund (persistent_st t) k = k_Refund (persistent_st s) k \<or> k_Refund (persistent_st t) k = None"
proof -
  from assms obtain a n where "cleanup_expired_payments_loop a s = (Ok n, t)"
    by (auto simp: is_cleanup_def exec_simps)
  then show ?thesis by (rule cleanup_payments_refunds)
qed

lemma call_refund_step:
  assumes "run_call h c s = (Ok (), t)" and "\<not> is_cleanup c"
  shows "refund_step_of s t"
proof (cases "(\<exists>e. c = RefundC e) \<or> (\<exists>e. c = DisputeC e)")
  case True
  with assms(1) show ?thesis by (auto intro: refund_call_step dispute_call_step)
next
  case False
  then have "preserves (\<lambda>u. k_Refund (persistent_st u) = k_Refund (persistent_st s)) (run_call h c)"
    using assms(2) by (intro refunds_kept.pres_all_but_refunds) (auto simp: is_cleanup_def)
  from preservesD [OF this assms(1)] show ?thesis by (simp add: refund_step_same)
qed

text \<open>Every refund is stored under its own id, which is not empty.\<close>

definition refunds_keyed :: "(string \<Rightarrow> refund_record option) \<Rightarrow> bool" where
  "refunds_keyed m \<longleftrightarrow> (\<forall>k r. m k = Some r \<longrightarrow> r_refund_id r = k \<and> k \<noteq> [])"

lemma refunds_keyed_step: "refund_step adm sg pays m m' \<Longrightarrow> refunds_keyed m \<Longrightarrow> refunds_keyed m'"
  by (erule refund_stepE) (auto simp: refunds_keyed_def, (metis option.distinct(1))+)

lemma pres_refunds_keyed: "preserves (\<lambda>s. refunds_keyed (k_Refund (persistent_st s))) (run_call h c)"
proof (rule preservesI)
  fix u and x :: unit and v
  assume run: "run_call h c u = (Ok x, v)" and u: "refunds_keyed (k_Refund (persistent_st u))"
  show "refunds_keyed (k_Refund (persistent_st v))"
  proof (cases "is_cleanup c")
    case True
    have "k_Refund (persistent_st u) k = Some r" if "k_Refund (persistent_st v) k = Some r" for k r
      using cleanup_call_refunds [OF _ True, of h u v k] run that by simp
    with u show ?thesis by (simp add: refunds_keyed_def)
  next
    case False
    from call_refund_step [OF _ this] run have "refund_step_of u v" by simp
    then show ?thesis using u refunds_keyed_step by (auto simp: refund_step_of_def)
  qed
qed

lemma refunds_keyed_reachable:
  assumes "steps h others s t" and "fresh s"
  shows "refunds_keyed (k_Refund (persistent_st t))"
  using assms(1)
proof (rule steps_invariant)
  show "refunds_keyed (k_Refund (persistent_st s))"
    using assms(2) by (simp add: fresh_def refunds_keyed_def empty_persistent_def)
qed (rule pres_refunds_keyed, simp add: passing_view)

text \<open>
  C7. What any call of the contract can do to a refund: leave it, remove it when it is
  completed or rejected (or, with the payment itself, by the payments' retention cleanup), decide it when it is pending (with the signature of the
  administrator or of the merchant of the payment), complete it when it is approved
  (with the merchant's signature), or complete it by a dispute (with the administrator's
  signature). Nothing but its status ever changes.
\<close>

theorem refund_status_machine:
  assumes "steps h others s t" and "fresh s" and "run_call h c t = (Ok (), u)"
    and "st_get_refund k t = Some r"
  shows "st_get_refund k u = Some r \<or>
    st_get_refund k u = None \<and> (r_status r \<in> {RCompleted, RRejected} \<or> is_cleanup c) \<or>
    (\<exists>st p a. st_get_refund k u = Some (r\<lparr>r_status := st\<rparr>) \<and> a \<in> auths t \<and>
      (r_status r = RPending \<and> st \<in> {RApproved, RRejected} \<and> st_get_payment (r_order_id r) t = Some p \<and>
         (st_get_admin t = Some a \<or> a = p_merchant_address p) \<or>
       r_status r = RApproved \<and> st = RCompleted \<and> st_get_payment (r_order_id r) t = Some p \<and>
         a = p_merchant_address p \<or>
       st = RCompleted \<and> st_get_admin t = Some a))"
proof -
  have key: "r_refund_id r' = k'" if "k_Refund (persistent_st t) k' = Some r'" for k' r'
    using refunds_keyed_reachable [OF assms(1,2)] that by (simp add: refunds_keyed_def)
  have r: "k_Refund (persistent_st t) k = Some r" using assms(4) by (simp add: st_get_refund_def)
  show ?thesis
  proof (cases "is_cleanup c")
    case True
    from cleanup_call_refunds [OF assms(3) True, of k] r True show ?thesis by (auto simp: st_get_refund_def)
  next
    case False
    from call_refund_step [OF assms(3) False] show ?thesis
      unfolding refund_step_of_def
    proof cases
      case purge
      from purge [of k] r show ?thesis by (auto simp: st_get_refund_def)
    next
      case (create r' p)
      with r show ?thesis by (auto simp: st_get_refund_def)
    next
      case (decide k' r' p a st)
      with r key [OF decide(2)] show ?thesis
        by (cases "k' = k") (auto simp: st_get_refund_def st_get_payment_def)
    next
      case (complete k' r' p)
      with r key [OF complete(2)] show ?thesis
        by (cases "k' = k") (auto simp: st_get_refund_def st_get_payment_def)
    next
      case (force k' r' a)
      with r key [OF force(2)] show ?thesis by (cases "k' = k") (auto simp: st_get_refund_def)
    qed
  qed
qed

section \<open>Subscriptions\<close>

interpretation subscriptions_kept: rest_of_subscriptions
  "\<lambda>s. k_Sub (persistent_st s) = bs \<and> k_SP (persistent_st s) = ps" "\<lambda>_. True" h
  for bs ps and h :: "'w host"
  by unfold_locales
    (rule preserves_append_audit preserves_add_payment_id
      | (simp add: storage_defs Let_def; fail))+

text \<open>A subscription has a plan, and was charged at most once per interval, at most as often as the plan says.\<close>

definition subscription_ok :: "subscription_plan \<Rightarrow> nat \<Rightarrow> subscription \<Rightarrow> bool" where
  "subscription_ok p ts b \<longleftrightarrow> sub_cycles_charged b \<le> sp_max_cycles p \<and>
     (sub_status b = SubCompleted \<longrightarrow> sub_cycles_charged b = sp_max_cycles p) \<and>
     min u64_max (sub_created_at b + sub_cycles_charged b * sp_interval_secs p) \<le> sub_last_charged_at b \<and>
     sub_last_charged_at b \<le> ts"

definition subscriptions_ok :: "'w env \<Rightarrow> bool" where
  "subscriptions_ok s \<longleftrightarrow> (\<forall>k b. k_Sub (persistent_st s) k = Some b \<longrightarrow> sub_subscription_id b = k \<and>
     (\<exists>p. k_SP (persistent_st s) (sub_plan_id b) = Some p \<and> subscription_ok p (now s) b))"

lemma subscriptions_ok_step:
  assumes "subscription_step_of s t" and "subscriptions_ok s" and now: "now t = now s"
    and plans: "\<And>k p. k_SP (persistent_st s) k = Some p \<Longrightarrow> k_SP (persistent_st t) k = Some p"
  shows "subscriptions_ok t"
proof -
  define ps where "ps = k_SP (persistent_st t)"
  have old: "sub_subscription_id b = k \<and> (\<exists>p. ps (sub_plan_id b) = Some p \<and> subscription_ok p (now s) b)"
    if "k_Sub (persistent_st s) k = Some b" for k b
    using assms(2) that plans unfolding subscriptions_ok_def ps_def by blast
  have new: "\<exists>p. ps (sub_plan_id b) = Some p \<and> subscription_ok p (now s) b"
    if "k_Sub (persistent_st t) k = Some b" for k b
    using assms(1) unfolding subscription_step_of_def
  proof cases
    case keep
    with old that show ?thesis by metis
  next
    case (enrol b')
    show ?thesis
    proof (cases "k = sub_subscription_id b'")
      case True
      from enrol(8) obtain p where "ps (sub_plan_id b') = Some p" using plans by (auto simp: ps_def)
      moreover have "subscription_ok p (now s) b'" using enrol by (simp add: subscription_ok_def)
      moreover have "b = b'" using True enrol(1) that by simp
      ultimately show ?thesis by simp
    qed (use enrol that old in auto)
  next
    case (charge k' b' p)
    have ok: "subscription_ok p (now s) b'" and p: "ps (sub_plan_id b') = Some p"
      using old [OF charge(2)] plans [OF charge(3)] by (auto simp: ps_def)
    show ?thesis
    proof (cases "k = sub_subscription_id b'")
      case True
      with charge(1) that have "b = b'\<lparr>sub_cycles_charged := sub_cycles_charged b' + 1,
          sub_last_charged_at := now s,
          sub_status := (if sp_max_cycles p \<le> sub_cycles_charged b' + 1 then SubCompleted else sub_status b')\<rparr>"
        by simp
      with ok p charge show ?thesis
        by (auto simp: subscription_ok_def u64_sat_add_def)
    qed (use charge that old in auto)
  next
    case (close k' b' a)
    with old [OF close(2)] old that show ?thesis
      by (cases "k = sub_subscription_id b'") (auto simp: subscription_ok_def)
  qed
  have "sub_subscription_id b = k" if "k_Sub (persistent_st t) k = Some b" for k b
    using assms(1) old that unfolding subscription_step_of_def
    by cases (auto split: if_splits)
  with new now show ?thesis by (auto simp: subscriptions_ok_def ps_def)
qed

lemma subscriptions_ok_passing:
  assumes "subscriptions_ok s" and "time_passes others s t"
  shows "subscriptions_ok t"
  using assms passing_view(2) [OF assms(2)]
  by (auto simp: subscriptions_ok_def subscription_ok_def time_passes_def) (meson le_trans)

lemma subscription_calls_ok:
  assumes run: "run_call h c s = (Ok (), t)" and ok: "subscriptions_ok s"
  shows "subscriptions_ok t"
proof -
  from preservesD [OF ledger_kept.pres_run_call run] have now: "now t = now s"
    by (simp add: now_def)
  show ?thesis
  proof (cases "\<exists>e. c = SubscriptionC e")
    case True
    then obtain e where e: "run_subscription_call h e s = (Ok (), t)" using run by auto
    from subscriptions_ok_step [OF subscription_call_step [OF e] ok now plans_written_once [OF e]]
    show ?thesis .
  next
    case False
    then have "preserves (\<lambda>u. k_Sub (persistent_st u) = k_Sub (persistent_st s) \<and>
        k_SP (persistent_st u) = k_SP (persistent_st s)) (run_call h c)"
      by (intro subscriptions_kept.pres_all_but_subscriptions) auto
    from preservesD [OF this run] ok now show ?thesis by (simp add: subscriptions_ok_def)
  qed
qed

text \<open>
  C16. In every state reached from the deployment, a subscription has a plan, was charged
  at most as often as the plan allows and never more than once per interval since it was
  created (up to the end of the 64-bit clock), and is completed only after its last cycle.
\<close>

theorem subscriptions_are_charged_by_plan:
  assumes "steps h others s t" and "fresh s" and "st_get_subscription k t = Some b"
  shows "\<exists>p. st_get_subscription_plan (sub_plan_id b) t = Some p \<and>
    sub_cycles_charged b \<le> sp_max_cycles p \<and>
    (sub_status b = SubCompleted \<longrightarrow> sub_cycles_charged b = sp_max_cycles p) \<and>
    min u64_max (sub_created_at b + sub_cycles_charged b * sp_interval_secs p) \<le> sub_last_charged_at b \<and>
    sub_last_charged_at b \<le> now t"
proof -
  have "subscriptions_ok s"
    using assms(2) by (simp add: subscriptions_ok_def fresh_def empty_persistent_def)
  with assms(1) have "subscriptions_ok t"
  proof (rule steps_invariant)
    show "preserves subscriptions_ok (run_call h c)" for c
      by (rule preservesI) (auto intro: subscription_calls_ok)
  qed (rule subscriptions_ok_passing)
  with assms(3) show ?thesis
    by (auto simp: subscriptions_ok_def subscription_ok_def st_get_subscription_def
        st_get_subscription_plan_def)
qed

section \<open>Payment requests\<close>

text \<open>The index has no duplicates, and every request is stored under its own id.\<close>

definition requests_ok :: "'w env \<Rightarrow> bool" where
  "requests_ok s \<longleftrightarrow> distinct (st_get_payment_request_ids s) \<and>
     (\<forall>k r. st_get_payment_request k s = Some r \<longrightarrow> pr_request_id r = k)"

lemma requests_ok_remove: "requests_ok s \<Longrightarrow> requests_ok (st_remove_payment_request k s)"
  using request_view_remove [of k s]
  by (auto simp: requests_ok_def request_view_def st_get_payment_request_def split: if_splits)

interpretation requests: whole_frame requests_ok "\<lambda>_. True" h for h :: "'w host"
  by unfold_locales
    (rule preserves_append_audit preserves_add_payment_id
      | (erule requests_ok_remove)
      | (simp add: requests_ok_def storage_defs Let_def; fail)
      | (auto simp: requests_ok_def storage_defs Let_def split: option.splits if_splits; fail))+

lemma requests_ok_reachable:
  assumes "steps h others s t" and "fresh s"
  shows "requests_ok t"
  using assms(1)
proof (rule steps_invariant)
  show "requests_ok s"
    using assms(2) by (simp add: fresh_def requests_ok_def storage_defs empty_temporary_def)
  show "requests_ok v" if "requests_ok u" "time_passes others u v" for u v
    using that passing_view(7) [OF that(2)]
    by (auto simp: requests_ok_def time_passes_def temporary_expired_def st_get_payment_request_def
        st_get_payment_request_ids_def unwrap_or_def split: option.splits)
qed (rule requests.pres_run_call)

text \<open>
  In every reachable state, when the administrator removes the expired payment
  requests, every indexed request past its expiry goes and no other request is touched,
  the index loses exactly the ids of the expired and of the vanished requests, and the
  number returned is that of the requests removed.
\<close>

theorem expired_requests_are_cleared:
  assumes "steps h others s t" and "fresh s" and "cancel_expired_payment_requests a t = (Ok n, u)"
  shows "(\<forall>k. st_get_payment_request k u =
      (if k \<in> set (st_get_payment_request_ids t) \<and> lapsed (now t) (st_get_payment_request k t) then None
       else st_get_payment_request k t)) \<and>
    st_get_payment_request_ids u =
      filter (\<lambda>k. \<not> lapsed (now t) (st_get_payment_request k t)) (st_get_payment_request_ids t) \<and>
    n = length (filter (\<lambda>k. lapsed (now t) (st_get_payment_request k t) \<and> st_get_payment_request k t \<noteq> None)
      (st_get_payment_request_ids t)) \<and>
    st_get_admin t = Some a"
  using cancel_expired_requests_effect [OF assms(3)] requests_ok_reachable [OF assms(1,2)]
  by (simp add: requests_ok_def)

section \<open>Examples\<close>

lemmas life_ops = set_admin_def add_allowed_token_def register_merchant_def append_audit_def
  append_admin_audit_entry_def

definition quorum_run :: "book env" where
  "quorum_run = run_calls sample_host [AdminC (SetAdminCall (Addr 5)),
     GuardC (AddAllowedTokenCall (Addr 5) (Addr 9) None),
     MerchantC (RegisterMerchant (Addr 1) ''shop'' ''ab'' ''cd'' Retail None),
     MultisigC (InitiateMultisigPayment (Addr 2) ''m1'' (Addr 1) (Addr 9) 700 [Addr 2, Addr 5] 2 None),
     MultisigC (SignMultisigPayment (Addr 2) ''m1'' [1]), MultisigC (SignMultisigPayment (Addr 5) ''m1'' [2]),
     MultisigC (ExecuteMultisigPayment (Addr 2) ''m1'')] launch"

lemma quorum_run_executed:
  "(case k_Multisig (persistent_st quorum_run) ''m1'' of None \<Rightarrow> False | Some ms \<Rightarrow> ms_executed ms)"
  unfolding quorum_run_def run_calls_def launch_def
  by (simp add: invoke_def life_ops initiate_multisig_payment_def sign_multisig_payment_def
      execute_multisig_payment_def payment_block_defs exec_comp storage_defs helper_defs reference_defs
      const_defs in_i128_def u64_sat_add_def)

theorem multisig_needs_its_quorum_witness:
  "\<exists>ms. st_get_multisig ''m1'' (later 5000 quorum_run) = Some ms \<and> ms_executed ms \<and>
     ms_required_signatures ms \<le> card (se_signer ` set (ms_collected ms))"
proof -
  from quorum_run_executed obtain ms where ms: "st_get_multisig ''m1'' quorum_run = Some ms" "ms_executed ms"
    by (auto simp: st_get_multisig_def split: option.splits)
  have "steps sample_host (\<lambda>w w'. w' = w) launch quorum_run"
    "steps sample_host (\<lambda>w w'. w' = w) quorum_run (later 5000 quorum_run)"
    unfolding quorum_run_def by (rule run_calls_steps, rule run_later(1) [OF fresh_launch]) simp
  from multisig_needs_its_quorum [OF this(1) fresh_launch this(2) ms(1)] ms(2) show ?thesis by auto
qed

theorem signed_payment_never_replayed_witness:
  "\<not> is_Ok (fst (process_payment_with_signature sample_host (Addr 2) ''o2'' (Addr 1) (Addr 9) 1000
     '''' None 1 900 (replicate 64 3) (replicate 32 3) (snd signed_sample)))"
proof -
  have "is_Ok (fst signed_sample)"
    unfolding signed_sample_def process_payment_with_signature_def payment_block_defs
    by (simp add: exec_comp storage_defs helper_defs reference_defs shop_defs const_defs in_i128_def
        u64_sat_add_def rust_div_def)
  from signed_payment_never_replayed [OF trans [OF signed_sample_def [symmetric] is_Ok_unit [OF this]]
      _ steps_refl]
  show ?thesis by (simp add: u64_max_def)
qed

lemma steps_trans: "steps h others t u \<Longrightarrow> steps h others s t \<Longrightarrow> steps h others s u"
  by (induction rule: steps.induct) (auto intro: steps_snoc)

definition life_calls :: "call list" where
  "life_calls = [AdminC (SetAdminCall (Addr 5)), GuardC (AddAllowedTokenCall (Addr 5) (Addr 9) None),
     MerchantC (RegisterMerchant (Addr 1) ''shop'' ''ab'' ''cd'' Retail None)]"

text \<open>A pending refund, and its approval by the merchant.\<close>

definition refund_run :: "book env" where
  "refund_run = run_calls sample_host (life_calls @
     [PaymentC (ProcessPaymentWithNonce (Addr 2) ''o1'' (Addr 1) (Addr 9) 1000 [] None 0),
      RefundC (InitiateRefund (Addr 2) ''r1'' ''o1'' 400 ''late'')]) launch"

lemma refund_run_pending:
  "map_option r_status (k_Refund (persistent_st refund_run) ''r1'') = Some RPending \<and>
   is_Ok (fst (run_call sample_host (RefundC (ApproveRefund (Addr 1) ''r1'')) refund_run))"
  unfolding refund_run_def life_calls_def run_calls_def launch_def
  by (simp add: invoke_def life_ops process_payment_with_nonce_def refund_ops payment_block_defs
      exec_comp storage_defs helper_defs reference_defs const_defs in_i128_def u64_sat_add_def rust_div_def)

theorem refund_status_machine_witness:
  "\<exists>r. st_get_refund ''r1'' (snd (run_call sample_host (RefundC (ApproveRefund (Addr 1) ''r1'')) refund_run)) = Some r"
proof -
  from refund_run_pending obtain r where r: "st_get_refund ''r1'' refund_run = Some r" "r_status r = RPending"
    and ok: "is_Ok (fst (run_call sample_host (RefundC (ApproveRefund (Addr 1) ''r1'')) refund_run))"
    by (auto simp: st_get_refund_def)
  have "steps sample_host (\<lambda>w w'. w' = w) launch refund_run"
    unfolding refund_run_def by (rule run_calls_steps)
  from refund_status_machine [OF this fresh_launch is_Ok_unit [OF ok] r(1)] r(2) show ?thesis
    by (auto simp: is_cleanup_def)
qed

text \<open>A subscription that is charged once, an interval after it was made.\<close>

definition charge_run :: "book env" where
  "charge_run = run_calls sample_host [SubscriptionC (ChargeSubscription (Addr 1) ''s1'')]
     (later 1600 (run_calls sample_host (life_calls @
       [SubscriptionC (CreateSubscriptionPlan (Addr 5) ''p1'' (Addr 9) 50 600 3),
        SubscriptionC (Subscribe (Addr 1) (Addr 2) ''p1'' ''s1'')]) launch))"

lemma charge_run_charged:
  "map_option sub_cycles_charged (k_Sub (persistent_st charge_run) ''s1'') = Some 1"
  unfolding charge_run_def life_calls_def run_calls_def launch_def
  by (simp add: later_def invoke_def life_ops create_subscription_plan_def subscribe_def charge_subscription_def
      approve_reserve_def exec_comp storage_defs helper_defs reference_defs require_admin_rate_limited_def
      const_defs in_i128_def u64_sat_add_def i128_sat_sub_def i128_sat_add_def i128_sat_mul_def i128_clamp_def)

theorem subscriptions_are_charged_by_plan_witness:
  "\<exists>b (p :: subscription_plan). st_get_subscription ''s1'' charge_run = Some b \<and> sub_cycles_charged b = 1 \<and>
     min u64_max (sub_created_at b + sp_interval_secs p) \<le> sub_last_charged_at b"
proof -
  from charge_run_charged obtain b where b: "st_get_subscription ''s1'' charge_run = Some b" "sub_cycles_charged b = 1"
    by (auto simp: st_get_subscription_def)
  have "steps sample_host (\<lambda>w w'. w' = w) launch charge_run"
    unfolding charge_run_def
    by (rule steps_trans [OF run_calls_steps run_later(2) [OF fresh_launch]]) simp
  from subscriptions_are_charged_by_plan [OF this fresh_launch b(1)] obtain p :: subscription_plan where
    "min u64_max (sub_created_at b + sub_cycles_charged b * sp_interval_secs p) \<le> sub_last_charged_at b"
    by blast
  with b show ?thesis by (metis mult_1)
qed

text \<open>A request that is left to expire.\<close>

definition expire_run :: "book env" where
  "expire_run = later 1200 (run_calls sample_host (life_calls @
     [RequestC (CreatePaymentRequest (Addr 1) ''q1'' (Addr 9) 40 ''tea'' 100)]) launch)"

lemma expire_run_stored:
  "st_get_payment_request_ids expire_run = [''q1''] \<and>
   map_option pr_expires_at (st_get_payment_request ''q1'' expire_run) = Some 1100 \<and>
   fst (cancel_expired_payment_requests (Addr 5) expire_run) = Ok 1"
  unfolding expire_run_def life_calls_def run_calls_def launch_def later_def
    cancel_expired_payment_requests_def cancel_one_request_def
  by (simp add: invoke_def life_ops create_payment_request_def
      exec_comp storage_defs helper_defs reference_defs require_admin_rate_limited_def
      const_defs in_i128_def u64_sat_add_def u64_checked_add_def)

theorem expired_requests_are_cleared_witness:
  "st_get_payment_request_ids (snd (cancel_expired_payment_requests (Addr 5) expire_run)) = []"
proof -
  have run: "cancel_expired_payment_requests (Addr 5) expire_run =
      (Ok 1, snd (cancel_expired_payment_requests (Addr 5) expire_run))"
    using expire_run_stored by (metis prod.collapse)
  have "steps sample_host (\<lambda>w w'. w' = w) launch expire_run"
    unfolding expire_run_def by (rule run_later(2) [OF fresh_launch]) simp
  from expired_requests_are_cleared [OF this fresh_launch run] expire_run_stored show ?thesis
    by (auto simp: lapsed_def expire_run_def later_def now_def)
qed

text \<open>
  An order id used again after its payment was archived: the index lists it twice. The
  two entries and a third payment are enough.
\<close>

definition reuse_run :: "book env" where
  "reuse_run = run_calls sample_host (life_calls @
     [PaymentC (ProcessPaymentWithNonce (Addr 2) ''a'' (Addr 1) (Addr 9) 10 [] None 0),
      PaymentC (ArchivePaymentRecordCall (Addr 5) ''a''),
      PaymentC (ProcessPaymentWithNonce (Addr 2) ''a'' (Addr 1) (Addr 9) 10 [] None 1),
      PaymentC (ProcessPaymentWithNonce (Addr 2) ''b'' (Addr 1) (Addr 9) 20 [] None 2)]) launch"

lemma reuse_run_observed:
  "observe (\<lambda>s. (k_MP (persistent_st s) (Addr 1), map_option p_amount (k_Payment (persistent_st s) ''a''),
     map_option p_order_id (k_Payment (persistent_st s) ''a''),
     map_option p_amount (k_Payment (persistent_st s) ''b''),
     map_option p_order_id (k_Payment (persistent_st s) ''b''),
     map_option p_merchant_address (k_Payment (persistent_st s) ''b''),
     i_Paused (instance_st s), auths s)) reuse_run =
   (Some [''a'', ''a'', ''b''], Some 10, Some ''a'', Some 20, Some ''b'', Some (Addr 1), None,
    {Addr 1, Addr 2, Addr 5})"
  unfolding reuse_run_def life_calls_def run_calls_def launch_def
  by (simp add: invoke_def life_ops process_payment_with_nonce_def archive_payment_record_def payment_block_defs
      exec_comp storage_defs helper_defs reference_defs require_admin_rate_limited_def
      const_defs in_i128_def u64_sat_add_def rust_div_def observe_def)

lemmas reuse_run_stored = reuse_run_observed [unfolded observe_def prod.inject]

text \<open>
  An order id that is used again after its payment was archived is listed twice in
  the merchant's index, and the cursor that names it leads back to its first entry: in
  this reachable state a client that reads the history one payment a page never gets to
  the end, however long it reads, and never sees the third payment.
\<close>

theorem reused_id_traps_the_reader:
  "steps sample_host (\<lambda>w w'. w' = w) launch reuse_run \<and> fresh launch \<and>
   map p_order_id (merchant_history sample_host (Addr 1) None AmountField Ascending reuse_run) = [''a'', ''a'', ''b''] \<and>
   length (read_history sample_host (Addr 1) 1 None AmountField Ascending reuse_run None fuel) = fuel \<and>
   list_all (\<lambda>page. map p_order_id (ppg_payments page) = [''a''])
     (read_history sample_host (Addr 1) 1 None AmountField Ascending reuse_run None fuel)"
proof -
  obtain pa pb where st: "k_Payment (persistent_st reuse_run) ''a'' = Some pa" "p_amount pa = 10" "p_order_id pa = ''a''"
    "k_Payment (persistent_st reuse_run) ''b'' = Some pb" "p_amount pb = 20" "p_order_id pb = ''b''"
    and ids: "k_MP (persistent_st reuse_run) (Addr 1) = Some [''a'', ''a'', ''b'']"
    and auth: "Addr 1 \<in> auths reuse_run"
    using reuse_run_stored by auto
  have "load_payments (st_get_merchant_payment_ids (Addr 1) reuse_run) None reuse_run = [pa, pa, pb]"
    unfolding st_get_merchant_payment_ids_def ids unwrap_or_def
    by (simp add: load_payments_def matches_filter_def
        st_get_payment_def st List.map_filter_simps)
  then have hist: "merchant_history sample_host (Addr 1) None AmountField Ascending reuse_run = [pa, pa, pb]"
    by (simp add: merchant_history_def sample_host_def sort_cmp_def payment_cmp_def int_cmp_def st)
  have pos: "position_of ''a'' [pa, pa, pb] = Some 0" by (simp add: st)
  have page: "get_merchant_payment_history sample_host (Addr 1) c 1 None AmountField Ascending reuse_run =
      (Ok \<lparr>ppg_payments = [pa], ppg_next_cursor = Some ''a'', ppg_total_matching = 3\<rparr>, reuse_run)"
    if "c = None \<or> c = Some ''a''" for c
  proof -
    have "1 \<le> MAX_PAGE_LIMIT" by (simp add: const_defs)
    note run = history_page_run [OF auth zero_less_one this, of sample_host c None AmountField Ascending, unfolded hist]
    show ?thesis unfolding run using that pos by (auto simp: page_start_def st)
  qed
  have "read_history sample_host (Addr 1) 1 None AmountField Ascending reuse_run c fuel =
      replicate fuel \<lparr>ppg_payments = [pa], ppg_next_cursor = Some ''a'', ppg_total_matching = 3\<rparr>"
    if "c = None \<or> c = Some ''a''" for c
    using that by (induction fuel arbitrary: c) (simp_all add: page [simplified])
  moreover have "steps sample_host (\<lambda>w w'. w' = w) launch reuse_run"
    unfolding reuse_run_def by (rule run_calls_steps)
  ultimately show ?thesis by (simp add: fresh_launch list_all_iff hist [simplified] st)
qed

end
