(* ===== verification/PaymentTerms.thy ===== *)
theory PaymentTerms
  imports Lifecycles
begin

text \<open>
  What the calls of the contract may do to a stored payment: a machine over the store of
  payments that every call refines, and the property of reachable states that follows.
\<close>

text \<open>The stored payments.\<close>

abbreviation pays :: "'w env \<Rightarrow> string \<Rightarrow> payment_order option" where
  "pays s \<equiv> k_Payment (persistent_st s)"

section \<open>Calls that write no payment\<close>

locale rest_of_payments = quiet_frame + merchant_frame
begin

lemma pres_without_payments: "quiet_call c \<or> (\<exists>m. c = MerchantC m) \<Longrightarrow> preserves I (run_call h c)"
  by (auto intro: pres_quiet_call pres_run_merchant_call)

end

interpretation payments_kept: rest_of_payments "\<lambda>s. pays s = P" "\<lambda>_. True" h for P and h :: "'w host"
  by unfold_locales
    (rule preserves_append_audit preserves_add_payment_id
      | (simp add: storage_defs Let_def; fail))+

section \<open>Calls that write a payment\<close>

text \<open>
  The terms of a payment are everything but its status, its refunded amount and its
  version. \<open>payment_step\<close> says what a call with some signatures may do to the payments:
  record new ones, amend or (for the administrator) remove old ones; \<open>settled\<close> is the one
  exception, the id of an executed multisig payment.
\<close>

definition same_terms :: "payment_order \<Rightarrow> payment_order \<Rightarrow> bool" where
  "same_terms p q \<longleftrightarrow> q = p\<lparr>p_status := p_status q, p_refunded_amount := p_refunded_amount q,
     p_version := p_version q\<rparr>"

inductive payment_step ::
  "address option \<Rightarrow> address set \<Rightarrow> string option \<Rightarrow> (string \<Rightarrow> payment_order option) \<Rightarrow>
   (string \<Rightarrow> payment_order option) \<Rightarrow> bool" where
  record_new: "\<forall>k. m' k = m k \<or> m k = None \<Longrightarrow> payment_step adm sigs settled m m'"
| amend: "m k = Some p \<Longrightarrow> same_terms p q \<Longrightarrow> a \<in> sigs \<Longrightarrow> adm = Some a \<or> a = p_merchant_address p \<Longrightarrow>
    payment_step adm sigs settled m (m(p_order_id p := Some q))"
| remove: "\<forall>k. m' k = m k \<or> m' k = None \<Longrightarrow> adm = Some a \<Longrightarrow> a \<in> sigs \<Longrightarrow>
    payment_step adm sigs settled m m'"
| settle: "payment_step adm sigs (Some k) m (m(k := Some p))"

inductive_cases payment_stepE: "payment_step adm sigs settled m m'"

definition payment_step_of :: "string option \<Rightarrow> 'w env \<Rightarrow> 'w env \<Rightarrow> bool" where
  "payment_step_of settled s t \<longleftrightarrow> payment_step (st_get_admin s) (auths s) settled (pays s) (pays t)"

lemma payment_step_same: "pays t = pays s \<Longrightarrow> payment_step_of x s t"
  unfolding payment_step_of_def by (rule record_new) simp

lemma payment_step_new:
  "st_get_payment k s = None \<Longrightarrow> (\<And>i. i \<noteq> k \<Longrightarrow> st_get_payment i t = st_get_payment i s) \<Longrightarrow>
   payment_step_of x s t"
  unfolding payment_step_of_def st_get_payment_def by (rule record_new) metis

lemma amendI:
  "st_get_payment k s = Some p \<Longrightarrow> same_terms p q \<Longrightarrow> a \<in> auths s \<Longrightarrow>
   st_get_admin s = Some a \<or> a = p_merchant_address p \<Longrightarrow> pays t = (pays s)(p_order_id p := Some q) \<Longrightarrow>
   payment_step_of x s t"
  unfolding payment_step_of_def st_get_payment_def by (simp add: amend)

lemma process_with_signature_step:
  "process_payment_with_signature h payer k merch tok n memo tags nc ts sg pk s = (Ok z, t) \<Longrightarrow>
   payment_step_of x s t"
  unfolding process_payment_with_signature_def
  apply (simp add: exec_simps Let_def split_beta take_rate_limit_slot_Ok_iff)
  apply (elim exE conjE)
  apply (drule transfer_with_fee_OkD(1), drule add_merchant_payment_id_OkD(2),
      drule add_payer_payment_id_OkD(2), drule add_merchant_payment_stats_OkD(2),
      drule add_global_payment_stats_OkD(2), drule flag_large_payment_OkD(1))
  apply (rule payment_step_new [of k]; simp add: storage_defs)
  done

lemma process_with_nonce_step:
  "process_payment_with_nonce h payer k merch tok n memo tags nc s = (Ok z, t) \<Longrightarrow> payment_step_of x s t"
  unfolding process_payment_with_nonce_def
  apply (simp add: exec_simps Let_def split_beta)
  apply (elim exE conjE)
  apply (drule transfer_with_fee_OkD(1), drule add_merchant_payment_id_OkD(2),
      drule add_payer_payment_id_OkD(2), drule add_merchant_payment_stats_OkD(2),
      drule add_global_payment_stats_OkD(2), drule flag_large_payment_OkD(1))
  apply (rule payment_step_new [of k]; simp add: storage_defs)
  done

lemma pay_request_step:
  "pay_payment_request h payer k s = (Ok z, t) \<Longrightarrow> requests.well_keyed s \<Longrightarrow> payment_step_of x s t"
  unfolding pay_payment_request_def
  apply (clarsimp simp: exec_simps split: if_splits)
  apply (frule (1) requests.well_keyedD)
  apply (drule add_merchant_payment_id_OkD(2), drule add_payer_payment_id_OkD(2),
      drule add_global_payment_stats_OkD(2))
  apply (rule payment_step_new, assumption)
  apply (simp add: storage_defs Let_def split: option.splits)
  done

lemma ignored_ids_payments:
  "st_add_merchant_payment_id a k s = (Ok (), t) \<or> (\<exists>e. st_add_merchant_payment_id a k s = (Err e, t)) \<Longrightarrow>
   pays t = pays s"
  "st_add_payer_payment_id a k s = (Ok (), t) \<or> (\<exists>e. st_add_payer_payment_id a k s = (Err e, t)) \<Longrightarrow>
   pays t = pays s"
  by (auto simp: st_add_merchant_payment_id_def st_add_payer_payment_id_def exec_comp
      Let_def publish_def extend_ttl_def upd_persistent_def split: if_splits)

lemma execute_multisig_step:
  "execute_multisig_payment h a k s = (Ok z, t) \<Longrightarrow> payment_step_of (Some k) s t"
  unfolding execute_multisig_payment_def
  apply (simp add: if_some_guard_Ok_iff exec_simps del: if_some_Ok_iff)
  apply (elim exE conjE)
  apply (drule ignored_ids_payments(1), drule ignored_ids_payments(2), drule add_global_payment_stats_OkD(2))
  apply (simp add: payment_step_of_def storage_defs settle)
  done

lemma update_status_step:
  "update_payment_status a k n v s = (Ok z, t) \<Longrightarrow> payment_step_of x s t"
  unfolding update_payment_status_def
  apply (simp add: exec_simps if_some_guard_Ok_iff Let_def del: if_some_Ok_iff split del: if_split)
  apply (elim exE conjE)
  apply (rule amendI, assumption)
  prefer 4 apply (simp add: storage_defs split del: if_split)
  apply (simp_all add: same_terms_def)
  done

lemma execute_refund_step: "execute_refund h rid s = (Ok z, t) \<Longrightarrow> payment_step_of x s t"
  by (clarsimp simp: execute_refund_def add_merchant_refund_stats_def add_global_refund_stats_def exec_simps)
    (simp add: payment_step_of_def storage_defs, rule amend, auto simp: same_terms_def)

lemma resolve_dispute_step: "resolve_dispute h a did rs f s = (Ok z, t) \<Longrightarrow> payment_step_of x s t"
  apply (clarsimp simp: resolve_dispute_def add_merchant_refund_stats_def add_global_refund_stats_def
      exec_simps Let_def split: if_splits)
   apply (simp add: payment_step_of_def storage_defs, rule amend, auto simp: same_terms_def)[1]
  apply (rule payment_step_same, simp add: storage_defs)
  done

lemma archive_step: "archive_payment_record a k s = (Ok z, t) \<Longrightarrow> payment_step_of x s t"
  by (clarsimp simp: archive_payment_record_def exec_simps)
    (simp add: payment_step_of_def storage_defs, rule remove, auto)

lemma batch_payments_new:
  assumes "batch_payment h a items s = (Ok (), t)"
  shows "pays t k = pays s k \<or> pays s k = None"
  by (rule batch_payment_run [OF assms], drule (1) record_batch_payments,
      cases "k \<in> set (map bi_order_id items)")
    (auto simp: st_get_payment_def batch_item_ok_def)

lemma batch_step: "batch_payment h a items s = (Ok (), t) \<Longrightarrow> payment_step_of x s t"
  unfolding payment_step_of_def by (rule record_new, rule allI, rule batch_payments_new)

lemma cleanup_step:
  assumes "cleanup_expired_payments_loop a s = (Ok n, t)"
  shows "payment_step_of x s t"
  using cleanup_payments_admin [OF assms] cleanup_payments_payments [OF assms]
  unfolding payment_step_of_def st_get_payment_def by (intro remove [of _ _ _ a]) auto

lemma call_payment_step:
  assumes "run_call h c s = (Ok (), t)" and "requests.well_keyed s"
  shows "payment_step_of (case c of MultisigC (ExecuteMultisigPayment a k) \<Rightarrow> Some k | _ \<Rightarrow> None) s t"
proof (cases "quiet_call c \<or> (\<exists>m. c = MerchantC m)")
  case True
  from preservesD [OF payments_kept.pres_without_payments [OF this] assms(1)] show ?thesis
    by (simp add: payment_step_same)
next
  case False
  then show ?thesis
    using assms
    by (auto simp: quiet_call_def exec_simps split: call.splits payment_call.splits refund_call.splits
        dispute_call.splits multisig_call.splits request_call.splits
      intro: process_with_signature_step process_with_nonce_step batch_step update_status_step
        archive_step cleanup_step execute_refund_step resolve_dispute_step execute_multisig_step
        pay_request_step)
qed

section \<open>Payments across calls\<close>

text \<open>
  C9. In every reachable state, what a call can do to a stored payment: leave it; change
  its status, refunded amount and version, with the signature of its merchant or of the
  administrator, and nothing else of it; remove it, with the administrator's signature.
  The one exception is the execution of a multisig payment with the same id, which
  overwrites it.
\<close>

theorem payment_terms_are_kept:
  assumes "steps h others s t" and "fresh s" and "run_call h c t = (Ok (), u)"
    and "st_get_payment k t = Some p"
  shows "st_get_payment k u = Some p \<or>
    (\<exists>q a. st_get_payment k u = Some q \<and> same_terms p q \<and> a \<in> auths t \<and>
      (st_get_admin t = Some a \<or> a = p_merchant_address p)) \<or>
    st_get_payment k u = None \<and> (\<exists>a. a \<in> auths t \<and> st_get_admin t = Some a) \<or>
    (\<exists>a. c = MultisigC (ExecuteMultisigPayment a k))"
proof -
  from stores_typed_reachable [OF assms(1,2)] have typed: "requests.well_keyed t" "payments.well_keyed t"
    by (simp_all add: stores_typed_def)
  have p: "pays t k = Some p" using assms(4) by (simp add: st_get_payment_def)
  have "payment_step (st_get_admin t) (auths t)
      (case c of MultisigC (ExecuteMultisigPayment a k) \<Rightarrow> Some k | _ \<Rightarrow> None) (pays t) (pays u)"
    using call_payment_step [OF assms(3) typed(1)] by (simp only: payment_step_of_def)
  then show ?thesis
  proof cases
    case record_new
    then show ?thesis using p by (metis st_get_payment_def option.distinct(1))
  next
    case (amend k' p' q a)
    then have "p_order_id p' = k'" using payments.well_keyedD [OF typed(2)] by (simp add: st_get_payment_def)
    with amend p show ?thesis by (cases "k = k'") (auto simp: st_get_payment_def)
  next
    case (remove a)
    then show ?thesis using p by (metis st_get_payment_def)
  next
    case (settle k' p')
    then show ?thesis using p
      by (cases "k = k'") (auto simp: st_get_payment_def split: call.splits multisig_call.splits)
  qed
qed

lemma same_terms_amount: "same_terms p q \<Longrightarrow> p_amount q = p_amount p"
  unfolding same_terms_def by (cases p; cases q) simp

theorem payment_terms_are_kept_witness:
  "\<exists>q. st_get_payment ''b'' (snd (run_call sample_host (PaymentC (UpdatePaymentStatus (Addr 1) ''b'' 5 None)) reuse_run)) = Some q \<and>
     p_refunded_amount q = 5 \<and> p_amount q = 20"
proof -
  let ?c = "PaymentC (UpdatePaymentStatus (Addr 1) ''b'' 5 None)"
  obtain pb where st: "st_get_payment ''b'' reuse_run = Some pb" "p_amount pb = 20" "p_order_id pb = ''b''"
    "p_merchant_address pb = Addr 1"
    and auth: "Addr 1 \<in> auths reuse_run" and np: "\<not> st_get_paused reuse_run"
    using reuse_run_stored by (auto simp: st_get_payment_def st_get_paused_def unwrap_or_def)
  have run: "is_Ok (fst (run_call sample_host ?c reuse_run)) \<and>
      map_option p_refunded_amount (st_get_payment ''b'' (snd (run_call sample_host ?c reuse_run))) = Some 5"
    using st auth np
    by (simp add: update_payment_status_def exec_comp helper_defs Let_def)
      (simp add: storage_defs)
  have "steps sample_host (\<lambda>w w'. w' = w) launch reuse_run"
    unfolding reuse_run_def by (rule run_calls_steps)
  note kept = payment_terms_are_kept [OF this fresh_launch is_Ok_unit [OF conjunct1 [OF run]] st(1)]
  obtain q where q: "st_get_payment ''b'' (snd (run_call sample_host ?c reuse_run)) = Some q" "p_refunded_amount q = 5"
    using run by auto
  then have "q = pb \<or> same_terms pb q" using kept by auto
  with q st(2) show ?thesis by (auto dest: same_terms_amount)
qed

end
