(* ===== verification/Disputes.thy ===== *)
theory Disputes
  imports PaymentTerms
begin

text \<open>
  What the calls of the contract may do to a stored dispute: the machine of the status
  diagram above \<open>initiate_dispute\<close>, which every call refines, the property of reachable
  states that follows, and the branch of the diagram that the code never takes.
\<close>

text \<open>The stored disputes and refunds.\<close>

abbreviation disps :: "'w env \<Rightarrow> string \<Rightarrow> dispute_record option" where
  "disps s \<equiv> k_Dispute (persistent_st s)"

abbreviation refs :: "'w env \<Rightarrow> string \<Rightarrow> refund_record option" where
  "refs s \<equiv> k_Refund (persistent_st s)"

interpretation disputes_kept: rest_of_disputes "\<lambda>s. disps s = D" "\<lambda>_. True" h for D and h :: "'w host"
  by unfold_locales
    (rule preserves_append_audit preserves_add_payment_id
      | (simp add: storage_defs Let_def; fail))+

section \<open>The dispute machine\<close>

definition new_dispute :: "nat \<Rightarrow> dispute_record \<Rightarrow> bool" where
  "new_dispute ts d \<longleftrightarrow> d_dispute_id d \<noteq> [] \<and> d_status d = DOpen \<and> d_outcome d = None \<and>
     d_resolution d = None \<and> d_created_at d = ts"

text \<open>
  What may be opened: a dispute of the payer over a rejected refund, or one of either party
  over a payment, which names no refund.
\<close>

definition disputable ::
  "(string \<Rightarrow> payment_order option) \<Rightarrow> (string \<Rightarrow> refund_record option) \<Rightarrow> dispute_record \<Rightarrow> bool" where
  "disputable ps rs d \<longleftrightarrow> (\<exists>p. ps (d_order_id d) = Some p \<and>
     (d_initiator d = p_payer p \<and>
        (\<exists>r. rs (d_refund_id d) = Some r \<and> r_status r = RRejected \<and> r_order_id r = d_order_id d) \<or>
      d_refund_id d = [] \<and> d_initiator d \<in> {p_payer p, p_merchant_address p}))"

text \<open>
  \<open>moves_to rs rs' d d'\<close>: how the administrator moves a dispute on, \<open>rs\<close> and \<open>rs'\<close> being
  the refunds before and after.
\<close>

inductive moves_to ::
  "(string \<Rightarrow> refund_record option) \<Rightarrow> (string \<Rightarrow> refund_record option) \<Rightarrow>
   dispute_record \<Rightarrow> dispute_record \<Rightarrow> bool"
  for rs rs' d where
  review: "d_status d = DOpen \<Longrightarrow> moves_to rs rs' d (d\<lparr>d_status := DUnderReview\<rparr>)"
| escalate: "d_status d \<in> {DOpen, DUnderReview} \<Longrightarrow> (\<forall>n. notes = Some n \<longrightarrow> length n \<le> 256) \<Longrightarrow>
    moves_to rs rs' d (d\<lparr>d_status := DEscalated, d_resolution := notes\<rparr>)"
| dismiss: "d_status d \<noteq> DResolved \<Longrightarrow> n \<noteq> [] \<Longrightarrow> length n \<le> 256 \<Longrightarrow> rs' = rs \<Longrightarrow>
    moves_to rs rs' d (d\<lparr>d_status := DResolved, d_outcome := Some MerchantFavor, d_resolution := Some n\<rparr>)"
| favour_payer: "d_status d \<noteq> DResolved \<Longrightarrow> n \<noteq> [] \<Longrightarrow> length n \<le> 256 \<Longrightarrow>
    rs (d_refund_id d) = Some r \<Longrightarrow> rs' (r_refund_id r) = Some (r\<lparr>r_status := RCompleted\<rparr>) \<Longrightarrow>
    moves_to rs rs' d (d\<lparr>d_status := DResolved, d_outcome := Some PayerFavor, d_resolution := Some n\<rparr>)"

inductive_cases moves_toE: "moves_to rs rs' d d'"

inductive dispute_step :: "'w env \<Rightarrow> 'w env \<Rightarrow> bool" for s t where
  keep: "disps t = disps s \<Longrightarrow> dispute_step s t"
| open_one: "new_dispute (now s) d \<Longrightarrow> disps s (d_dispute_id d) = None \<Longrightarrow> d_initiator d \<in> auths s \<Longrightarrow>
    disputable (pays s) (refs s) d \<Longrightarrow> disps t = (disps s)(d_dispute_id d := Some d) \<Longrightarrow> dispute_step s t"
| move_on: "disps s k = Some d \<Longrightarrow> st_get_admin s = Some a \<Longrightarrow> a \<in> auths s \<Longrightarrow>
    moves_to (refs s) (refs t) d d' \<Longrightarrow> disps t = (disps s)(d_dispute_id d := Some d') \<Longrightarrow> dispute_step s t"

inductive_cases dispute_stepE: "dispute_step s t"

lemma dispute_openI:
  "disps t = (disps s)(k := Some d) \<Longrightarrow> d_dispute_id d = k \<Longrightarrow> disps s k = None \<Longrightarrow>
   new_dispute (now s) d \<Longrightarrow> d_initiator d \<in> auths s \<Longrightarrow> disputable (pays s) (refs s) d \<Longrightarrow> dispute_step s t"
  using open_one [of s d t] by simp

lemma raise_dispute_refines: "raise_dispute a did rid rs s = (Ok z, t) \<Longrightarrow> dispute_step s t"
  by (clarsimp simp: raise_dispute_def exec_simps)
    (rule dispute_openI [where k = did], simp add: storage_defs, auto simp: storage_defs new_dispute_def disputable_def)

lemma initiate_dispute_refines: "initiate_dispute a did k rs s = (Ok z, t) \<Longrightarrow> dispute_step s t"
  by (clarsimp simp: initiate_dispute_def exec_simps)
    (rule dispute_openI [where k = did], simp add: storage_defs, auto simp: storage_defs new_dispute_def disputable_def)

lemma review_dispute_refines: "mark_dispute_under_review a did s = (Ok z, t) \<Longrightarrow> dispute_step s t"
  by (clarsimp simp: mark_dispute_under_review_def exec_simps)
    (rule move_on, auto simp: storage_defs intro: review)

lemma escalate_dispute_refines:
  assumes "escalate_dispute a did ns s = (Ok z, t)"
  shows "dispute_step s t"
proof -
  from assms obtain d where "disps s did = Some d" "st_get_admin s = Some a" "a \<in> auths s"
    and "d_status d \<in> {DOpen, DUnderReview}" "\<forall>n. ns = Some n \<longrightarrow> length n \<le> 256"
    and "disps t = (disps s)(d_dispute_id d := Some (d\<lparr>d_status := DEscalated, d_resolution := ns\<rparr>))"
    by (cases ns)
      (auto simp: escalate_dispute_def exec_simps storage_defs split: dispute_status.splits,
       (metis dispute_status.exhaust)+)
  then show ?thesis by (auto intro: move_on escalate)
qed

lemma resolve_dispute_moves:
  assumes "resolve_dispute h a did n force s = (Ok z, t)"
  obtains d d' where "disps s did = Some d" "st_get_admin s = Some a" "a \<in> auths s"
    "moves_to (refs s) (refs t) d d'" "disps t = (disps s)(d_dispute_id d := Some d')"
    "d_outcome d' = Some (if force then PayerFavor else MerchantFavor)"
proof (cases force)
  case True
  from assms obtain d r where "disps s did = Some d" "st_get_admin s = Some a" "a \<in> auths s"
    "d_status d \<noteq> DResolved" "n \<noteq> []" "length n \<le> 256" "refs s (d_refund_id d) = Some r"
    "refs t = (refs s)(r_refund_id r := Some (r\<lparr>r_status := RCompleted\<rparr>))"
    "disps t = (disps s)(d_dispute_id d := Some (d\<lparr>d_status := DResolved, d_outcome := Some PayerFavor,
       d_resolution := Some n\<rparr>))"
    by (clarsimp simp: resolve_dispute_def True add_merchant_refund_stats_def add_global_refund_stats_def
        exec_simps Let_def storage_defs)
  then show ?thesis using True by (intro that) (auto intro: favour_payer)
next
  case False
  from assms obtain d where "disps s did = Some d" "st_get_admin s = Some a" "a \<in> auths s"
    "d_status d \<noteq> DResolved" "n \<noteq> []" "length n \<le> 256" "refs t = refs s"
    "disps t = (disps s)(d_dispute_id d := Some (d\<lparr>d_status := DResolved, d_outcome := Some MerchantFavor,
       d_resolution := Some n\<rparr>))"
    by (clarsimp simp: resolve_dispute_def False exec_simps Let_def storage_defs)
  then show ?thesis using False by (intro that) (auto intro: dismiss)
qed

lemma resolve_dispute_by_moves: "resolve_dispute h a did n force s = (Ok z, t) \<Longrightarrow> dispute_step s t"
  by (erule resolve_dispute_moves) (rule move_on)

text \<open>Every call of the contract is a step of the machine.\<close>

lemma call_dispute_step:
  assumes "run_call h c s = (Ok (), t)"
  shows "dispute_step s t"
proof (cases "\<exists>e. c = DisputeC e")
  case True
  then obtain e where c: "c = DisputeC e" ..
  show ?thesis
    using assms unfolding c
    by (cases e) (auto simp: exec_simps get_dispute_def
        intro: raise_dispute_refines initiate_dispute_refines review_dispute_refines
          escalate_dispute_refines resolve_dispute_by_moves keep)
next
  case False
  then show ?thesis
    using preservesD [OF disputes_kept.pres_all_but_disputes assms, of "disps s"] by (auto intro: keep)
qed


section \<open>Along the steps of the contract\<close>

text \<open>
  The terms of a dispute never change, each move takes it further in the order open, under
  review, escalated, resolved, and a resolved one is final.
\<close>

primrec progress :: "dispute_status \<Rightarrow> nat" where
  "progress DOpen = 0"
| "progress DUnderReview = 1"
| "progress DEscalated = 2"
| "progress DResolved = 3"

definition dispute_follows :: "dispute_record \<Rightarrow> dispute_record \<Rightarrow> bool" where
  "dispute_follows d d' \<longleftrightarrow> d' = d \<or> progress (d_status d) < progress (d_status d') \<and>
     d' = d\<lparr>d_status := d_status d', d_outcome := d_outcome d', d_resolution := d_resolution d'\<rparr>"

lemma progress_resolved: "progress st \<le> progress DResolved"
  by (cases st) simp_all

interpretation dispute_life: lifecycle st_get_dispute st_set_dispute d_dispute_id dispute_follows
  "\<lambda>d. d_status d = DResolved"
proof unfold_locales
  show "dispute_follows d d" for d by (simp add: dispute_follows_def)
  show "dispute_follows d d''" if "dispute_follows d d'" "dispute_follows d' d''" for d d' d''
    using that by (cases d; cases d'; cases d'') (auto simp: dispute_follows_def)
  show "d' = d" if "d_status d = DResolved" "dispute_follows d d'" for d d'
    using that progress_resolved [of "d_status d'"] by (auto simp: dispute_follows_def)
qed

lemma moves_to_follows: "moves_to rs rs' d d' \<Longrightarrow> dispute_follows d d'"
  by (erule moves_toE; cases "d_status d") (auto simp: dispute_follows_def)

text \<open>
  In every reachable state a dispute is under its id, which is not empty, it has an outcome
  exactly when it is resolved, and favours the payer only when it names a refund.
\<close>

definition dispute_ok :: "dispute_record \<Rightarrow> bool" where
  "dispute_ok d \<longleftrightarrow> d_dispute_id d \<noteq> [] \<and> (d_outcome d \<noteq> None \<longleftrightarrow> d_status d = DResolved) \<and>
     (d_outcome d = Some PayerFavor \<longrightarrow> d_refund_id d \<noteq> [])"

definition disputes_ok :: "'w env \<Rightarrow> bool" where
  "disputes_ok s \<longleftrightarrow> (\<forall>k d. disps s k = Some d \<longrightarrow> d_dispute_id d = k \<and> dispute_ok d)"

lemma no_unnamed_refund: "refunds_keyed rs \<Longrightarrow> rs [] \<noteq> Some r"
  unfolding refunds_keyed_def by blast

lemma moves_to_ok:
  assumes "moves_to rs rs' d d'" and "refunds_keyed rs" and "dispute_ok d"
  shows "d_dispute_id d' = d_dispute_id d \<and> dispute_ok d'"
  using assms(1) by cases (use assms(2,3) no_unnamed_refund in \<open>auto simp: dispute_ok_def\<close>)

lemma dispute_step_ok:
  assumes "dispute_step s t" and "refunds_keyed (refs s)" and "disputes_ok s"
  shows "disputes_ok t \<and> dispute_life.evolves s t"
  using assms(1)
proof cases
  case keep
  with assms(3) show ?thesis
    by (simp add: disputes_ok_def dispute_life.evolves_same st_get_dispute_def)
next
  case (open_one d)
  then have "dispute_ok d" by (simp add: new_dispute_def dispute_ok_def)
  with open_one assms(3) show ?thesis
    by (auto simp: disputes_ok_def dispute_life.evolves_def st_get_dispute_def dispute_follows_def)
next
  case (move_on k d a d')
  with assms(3) have d: "d_dispute_id d = k" "dispute_ok d" by (simp_all add: disputes_ok_def)
  with moves_to_ok [OF move_on(4) assms(2)] move_on assms(3) moves_to_follows [OF move_on(4)]
  show ?thesis
    by (auto simp: disputes_ok_def dispute_life.evolves_def st_get_dispute_def dispute_follows_def)
qed

lemma call_disputes_ok:
  assumes "run_call h c s = (Ok (), t)" and "refunds_keyed (refs s) \<and> disputes_ok s"
  shows "refunds_keyed (refs t) \<and> disputes_ok t \<and> dispute_life.evolves s t"
  using assms preservesD [OF pres_refunds_keyed] dispute_step_ok [OF call_dispute_step] by blast

lemma disputes_evolve:
  assumes "steps h others s t" and "refunds_keyed (refs s) \<and> disputes_ok s"
  shows "refunds_keyed (refs t) \<and> disputes_ok t \<and> dispute_life.evolves s t"
proof -
  let ?I = "\<lambda>t. refunds_keyed (refs t) \<and> disputes_ok t \<and> dispute_life.evolves s t"
  show "?I t"
  proof (rule steps_invariant [OF assms(1), where I = ?I])
    show "?I s" using assms(2) dispute_life.evolves_refl by blast
    show "preserves ?I (run_call h c)" for c
      by (rule preservesI, simp) (use call_disputes_ok dispute_life.evolves_trans in blast)
    show "?I v" if "?I u" and "time_passes others u v" for u v
      using that passing_view(2) [OF that(2)]
      by (simp add: disputes_ok_def dispute_life.evolves_def st_get_dispute_def)
  qed
qed

lemma disputes_reachable:
  assumes "steps h others s t" and "fresh s"
  shows "refunds_keyed (refs t) \<and> disputes_ok t"
proof -
  have "refunds_keyed (refs s) \<and> disputes_ok s"
    using assms(2) by (simp add: fresh_def refunds_keyed_def disputes_ok_def empty_persistent_def)
  from disputes_evolve [OF assms(1) this] show ?thesis by blast
qed

text \<open>
  C8. What any call of the contract can do in a reachable state to the dispute of an id:
  leave it; open it, by a signed payer over a rejected refund or a signed party over a
  payment; or, with the signature of the administrator, take an open one under review,
  escalate one that is open or under review, dismiss one that is not resolved, or resolve
  it for the payer, which completes its refund. Nothing removes a dispute or changes its
  terms, a resolved one stays as it is, and exactly the resolved ones have an outcome.
\<close>

theorem dispute_status_machine:
  assumes "steps h others s t" and "fresh s" and "run_call h c t = (Ok (), u)"
  shows "st_get_dispute k u = st_get_dispute k t \<or>
    (\<exists>d. st_get_dispute k t = None \<and> st_get_dispute k u = Some d \<and> d_dispute_id d = k \<and>
       new_dispute (now t) d \<and> d_initiator d \<in> auths t \<and> disputable (pays t) (refs t) d) \<or>
    (\<exists>d d' a. st_get_dispute k t = Some d \<and> st_get_dispute k u = Some d' \<and>
       st_get_admin t = Some a \<and> a \<in> auths t \<and>
       moves_to (refs t) (refs u) d d' \<and> dispute_follows d d' \<and> d_status d \<noteq> DResolved \<and>
       (d_outcome d' \<noteq> None \<longleftrightarrow> d_status d' = DResolved))"
proof -
  have ok: "refunds_keyed (refs t)" "disputes_ok t" using disputes_reachable [OF assms(1,2)] by auto
  from call_dispute_step [OF assms(3)] show ?thesis
  proof cases
    case keep
    then show ?thesis by (simp add: st_get_dispute_def)
  next
    case (open_one d)
    then show ?thesis by (cases "k = d_dispute_id d") (auto simp: st_get_dispute_def)
  next
    case (move_on k' d a d')
    with ok(2) have d: "d_dispute_id d = k'" "dispute_ok d" by (simp_all add: disputes_ok_def)
    have "dispute_ok d'" using moves_to_ok [OF move_on(4) ok(1) d(2)] by blast
    moreover have "d_status d \<noteq> DResolved" using move_on(4) by cases auto
    ultimately show ?thesis using move_on d moves_to_follows [OF move_on(4)]
      by (cases "k = k'") (auto simp: st_get_dispute_def dispute_ok_def)
  qed
qed

text \<open>
  C12. A dispute that was opened with \<open>initiate_dispute\<close> names no refund, and no refund has
  the empty id: however long the contract runs on, it is never resolved in favour of the
  payer, whoever asks for it, with whatever notes.
\<close>

theorem initiated_dispute_never_favours_the_payer:
  assumes "steps h others s t" and "fresh s"
    and "run_call h (DisputeC (InitiateDispute a k order_id reason)) t = (Ok (), u)" and "steps h others u v"
  shows "\<exists>d. st_get_dispute k v = Some d \<and> d_initiator d = a \<and> d_order_id d = order_id \<and>
    d_reason d = reason \<and> d_outcome d \<noteq> Some PayerFavor \<and>
    \<not> is_Ok (fst (resolve_dispute h adm k n True v))"
proof -
  have u: "refunds_keyed (refs u) \<and> disputes_ok u"
    using call_disputes_ok [OF assms(3) disputes_reachable [OF assms(1,2)]] by blast
  note v = disputes_evolve [OF assms(4) this]
  from assms(3) obtain d0 where d0: "st_get_dispute k u = Some d0" "d_initiator d0 = a"
    "d_order_id d0 = order_id" "d_reason d0 = reason" "d_refund_id d0 = []"
    by (auto simp: initiate_dispute_def exec_simps storage_defs)
  obtain d where d: "st_get_dispute k v = Some d" "dispute_follows d0 d"
    using v dispute_life.evolves_get d0(1) by blast
  from d(2) d0 have terms: "d_initiator d = a" "d_order_id d = order_id" "d_reason d = reason" "d_refund_id d = []"
    by (cases d; cases d0; auto simp: dispute_follows_def)+
  have "d_outcome d \<noteq> Some PayerFavor"
    using v d(1) terms(4) by (auto simp: disputes_ok_def dispute_ok_def st_get_dispute_def)
  moreover have False if "resolve_dispute h adm k n True v = (Ok (), w)" for w
  proof -
    from that have "\<exists>r. refs v (d_refund_id d) = Some r"
      using d(1) by (auto simp: resolve_dispute_def exec_simps Let_def storage_defs)
    with terms(4) v no_unnamed_refund show False by fastforce
  qed
  ultimately show ?thesis using d(1) terms by (auto dest: is_Ok_unit)
qed


section \<open>Examples\<close>

text \<open>A rejected refund of the payer, the dispute over it, and what may come next.\<close>

definition dispute_run :: "book env" where
  "dispute_run = run_calls sample_host (life_calls @
     [PaymentC (ProcessPaymentWithNonce (Addr 2) ''o1'' (Addr 1) (Addr 9) 1000 [] None 0),
      RefundC (InitiateRefund (Addr 2) ''r1'' ''o1'' 400 ''late''), RefundC (RejectRefund (Addr 1) ''r1''),
      DisputeC (RaiseDispute (Addr 2) ''d1'' ''r1'' ''no'')]) launch"

abbreviation force_d1 :: call where
  "force_d1 \<equiv> DisputeC (ResolveDispute (Addr 5) ''d1'' ''yes'' True)"

abbreviation initiate_d2 :: call where
  "initiate_d2 \<equiv> DisputeC (InitiateDispute (Addr 1) ''d2'' ''o1'' ''late'')"

lemma dispute_run_observed:
  "observe (\<lambda>s. (map_option d_status (disps s ''d1''), is_Ok (fst (run_call sample_host force_d1 s)),
     map_option d_status (disps (snd (run_call sample_host force_d1 s)) ''d1''),
     is_Ok (fst (run_call sample_host initiate_d2 s)))) dispute_run =
   (Some DOpen, True, Some DResolved, True)"
  unfolding dispute_run_def life_calls_def run_calls_def launch_def
  by (simp add: invoke_def life_ops process_payment_with_nonce_def refund_ops initiate_dispute_def
      payment_block_defs exec_comp storage_defs helper_defs reference_defs const_defs in_i128_def
      u64_sat_add_def rust_div_def observe_def)

lemmas dispute_run_stored = dispute_run_observed [unfolded observe_def prod.inject]

lemma dispute_run_steps: "steps sample_host (\<lambda>w w'. w' = w) launch dispute_run"
  unfolding dispute_run_def by (rule run_calls_steps)

theorem dispute_status_machine_witness:
  "\<exists>d d'. st_get_dispute ''d1'' dispute_run = Some d \<and> d_status d = DOpen \<and>
     st_get_dispute ''d1'' (snd (run_call sample_host force_d1 dispute_run)) = Some d' \<and>
     d_outcome d' \<noteq> None \<and> moves_to (refs dispute_run) (refs (snd (run_call sample_host force_d1 dispute_run))) d d'"
proof -
  let ?u = "snd (run_call sample_host force_d1 dispute_run)"
  have "is_Ok (fst (run_call sample_host force_d1 dispute_run))" using dispute_run_stored by blast
  note machine = dispute_status_machine [OF dispute_run_steps fresh_launch is_Ok_unit [OF this], of "''d1''"]
  obtain d d' where "st_get_dispute ''d1'' dispute_run = Some d" "d_status d = DOpen"
    "st_get_dispute ''d1'' ?u = Some d'" "d_status d' = DResolved"
    using dispute_run_stored by (auto simp: st_get_dispute_def)
  with machine show ?thesis by auto
qed

theorem initiated_dispute_never_favours_the_payer_witness:
  "\<exists>d. st_get_dispute ''d2'' (run_calls sample_host [DisputeC (EscalateDispute (Addr 5) ''d2'' None)]
      (snd (run_call sample_host initiate_d2 dispute_run))) = Some d \<and>
     d_initiator d = Addr 1 \<and> d_outcome d \<noteq> Some PayerFavor"
proof -
  have "is_Ok (fst (run_call sample_host initiate_d2 dispute_run))" using dispute_run_stored by blast
  from initiated_dispute_never_favours_the_payer [OF dispute_run_steps fresh_launch is_Ok_unit [OF this] run_calls_steps]
  show ?thesis by blast
qed

end
