(* ===== verification/Isolation.thy ===== *)
theory Isolation
  imports PaymentTerms
begin

text \<open>
  Who sees whose payments: the histories of payers and merchants are lists of order ids,
  looked up when they are read. They show their owner's payments only as long as no id
  gets a second payment.
\<close>

section \<open>Histories that list their owner's payments\<close>

definition owned_lists :: "'w env \<Rightarrow> bool" where
  "owned_lists s \<longleftrightarrow>
     (\<forall>a. \<forall>k \<in> set (st_get_payer_payment_ids a s).
        \<exists>p. st_get_payment k s = Some p \<and> p_payer p = a) \<and>
     (\<forall>a. \<forall>k \<in> set (st_get_merchant_payment_ids a s).
        \<exists>p. st_get_payment k s = Some p \<and> p_merchant_address p = a)"

definition listed_in where
  "listed_in s = (pays s, k_PP (persistent_st s), k_MP (persistent_st s))"

lemma listed_in_eq:
  "listed_in t = listed_in s \<longleftrightarrow> pays t = pays s \<and> k_PP (persistent_st t) = k_PP (persistent_st s) \<and>
     k_MP (persistent_st t) = k_MP (persistent_st s)"
  by (auto simp: listed_in_def)

lemma owned_lists_view: "owned_lists s \<Longrightarrow> listed_in t = listed_in s \<Longrightarrow> owned_lists t"
  by (simp add: listed_in_eq owned_lists_def st_get_payer_payment_ids_def st_get_merchant_payment_ids_def
      st_get_payment_def)

lemma owned_lists_record:
  assumes "owned_lists s" and "pays s k = None" and "\<And>i. i \<noteq> k \<Longrightarrow> pays t i = pays s i"
    and "map_option p_payer (pays t k) = Some a" and "map_option p_merchant_address (pays t k) = Some m"
    and "k_PP (persistent_st t) = (k_PP (persistent_st s))(a := Some (st_get_payer_payment_ids a s @ [k]))"
    and "k_MP (persistent_st t) = (k_MP (persistent_st s))(m := Some (st_get_merchant_payment_ids m s @ [k]))"
  shows "owned_lists t"
proof -
  have ids: "st_get_payer_payment_ids b t = st_get_payer_payment_ids b s @ (if b = a then [k] else [])"
    "st_get_merchant_payment_ids b t = st_get_merchant_payment_ids b s @ (if b = m then [k] else [])" for b
    using assms(6,7) by (simp_all add: st_get_payer_payment_ids_def st_get_merchant_payment_ids_def unwrap_or_def)
  have old: "pays t i = pays s i" if "pays s i = Some p" for i p
    using that assms(2,3) by (cases "i = k") auto
  obtain p where "pays t k = Some p" "p_payer p = a" "p_merchant_address p = m"
    using assms(4,5) by auto
  with assms(1) old show ?thesis
    by (fastforce simp: owned_lists_def ids st_get_payment_def)
qed

lemma owned_lists_amend:
  assumes "owned_lists s" and "\<And>i. i \<noteq> k \<Longrightarrow> pays t i = pays s i"
    and "map_option p_payer (pays t k) = map_option p_payer (pays s k)"
    and "map_option p_merchant_address (pays t k) = map_option p_merchant_address (pays s k)"
    and "k_PP (persistent_st t) = k_PP (persistent_st s)" and "k_MP (persistent_st t) = k_MP (persistent_st s)"
  shows "owned_lists t"
proof -
  have parties: "map_option p_payer (pays t i) = map_option p_payer (pays s i)"
    "map_option p_merchant_address (pays t i) = map_option p_merchant_address (pays s i)" for i
    using assms(2-4) by (cases "i = k"; simp)+
  have kept: "(\<exists>q. pays t i = Some q \<and> p_payer q = b) \<longleftrightarrow> (\<exists>p. pays s i = Some p \<and> p_payer p = b)"
    "(\<exists>q. pays t i = Some q \<and> p_merchant_address q = b) \<longleftrightarrow> (\<exists>p. pays s i = Some p \<and> p_merchant_address p = b)" for i b
    using parties [of i] by (cases "pays t i"; cases "pays s i"; auto)+
  have ids: "st_get_payer_payment_ids b t = st_get_payer_payment_ids b s"
    "st_get_merchant_payment_ids b t = st_get_merchant_payment_ids b s" for b
    using assms(5,6) by (simp_all add: st_get_payer_payment_ids_def st_get_merchant_payment_ids_def)
  show ?thesis using assms(1) unfolding owned_lists_def ids st_get_payment_def kept .
qed

interpretation lists_kept: rest_of_payments "\<lambda>s. listed_in s = v" "\<lambda>_. True" h for v and h :: "'w host"
  by unfold_locales
    (rule preserves_append_audit
      | (simp add: listed_in_def storage_defs Let_def; fail))+

section \<open>Calls that record or amend\<close>

lemma process_with_signature_lists:
  assumes "process_payment_with_signature h payer k merch tok n memo tags nc ts sg pk s = (Ok z, t)"
    and "owned_lists s"
  shows "owned_lists t"
  using assms unfolding process_payment_with_signature_def
  apply (simp add: exec_simps Let_def split_beta take_rate_limit_slot_Ok_iff)
  apply (elim exE conjE)
  apply (drule transfer_with_fee_OkD(1), drule add_merchant_payment_id_OkD(2),
      drule add_payer_payment_id_OkD(2), drule add_merchant_payment_stats_OkD(2),
      drule add_global_payment_stats_OkD(2), drule flag_large_payment_OkD(1))
  apply (rule owned_lists_record [of s k _ payer merch]; simp add: storage_defs)
  done

lemma process_with_nonce_lists:
  assumes "process_payment_with_nonce h payer k merch tok n memo tags nc s = (Ok z, t)" and "owned_lists s"
  shows "owned_lists t"
  using assms unfolding process_payment_with_nonce_def
  apply (simp add: exec_simps Let_def split_beta)
  apply (elim exE conjE)
  apply (drule transfer_with_fee_OkD(1), drule add_merchant_payment_id_OkD(2),
      drule add_payer_payment_id_OkD(2), drule add_merchant_payment_stats_OkD(2),
      drule add_global_payment_stats_OkD(2), drule flag_large_payment_OkD(1))
  apply (rule owned_lists_record [of s k _ payer merch]; simp add: storage_defs)
  done

lemma pay_request_lists:
  assumes "pay_payment_request h payer k s = (Ok z, t)" and "owned_lists s" and "requests.well_keyed s"
  shows "owned_lists t"
  using assms unfolding pay_payment_request_def
  apply (clarsimp simp: exec_simps split: if_splits)
  apply (frule (1) requests.well_keyedD)
  apply (drule add_merchant_payment_id_OkD(2), drule add_payer_payment_id_OkD(2),
      drule add_global_payment_stats_OkD(2))
  apply (erule_tac k = k and a = payer and m = "pr_merchant x" in owned_lists_record;
      simp add: storage_defs Let_def split: option.split)
  done

lemma update_status_lists:
  assumes "update_payment_status a k n v s = (Ok z, t)" and "owned_lists s" and "payments.well_keyed s"
  shows "owned_lists t"
  using assms unfolding update_payment_status_def
  apply (simp add: exec_simps if_some_guard_Ok_iff Let_def del: if_some_Ok_iff split del: if_split)
  apply (elim exE conjE)
  apply (frule (1) payments.well_keyedD)
  apply (rule owned_lists_amend [of s k]; simp add: storage_defs split del: if_split)
  done

lemma execute_refund_lists:
  assumes "execute_refund h rid s = (Ok z, t)" and "owned_lists s" and "payments.well_keyed s"
  shows "owned_lists t"
  using assms
  apply (clarsimp simp: execute_refund_def add_merchant_refund_stats_def add_global_refund_stats_def exec_simps)
  apply (frule (1) payments.well_keyedD)
  apply (erule_tac k = "r_order_id x" in owned_lists_amend; simp add: storage_defs split del: if_split)
  done

lemma resolve_dispute_lists:
  assumes "resolve_dispute h a did rs f s = (Ok z, t)" and "owned_lists s" and "payments.well_keyed s"
  shows "owned_lists t"
  using assms
  apply (clarsimp simp: resolve_dispute_def add_merchant_refund_stats_def add_global_refund_stats_def
      exec_simps Let_def split: if_splits)
   apply (subgoal_tac "st_get_payment (r_order_id xa) s = Some xb")
    apply (frule (1) payments.well_keyedD)
    apply (erule_tac k = "r_order_id xa" in owned_lists_amend; simp add: storage_defs split del: if_split)
   apply (simp add: storage_defs)
  apply (erule owned_lists_view, simp add: listed_in_def storage_defs)
  done

text \<open>A batch records its items one by one; their ids are new and distinct.\<close>

lemma record_batch_item_indexes:
  assumes "record_batch_item payer ts g item s = (Ok r, t)"
  shows "k_PP (persistent_st t) = (k_PP (persistent_st s))
      (payer := Some (st_get_payer_payment_ids payer s @ [bi_order_id item]))"
    "k_MP (persistent_st t) = (k_MP (persistent_st s))
      (bi_merchant_address item := Some (st_get_merchant_payment_ids (bi_merchant_address item) s @ [bi_order_id item]))"
  using assms unfolding record_batch_item_def
  by (auto simp: exec_simps storage_defs split: option.splits
      dest!: add_merchant_payment_id_OkD(2) add_payer_payment_id_OkD(2) add_merchant_payment_stats_OkD(2))

lemma record_batch_item_lists:
  assumes "record_batch_item payer ts g item s = (Ok r, t)" and "owned_lists s" and "pays s (bi_order_id item) = None"
  shows "owned_lists t"
  using assms(2,3) record_batch_item_payments [OF assms(1)] record_batch_item_indexes [OF assms(1)]
  by (intro owned_lists_record [of s "bi_order_id item" t payer "bi_merchant_address item"])
    (simp_all add: batch_record_def)

lemma record_batch_lists:
  "fold_each items (record_batch_item payer ts) g s = (Ok r, t) \<Longrightarrow> distinct (map bi_order_id items) \<Longrightarrow>
   \<forall>item \<in> set items. pays s (bi_order_id item) = None \<Longrightarrow> owned_lists s \<Longrightarrow> owned_lists t"
proof (induction items arbitrary: g s)
  case (Cons item items)
  then obtain g' u where one: "record_batch_item payer ts g item s = (Ok g', u)"
    and rest: "fold_each items (record_batch_item payer ts) g' u = (Ok r, t)"
    by (auto simp: exec_simps)
  have "owned_lists u" using record_batch_item_lists [OF one] Cons.prems by simp
  moreover have "\<forall>i \<in> set items. pays u (bi_order_id i) = None"
    using Cons.prems(2,3) by (simp add: record_batch_item_payments [OF one] image_iff) metis
  ultimately show ?case using Cons.IH [OF rest] Cons.prems(2) by simp
qed (simp add: exec_simps)

lemma batch_lists:
  assumes "batch_payment h payer items s = (Ok (), t)" and "owned_lists s"
  shows "owned_lists t"
proof (rule batch_payment_run [OF assms(1)])
  fix s3 s4 :: "'a env" and g
  assume new: "\<forall>item \<in> set items. batch_item_ok h s item" and dist: "distinct (map bi_order_id items)"
    and s3: "persistent_st s3 = persistent_st s" and t: "persistent_st t = persistent_st s4"
    and run: "fold_each items (record_batch_item payer (now s)) (st_get_global_stats s3) s3 = (Ok g, s4)"
  have "owned_lists s3" using assms(2) s3 by (rule_tac owned_lists_view) (simp_all add: listed_in_def)
  moreover have "\<forall>item \<in> set items. pays s3 (bi_order_id item) = None"
    using new s3 by (auto simp: batch_item_ok_def st_get_payment_def)
  ultimately have "owned_lists s4" using record_batch_lists [OF run dist] by simp
  then show ?thesis using t by (rule_tac owned_lists_view) (simp_all add: listed_in_def)
qed

section \<open>Calls\<close>

text \<open>
  The calls after which a listed id can name no payment or another one: a payment is
  removed, and a multisig payment is stored under its id whatever is there.
\<close>

definition unlists :: "call \<Rightarrow> bool" where
  "unlists c \<longleftrightarrow> (case c of
       PaymentC (ArchivePaymentRecordCall _ _) \<Rightarrow> True
     | PaymentC (CleanupExpiredPaymentsCall _) \<Rightarrow> True
     | MultisigC (ExecuteMultisigPayment _ _) \<Rightarrow> True
     | _ \<Rightarrow> False)"

lemma call_lists:
  assumes "run_call h c s = (Ok (), t)" and "\<not> unlists c" and "owned_lists s" and typed: "stores_typed s"
  shows "owned_lists t"
proof (cases "quiet_call c \<or> (\<exists>m. c = MerchantC m)")
  case True
  from preservesD [OF lists_kept.pres_without_payments [OF this] assms(1)] show ?thesis
    by (intro owned_lists_view [OF assms(3)]) simp
next
  case False
  from typed have "payments.well_keyed s" "requests.well_keyed s" by (simp_all add: stores_typed_def)
  with False assms(1-3) show ?thesis
    by (auto simp: quiet_call_def unlists_def exec_simps split: call.splits payment_call.splits refund_call.splits
        dispute_call.splits multisig_call.splits request_call.splits
      intro: process_with_signature_lists process_with_nonce_lists batch_lists update_status_lists
        execute_refund_lists resolve_dispute_lists pay_request_lists)
qed


text \<open>Steps whose calls are restricted.\<close>

inductive steps_by :: "(call \<Rightarrow> bool) \<Rightarrow> 'w host \<Rightarrow> ('w \<Rightarrow> 'w \<Rightarrow> bool) \<Rightarrow> 'w env \<Rightarrow> 'w env \<Rightarrow> bool"
  for allowed h others where
  by_refl: "steps_by allowed h others s s"
| by_call: "steps_by allowed h others s t \<Longrightarrow> allowed c \<Longrightarrow>
    steps_by allowed h others s (snd (invoke (run_call h c) t))"
| by_passing: "steps_by allowed h others s t \<Longrightarrow> time_passes others t u \<Longrightarrow> steps_by allowed h others s u"

lemma steps_by_steps: "steps_by allowed h others s t \<Longrightarrow> steps h others s t"
  by (induction rule: steps_by.induct) (auto intro: steps_refl steps_snoc transaction passing)

lemma run_calls_by: "\<forall>c \<in> set cs. allowed c \<Longrightarrow> steps_by allowed h others s (run_calls h cs s)"
  unfolding run_calls_def by (induction cs rule: rev_induct) (auto intro: by_refl by_call)

lemma owned_lists_reachable:
  assumes "steps_by (\<lambda>c. \<not> unlists c) h others s t" and "fresh s"
  shows "owned_lists t"
  using assms
proof (induction rule: steps_by.induct)
  case (by_refl s)
  then show ?case
    by (simp add: owned_lists_def fresh_def st_get_payer_payment_ids_def st_get_merchant_payment_ids_def
        empty_persistent_def unwrap_or_def)
next
  case (by_call s t c)
  have "stores_typed t" using stores_typed_reachable [OF steps_by_steps [OF by_call(1)] by_call(4)] .
  then show ?case
    using by_call call_lists [of h c t] by (auto simp: invoke_def split: prod.splits outcome.splits)
next
  case (by_passing s t u)
  then have "owned_lists t" by simp
  then show ?case
    by (rule owned_lists_view) (simp add: listed_in_def passing_view(2) [OF by_passing(2)])
qed

section \<open>What a reader sees\<close>

lemma page_of_lists:
  assumes "build_page h ids cursor limit f fld ord s = (Ok page, u)" and "sorts h"
    and "p \<in> set (ppg_payments page)"
  shows "\<exists>i \<in> set ids. st_get_payment i s = Some p"
proof -
  let ?xs = "load_payments ids f s"
  have "set (sort_payments h (payment_cmp fld ord) ?xs) = set ?xs"
    using assms(2) unfolding sorts_def by (metis set_mset_mset)
  moreover have "p \<in> set (sort_payments h (payment_cmp fld ord) ?xs)"
    using assms(1,3) by (auto simp: build_page_def exec_comp page_loop_spec Let_def dest!: in_set_takeD in_set_dropD)
  ultimately show ?thesis by (simp add: set_load_payments)
qed

text \<open>
  C10. As long as no payment was archived, cleaned up or stored by a multisig execution, a
  page of a history shows its reader, who signed, nothing but payments of its own: a payer
  those it made, a merchant those made to it.
\<close>

theorem histories_show_own_payments:
  assumes "steps_by (\<lambda>c. \<not> unlists c) h others s t" and "fresh s" and "sorts h"
  shows "(get_payer_payment_history h a cursor limit f fld ord t = (Ok page, u) \<longrightarrow>
      a \<in> auths t \<and> (\<forall>p \<in> set (ppg_payments page). p_payer p = a)) \<and>
    (get_merchant_payment_history h a cursor limit f fld ord t = (Ok page, u) \<longrightarrow>
      a \<in> auths t \<and> (\<forall>p \<in> set (ppg_payments page). p_merchant_address p = a))"
proof (intro conjI impI)
  have owned: "owned_lists t" by (rule owned_lists_reachable [OF assms(1,2)])
  assume "get_payer_payment_history h a cursor limit f fld ord t = (Ok page, u)"
  then show "a \<in> auths t" and "\<forall>p \<in> set (ppg_payments page). p_payer p = a"
    using owned page_of_lists [OF _ assms(3), of "st_get_payer_payment_ids a t" cursor limit f fld ord t page u]
    by (auto simp: get_payer_payment_history_def exec_simps owned_lists_def) fastforce
next
  have owned: "owned_lists t" by (rule owned_lists_reachable [OF assms(1,2)])
  assume "get_merchant_payment_history h a cursor limit f fld ord t = (Ok page, u)"
  then show "a \<in> auths t" and "\<forall>p \<in> set (ppg_payments page). p_merchant_address p = a"
    using owned page_of_lists [OF _ assms(3), of "st_get_merchant_payment_ids a t" cursor limit f fld ord t page u]
    by (auto simp: get_merchant_payment_history_def exec_simps owned_lists_def) fastforce
qed


section \<open>An archived order id\<close>

lemma single_payment_page:
  assumes "a \<in> auths s" and "st_get_payer_payment_ids a s = [k]" and "st_get_payment k s = Some p"
  shows "get_payer_payment_history sample_host a None 10 None DateField Ascending s =
    (Ok \<lparr>ppg_payments = [p], ppg_next_cursor = None, ppg_total_matching = 1\<rparr>, s)"
proof -
  have "load_payments [k] None s = [p]"
    by (simp add: load_payments_def matches_filter_def assms(3) List.map_filter_simps)
  moreover have "sort_payments sample_host (payment_cmp DateField Ascending) [p] = [p]"
    by (simp add: sample_host_def sort_cmp_def)
  ultimately show ?thesis
    using assms(1,2)
    by (simp add: get_payer_payment_history_def build_page_def exec_comp require_valid_limit_def page_start_def
        const_defs)
qed

definition own_run :: "book env" where
  "own_run = run_calls sample_host (life_calls @
     [PaymentC (ProcessPaymentWithNonce (Addr 2) ''a'' (Addr 1) (Addr 9) 10 [] None 0)]) launch"

lemma own_run_observed:
  "observe (\<lambda>s. (k_PP (persistent_st s) (Addr 2), map_option p_payer (k_Payment (persistent_st s) ''a''), auths s))
     own_run = (Some [''a''], Some (Addr 2), {Addr 1, Addr 2, Addr 5})"
  unfolding own_run_def life_calls_def run_calls_def launch_def
  by (simp add: invoke_def life_ops process_payment_with_nonce_def payment_block_defs exec_comp storage_defs helper_defs
      reference_defs require_admin_rate_limited_def const_defs in_i128_def u64_sat_add_def rust_div_def observe_def)

lemmas own_run_stored = own_run_observed [unfolded observe_def prod.inject]

theorem histories_show_own_payments_witness:
  "\<exists>p. get_payer_payment_history sample_host (Addr 2) None 10 None DateField Ascending own_run =
     (Ok \<lparr>ppg_payments = [p], ppg_next_cursor = None, ppg_total_matching = 1\<rparr>, own_run) \<and> p_payer p = Addr 2"
proof -
  obtain p where p: "st_get_payment ''a'' own_run = Some p" using own_run_stored by (auto simp: st_get_payment_def)
  have ids: "st_get_payer_payment_ids (Addr 2) own_run = [''a'']" and auth: "Addr 2 \<in> auths own_run"
    using own_run_stored by (simp_all add: st_get_payer_payment_ids_def unwrap_or_def)
  note page = single_payment_page [OF auth ids p]
  have "steps_by (\<lambda>c. \<not> unlists c) sample_host (\<lambda>w w'. w' = w) launch own_run"
    unfolding own_run_def by (rule run_calls_by) (simp add: life_calls_def unlists_def)
  from histories_show_own_payments [OF this fresh_launch sorts_sample_host, of "Addr 2" None 10 None DateField Ascending]
  show ?thesis unfolding page by auto
qed

text \<open>Nothing takes an order id off the list of its payer, not even the removal of the payment.\<close>

lemma pres_listed:
  "preserves (\<lambda>s. k \<in> set (st_get_payer_payment_ids a s)) (st_add_merchant_payment_id b i)"
  "preserves (\<lambda>s. k \<in> set (st_get_payer_payment_ids a s)) (st_add_payer_payment_id b i)"
  by (rule preservesI, drule add_merchant_payment_id_OkD(2) add_payer_payment_id_OkD(2),
      auto simp: st_get_payer_payment_ids_def unwrap_or_def)+

interpretation stays_listed: whole_frame "\<lambda>s. k \<in> set (st_get_payer_payment_ids a s)" "\<lambda>_. True" h
  for a k and h :: "'w host"
  by unfold_locales
    (rule preserves_append_audit pres_listed | (simp add: storage_defs Let_def; fail))+

lemma listed_steps:
  assumes "steps h others s t" and "k \<in> set (st_get_payer_payment_ids a s)"
  shows "k \<in> set (st_get_payer_payment_ids a t)"
  using assms
  by (rule steps_invariant)
    (rule stays_listed.pres_run_call, simp add: st_get_payer_payment_ids_def passing_view)

lemma archive_keeps_lists:
  "archive_payment_record adm k s = (Ok (), t) \<Longrightarrow> st_get_payer_payment_ids a t = st_get_payer_payment_ids a s"
  by (auto simp: archive_payment_record_def exec_simps storage_defs)

text \<open>A history that fits on a page shows the payment now stored under each of its ids.\<close>

lemma length_load_payments: "length (load_payments ids f s) \<le> length ids"
proof -
  have "length (List.map_filter (\<lambda>i. st_get_payment i s) ids) \<le> length ids"
    by (induction ids) (simp_all add: List.map_filter_simps split: option.split)
  then show ?thesis unfolding load_payments_def by (rule order_trans [OF length_filter_le])
qed

lemma payer_page_shows:
  assumes "a \<in> auths s" and "k \<in> set (st_get_payer_payment_ids a s)" and "st_get_payment k s = Some p"
    and "sorts h" and "length (st_get_payer_payment_ids a s) \<le> limit" and "limit \<le> MAX_PAGE_LIMIT"
  shows "\<exists>page. get_payer_payment_history h a None limit None fld ord s = (Ok page, s) \<and> p \<in> set (ppg_payments page)"
proof -
  let ?ids = "st_get_payer_payment_ids a s"
  let ?xs = "sort_payments h (payment_cmp fld ord) (load_payments ?ids None s)"
  have same: "mset ?xs = mset (load_payments ?ids None s)" using assms(4) by (simp add: sorts_def)
  have "p \<in> set (load_payments ?ids None s)"
    using assms(2,3) by (auto simp: set_load_payments matches_filter_def)
  then have p: "p \<in> set ?xs" using same by (metis mset_eq_setD)
  have "length ?xs \<le> limit"
    using mset_eq_length [OF same] length_load_payments [of ?ids None s] assms(5) by simp
  moreover have "0 < limit" using assms(2,5) by (cases ?ids) auto
  ultimately have "get_payer_payment_history h a None limit None fld ord s =
      (Ok \<lparr>ppg_payments = ?xs, ppg_next_cursor = None, ppg_total_matching = length ?xs\<rparr>, s)"
    using assms(1,6)
    by (simp add: get_payer_payment_history_def build_page_def exec_comp require_valid_limit_def
        page_loop_start page_start_def Let_def)
  with p show ?thesis by simp
qed

text \<open>
  C11. After an archive that is no longer so. Whoever has an order id in its payment
  history (it paid under it), once the administrator archives that payment and, whatever
  happens in between, somebody else pays under the same id, finds the payment of the other
  in its own history, with the other's address and amount, for as long as that payment is
  stored and the history fits on the page it asks for.
\<close>

theorem archived_id_shows_a_foreign_payment:
  assumes "k \<in> set (st_get_payer_payment_ids a s)" and "archive_payment_record adm k s = (Ok (), t)"
    and "steps h others t t'"
    and "process_payment_with_nonce h b k m tok n memo tags nc t' = (Ok (), u)" and "b \<noteq> a"
    and "steps h others u v" and "st_get_payment k v = st_get_payment k u"
    and "a \<in> auths v" and "sorts h"
    and "length (st_get_payer_payment_ids a v) \<le> limit" and "limit \<le> MAX_PAGE_LIMIT"
  shows "\<exists>page p. get_payer_payment_history h a None limit None fld ord v = (Ok page, v) \<and>
    p \<in> set (ppg_payments page) \<and> p_order_id p = k \<and> p_payer p = b \<and> p_payer p \<noteq> a \<and> p_amount p = n"
proof -
  have "k \<in> set (st_get_payer_payment_ids a t')"
    using listed_steps [OF assms(3)] assms(1) archive_keeps_lists [OF assms(2)] by simp
  moreover have paid: "run_call h (PaymentC (ProcessPaymentWithNonce b k m tok n memo tags nc)) t' = (Ok (), u)"
    using assms(4) by simp
  ultimately have "k \<in> set (st_get_payer_payment_ids a u)"
    by (rule preservesD [OF stays_listed.pres_run_call, rotated])
  then have listed: "k \<in> set (st_get_payer_payment_ids a v)" by (rule listed_steps [OF assms(6)])
  obtain p where p: "st_get_payment k u = Some p" "p_order_id p = k" "p_payer p = b" "p_amount p = n"
    using process_payment_with_nonce_effect [OF assms(4)] by auto
  with payer_page_shows [OF assms(8) listed _ assms(9-11), of p fld ord] assms(5,7) show ?thesis by auto
qed

text \<open>The payer of \<open>own_run\<close> reads again after an archive and a payment of the administrator.\<close>

definition archived_run :: "book env" where
  "archived_run = snd (archive_payment_record (Addr 5) ''a'' own_run)"

definition shared_run :: "book env" where
  "shared_run = snd (process_payment_with_nonce sample_host (Addr 5) ''a'' (Addr 1) (Addr 9) 30 [] None 0 archived_run)"

lemma shared_run_observed:
  "observe (\<lambda>s. (is_Ok (fst (archive_payment_record (Addr 5) ''a'' s)),
     observe (\<lambda>r. (is_Ok (fst r), k_PP (persistent_st (snd r)) (Addr 2), auths (snd r)))
       (process_payment_with_nonce sample_host (Addr 5) ''a'' (Addr 1) (Addr 9) 30 [] None 0
         (snd (archive_payment_record (Addr 5) ''a'' s))))) own_run =
   (True, True, Some [''a''], {Addr 1, Addr 2, Addr 5})"
  unfolding own_run_def life_calls_def run_calls_def launch_def
  by (simp add: invoke_def life_ops process_payment_with_nonce_def archive_payment_record_def payment_block_defs
      exec_comp storage_defs helper_defs reference_defs require_admin_rate_limited_def
      const_defs in_i128_def u64_sat_add_def rust_div_def observe_def)

lemmas shared_run_stored =
  shared_run_observed [unfolded observe_def prod.inject, folded archived_run_def, folded shared_run_def]

theorem archived_id_shows_a_foreign_payment_witness:
  "\<exists>page p. get_payer_payment_history sample_host (Addr 2) None 10 None DateField Ascending shared_run = (Ok page, shared_run) \<and>
     p \<in> set (ppg_payments page) \<and> p_payer p = Addr 5 \<and> p_amount p = 30"
proof -
  have listed: "''a'' \<in> set (st_get_payer_payment_ids (Addr 2) own_run)"
    using own_run_stored by (simp add: st_get_payer_payment_ids_def unwrap_or_def)
  have archived: "archive_payment_record (Addr 5) ''a'' own_run = (Ok (), archived_run)"
    using shared_run_stored unfolding archived_run_def by (blast intro: is_Ok_unit)
  have paid: "process_payment_with_nonce sample_host (Addr 5) ''a'' (Addr 1) (Addr 9) 30 [] None 0 archived_run =
      (Ok (), shared_run)"
    using shared_run_stored unfolding shared_run_def by (blast intro: is_Ok_unit)
  have "Addr 2 \<in> auths shared_run" "length (st_get_payer_payment_ids (Addr 2) shared_run) \<le> 10"
    using shared_run_stored by (simp_all add: st_get_payer_payment_ids_def unwrap_or_def)
  from archived_id_shows_a_foreign_payment [OF listed archived steps_refl paid _ steps_refl refl this(1)
      sorts_sample_host this(2), of DateField Ascending]
  show ?thesis by (auto simp: const_defs)
qed

end
