(* ===== verification/Statistics.thy ===== *)
theory Statistics
  imports Lifecycles
begin

text \<open>
  The statistics of the contract against what they count, across all calls: the totals of
  the merchants against the global ones, and the number of active merchants.
\<close>

section \<open>Totals that add up\<close>

abbreviation mstats :: "'w env \<Rightarrow> address \<Rightarrow> merchant_stats option" where
  "mstats s \<equiv> i_MS (instance_st s)"

definition active_merchants :: "'w env \<Rightarrow> address set" where
  "active_merchants s = {a. \<exists>m. st_get_merchant a s = Some m \<and> m_active m}"

definition payments_sum :: "'w env \<Rightarrow> int" where
  "payments_sum s = map_total (\<lambda>x. int (mst_total_payments x)) (mstats s)"

definition refunds_sum :: "'w env \<Rightarrow> int" where
  "refunds_sum s = map_total (\<lambda>x. int (mst_total_refunds x)) (mstats s)"

definition stats_ok :: "'w env \<Rightarrow> bool" where
  "stats_ok s \<longleftrightarrow> finite (dom (mstats s)) \<and> finite (active_merchants s) \<and>
     payments_sum s \<le> int (gs_total_payments (st_get_global_stats s)) \<and>
     refunds_sum s = int (gs_total_refunds (st_get_global_stats s)) \<and>
     gs_active_merchants (st_get_global_stats s) \<le> card (active_merchants s)"

lemma active_merchants_same:
  "k_Merchant (persistent_st t) = k_Merchant (persistent_st s) \<Longrightarrow> active_merchants t = active_merchants s"
  by (simp add: active_merchants_def st_get_merchant_def)

lemma active_merchants_edit:
  assumes "k_Merchant (persistent_st t) = (k_Merchant (persistent_st s))(m_address m' := Some m')"
    and "st_get_merchant a s = Some m" and "merchants.well_keyed s"
    and "m_address m' = m_address m" and "m_active m' = m_active m"
  shows "active_merchants t = active_merchants s"
  using assms merchants.well_keyedD [OF assms(3,2)]
  by (auto simp: active_merchants_def st_get_merchant_def)

lemma migrate_keys_stats: "i_GlobalStats (migrate_keys i) = i_GlobalStats i" "i_MS (migrate_keys i) = i_MS i"
  unfolding migrate_keys_def Let_def
  by (simp_all add: migrate_instance_field [where F = i_GlobalStats] migrate_instance_field [where F = i_MS])

section \<open>Calls that count nothing\<close>

definition counted_in where
  "counted_in s = (i_GlobalStats (instance_st s), mstats s, k_Merchant (persistent_st s))"

lemma stats_ok_view: "stats_ok s \<Longrightarrow> counted_in t = counted_in s \<Longrightarrow> stats_ok t"
  using active_merchants_same [of t s]
  by (simp add: counted_in_def stats_ok_def payments_sum_def refunds_sum_def st_get_global_stats_def)

interpretation uncounted: quiet_frame "\<lambda>s. counted_in s = v" "\<lambda>_. True" h for v and h :: "'w host"
  by unfold_locales
    (rule preserves_append_audit preserves_add_payment_id
      | (simp add: counted_in_def kept_instance_def stats_instance_def storage_defs Let_def; fail)
      | (simp add: counted_in_def stats_instance_def storage_defs Let_def migrate_keys_stats; fail))+

lemma payment_calls_uncounted:
  "preserves (\<lambda>s. counted_in s = v) (update_payment_status a k n ver)"
  "preserves (\<lambda>s. counted_in s = v) (archive_payment_record a k)"
  "preserves (\<lambda>s. counted_in s = v) (cleanup_expired_payments_loop a)"
  unfolding update_payment_status_def archive_payment_record_def
    cleanup_expired_payments_loop_def cleanup_one_payment_def
  by (rule pres | rule preserves_modify | simp add: counted_in_def storage_defs Let_def split: option.split)+

lemma payment_calls_count:
  "update_payment_status a k n ver s = (Ok z, t) \<Longrightarrow> stats_ok s \<Longrightarrow> stats_ok t"
  "archive_payment_record a k s = (Ok z, t) \<Longrightarrow> stats_ok s \<Longrightarrow> stats_ok t"
  "cleanup_expired_payments_loop a s = (Ok removed, t) \<Longrightarrow> stats_ok s \<Longrightarrow> stats_ok t"
  using preservesD [OF payment_calls_uncounted(1) _ refl] preservesD [OF payment_calls_uncounted(2) _ refl]
    preservesD [OF payment_calls_uncounted(3) _ refl] stats_ok_view
  by metis+

section \<open>Calls that count\<close>

lemma merchant_share:
  assumes "finite (dom (mstats s))" and "mstats t = (mstats s)(m := Some x)"
  shows "payments_sum t = payments_sum s + int (mst_total_payments x)
      - int (mst_total_payments (st_get_merchant_stats m s))"
    "refunds_sum t = refunds_sum s + int (mst_total_refunds x)
      - int (mst_total_refunds (st_get_merchant_stats m s))"
    "finite (dom (mstats t))"
  using assms
  by (simp_all add: payments_sum_def refunds_sum_def map_total_upd st_get_merchant_stats_def
      unwrap_or_def empty_merchant_stats_def split: option.split)

lemma paid_ok:
  assumes "stats_ok s" and "active_merchants t = active_merchants s"
    and "mstats t = (mstats s)(m := Some ((st_get_merchant_stats m s)
      \<lparr>mst_total_payments := mst_total_payments (st_get_merchant_stats m s) + 1, mst_total_volume := v\<rparr>))"
    and "st_get_global_stats t = (st_get_global_stats s)
      \<lparr>gs_total_payments := gs_total_payments (st_get_global_stats s) + 1, gs_total_volume := w\<rparr>"
  shows "stats_ok t"
  using assms merchant_share [OF _ assms(3)] by (simp add: stats_ok_def)

lemma paid_globally_ok:
  assumes "stats_ok s" and "active_merchants t = active_merchants s" and "mstats t = mstats s"
    and "gs_total_payments (st_get_global_stats t) = gs_total_payments (st_get_global_stats s) + 1"
    and "gs_total_refunds (st_get_global_stats t) = gs_total_refunds (st_get_global_stats s)"
    and "gs_active_merchants (st_get_global_stats t) = gs_active_merchants (st_get_global_stats s)"
  shows "stats_ok t"
  using assms by (simp add: stats_ok_def payments_sum_def refunds_sum_def)

lemma refunded_ok:
  assumes "stats_ok s" and "active_merchants t = active_merchants s"
    and "mstats t = (mstats s)(m := Some ((st_get_merchant_stats m s)
      \<lparr>mst_total_refunds := mst_total_refunds (st_get_merchant_stats m s) + 1, mst_total_refund_volume := v\<rparr>))"
    and "st_get_global_stats t = (st_get_global_stats s)
      \<lparr>gs_total_refunds := gs_total_refunds (st_get_global_stats s) + 1, gs_total_refund_volume := w\<rparr>"
  shows "stats_ok t"
  using assms merchant_share [OF _ assms(3)] by (simp add: stats_ok_def)

lemma payment_steps_keep:
  "transfer_with_fee h payer merch tok n s = (Ok r, t) \<Longrightarrow>
     instance_st t = instance_st s \<and> k_Merchant (persistent_st t) = k_Merchant (persistent_st s)"
  "st_add_merchant_payment_id a k s = (Ok z, t) \<Longrightarrow>
     instance_st t = instance_st s \<and> k_Merchant (persistent_st t) = k_Merchant (persistent_st s)"
  "st_add_payer_payment_id a k s = (Ok z, t) \<Longrightarrow>
     instance_st t = instance_st s \<and> k_Merchant (persistent_st t) = k_Merchant (persistent_st s)"
  "flag_large_payment a n s = (Ok z, t) \<Longrightarrow>
     instance_st t = instance_st s \<and> k_Merchant (persistent_st t) = k_Merchant (persistent_st s)"
  by (auto dest: payment_step_OkD)

lemma process_with_signature_counts:
  assumes "process_payment_with_signature h payer k merch tok n memo tags nc ts sg pk s = (Ok z, t)"
    and "stats_ok s" and "merchants.well_keyed s"
  shows "stats_ok t"
  using assms unfolding process_payment_with_signature_def
  apply (simp add: exec_simps Let_def split_beta take_rate_limit_slot_Ok_iff)
  apply (elim exE conjE)
  apply (drule payment_steps_keep, drule payment_steps_keep, drule payment_steps_keep, drule payment_steps_keep,
      drule add_merchant_payment_stats_OkD(2), drule add_global_payment_stats_OkD(2))
  apply (frule (1) merchants.well_keyedD [rotated])
  apply (rule paid_ok [of s t merch], assumption)
    apply (auto simp: active_merchants_def storage_defs)
  done

lemma process_with_nonce_counts:
  assumes "process_payment_with_nonce h payer k merch tok n memo tags nc s = (Ok z, t)"
    and "stats_ok s" and "merchants.well_keyed s"
  shows "stats_ok t"
  using assms unfolding process_payment_with_nonce_def
  apply (simp add: exec_simps Let_def split_beta)
  apply (elim exE conjE)
  apply (drule payment_steps_keep, drule payment_steps_keep, drule payment_steps_keep, drule payment_steps_keep,
      drule add_merchant_payment_stats_OkD(2), drule add_global_payment_stats_OkD(2))
  apply (frule (1) merchants.well_keyedD [rotated])
  apply (rule paid_ok [of s t merch], assumption)
    apply (auto simp: active_merchants_def storage_defs)
  done

lemma pay_request_counts:
  assumes "pay_payment_request h payer k s = (Ok z, t)" and "stats_ok s"
  shows "stats_ok t"
  using assms unfolding pay_payment_request_def
  apply (clarsimp simp: exec_simps split: if_splits)
  apply (drule payment_steps_keep, drule payment_steps_keep, drule add_global_payment_stats_OkD(2))
  apply (rule paid_globally_ok, assumption)
      apply (rule active_merchants_same)
      apply (simp_all add: storage_defs Let_def split: option.split)
  done

lemma execute_refund_counts:
  assumes "execute_refund h rid s = (Ok z, t)" and "stats_ok s"
  shows "stats_ok t"
  using assms
  by (clarsimp simp: execute_refund_def add_merchant_refund_stats_def add_global_refund_stats_def exec_simps)
    (rule refunded_ok, assumption, rule active_merchants_same, simp_all add: storage_defs)

lemma resolve_dispute_counts:
  assumes "resolve_dispute h a did rs f s = (Ok z, t)" and "stats_ok s"
  shows "stats_ok t"
  using assms
  apply (clarsimp simp: resolve_dispute_def add_merchant_refund_stats_def add_global_refund_stats_def
      exec_simps Let_def split: if_splits)
   apply (rule refunded_ok, assumption, rule active_merchants_same, simp_all add: storage_defs)[1]
  apply (rule stats_ok_view, assumption, simp add: counted_in_def storage_defs)
  done


lemma ignored_ids_keep_counted:
  "st_add_merchant_payment_id a k s = (Ok (), t) \<or> (\<exists>e. st_add_merchant_payment_id a k s = (Err e, t)) \<Longrightarrow>
   instance_st t = instance_st s \<and> k_Merchant (persistent_st t) = k_Merchant (persistent_st s)"
  "st_add_payer_payment_id a k s = (Ok (), t) \<or> (\<exists>e. st_add_payer_payment_id a k s = (Err e, t)) \<Longrightarrow>
   instance_st t = instance_st s \<and> k_Merchant (persistent_st t) = k_Merchant (persistent_st s)"
  by (auto simp: st_add_merchant_payment_id_def st_add_payer_payment_id_def exec_comp
      Let_def publish_def extend_ttl_def upd_persistent_def split: if_splits)

lemma execute_multisig_counts:
  assumes "execute_multisig_payment h a k s = (Ok z, t)" and "stats_ok s"
  shows "stats_ok t"
  using assms unfolding execute_multisig_payment_def
  apply (simp add: if_some_guard_Ok_iff exec_simps del: if_some_Ok_iff)
  apply (elim exE conjE)
  apply (drule ignored_ids_keep_counted(1), drule ignored_ids_keep_counted(2), drule add_global_payment_stats_OkD(2))
  apply (rule paid_globally_ok, assumption)
      apply (rule active_merchants_same)
      apply (simp_all add: storage_defs)
  done

text \<open>
  A batch counts its items in the merchants' statistics as it records them, and in the
  global ones at the end; \<open>stats_ok\<close> holds in between with the accumulator in place of
  the stored statistics.
\<close>

lemma well_keyed_same:
  "merchants.well_keyed s \<Longrightarrow> k_Merchant (persistent_st t) = k_Merchant (persistent_st s) \<Longrightarrow>
   merchants.well_keyed t"
  by (simp add: merchants.well_keyed_def st_get_merchant_def)

lemma record_batch_item_cut:
  assumes "record_batch_item payer ts g item s = (Ok g', t)"
  obtains u v where "instance_st v = instance_st s" "k_Merchant (persistent_st u) = k_Merchant (persistent_st s)"
    and "g' = g\<lparr>gs_total_payments := gs_total_payments g + 1,
      gs_total_volume := i128_sat_add (gs_total_volume g) (bi_amount item)\<rparr>"
    and "v = (case st_get_merchant (bi_merchant_address item) u of None \<Rightarrow> u
      | Some m \<Rightarrow> st_set_merchant (m\<lparr>m_total_received := m_total_received m + bi_amount item\<rparr>) u)"
    and "add_merchant_payment_stats (bi_merchant_address item) (bi_amount item) v = (Ok (), t)"
proof -
  from assms obtain u0 u v where *: "st_add_merchant_payment_id (bi_merchant_address item) (bi_order_id item)
        (st_set_payment (batch_record payer ts item) s) = (Ok (), u0)"
      "st_add_payer_payment_id payer (bi_order_id item) u0 = (Ok (), u)"
      "add_merchant_payment_stats (bi_merchant_address item) (bi_amount item) v = (Ok (), t)"
    and g': "g' = g\<lparr>gs_total_payments := gs_total_payments g + 1,
      gs_total_volume := i128_sat_add (gs_total_volume g) (bi_amount item)\<rparr>"
    and v: "v = (case st_get_merchant (bi_merchant_address item) u of None \<Rightarrow> u
      | Some m \<Rightarrow> st_set_merchant (m\<lparr>m_total_received := m_total_received m + bi_amount item\<rparr>) u)"
    unfolding record_batch_item_def batch_record_def
    by (fastforce simp: exec_simps split: option.splits)
  have "instance_st v = instance_st s" "k_Merchant (persistent_st u) = k_Merchant (persistent_st s)"
    using payment_steps_keep(2) [OF *(1)] payment_steps_keep(3) [OF *(2)] v by (simp_all add: storage_defs split: option.splits)
  from that [OF this g' v *(3)] show thesis .
qed

lemma record_batch_item_counts:
  assumes "record_batch_item payer ts g item s = (Ok g', t)"
    and ok: "stats_ok (st_set_global_stats g s)" and typed: "merchants.well_keyed s"
  shows "stats_ok (st_set_global_stats g' t) \<and> merchants.well_keyed t"
  using assms(1)
proof (rule record_batch_item_cut)
  fix u v
  assume inst: "instance_st v = instance_st s" and u: "k_Merchant (persistent_st u) = k_Merchant (persistent_st s)"
    and g': "g' = g\<lparr>gs_total_payments := gs_total_payments g + 1,
      gs_total_volume := i128_sat_add (gs_total_volume g) (bi_amount item)\<rparr>"
    and v: "v = (case st_get_merchant (bi_merchant_address item) u of None \<Rightarrow> u
      | Some m \<Rightarrow> st_set_merchant (m\<lparr>m_total_received := m_total_received m + bi_amount item\<rparr>) u)"
    and "add_merchant_payment_stats (bi_merchant_address item) (bi_amount item) v = (Ok (), t)"
  note t = add_merchant_payment_stats_OkD(2) [OF this(5)]
  from typed u have "merchants.well_keyed u" by (rule well_keyed_same)
  have "merchants.well_keyed v \<and> active_merchants v = active_merchants s"
  proof (cases "st_get_merchant (bi_merchant_address item) u")
    case None
    with v \<open>merchants.well_keyed u\<close> active_merchants_same [OF u] show ?thesis by simp
  next
    case (Some m)
    have "active_merchants v = active_merchants u"
      by (rule active_merchants_edit [OF _ Some \<open>merchants.well_keyed u\<close>,
            of _ "m\<lparr>m_total_received := m_total_received m + bi_amount item\<rparr>"])
        (simp_all add: v Some, simp add: storage_defs)
    with Some v active_merchants_same [OF u] merchants.well_keyed_put [OF \<open>merchants.well_keyed u\<close>]
    show ?thesis by simp
  qed
  then have "merchants.well_keyed v" and same: "active_merchants v = active_merchants s" by simp_all
  show ?thesis
  proof
    show "merchants.well_keyed t" by (rule well_keyed_same [OF \<open>merchants.well_keyed v\<close>]) (simp add: t storage_defs)
    show "stats_ok (st_set_global_stats g' t)"
      by (rule paid_ok [OF ok, of _ "bi_merchant_address item"])
        (use same inst in \<open>simp_all add: t g' active_merchants_def storage_defs\<close>)
  qed
qed

lemma record_batch_counts:
  "fold_each items (record_batch_item payer ts) g s = (Ok r, t) \<Longrightarrow> merchants.well_keyed s \<Longrightarrow>
   stats_ok (st_set_global_stats g s) \<Longrightarrow> stats_ok (st_set_global_stats r t)"
  by (induction items arbitrary: g s) (auto simp: exec_simps dest!: record_batch_item_counts)

lemma batch_counts:
  fixes s t :: "'w env"
  assumes "batch_payment h payer items s = (Ok z, t)" and "stats_ok s" and typed: "merchants.well_keyed s"
  shows "stats_ok t"
proof -
  have keep: "preserves (\<lambda>s. counted_in s = v) (fold_each items (validate_batch_item h) [])"
    "preserves (\<lambda>s. counted_in s = v) (transfer_groups h payer groups)"
    "preserves (\<lambda>s. counted_in s = v) (for_each items (\<lambda>item. publish T_payment_processed
       (Some (bi_merchant_address item)) [StrV (bi_order_id item), AddrV payer, I128V (bi_amount item)]))" for groups v
    unfolding validate_batch_item_def transfer_groups_def take_rate_limit_slot_def st_increment_rate_limit_counter_def
    by (rule pres preserves_modify | simp add: counted_in_def storage_defs Let_def extend_ttl_def)+
  from assms(1) obtain seen s1 groups s2 s3 g s4 where
      val: "fold_each items (validate_batch_item h) [] s = (Ok seen, s1)"
    and grp: "group_payments items s1 = (Ok groups, s2)"
    and tra: "transfer_groups h payer groups s2 = (Ok (), s3)"
    and rec: "fold_each items (record_batch_item payer (now s3)) (st_get_global_stats s3) s3 = (Ok g, s4)"
    and pub: "for_each items (\<lambda>item. publish T_payment_processed (Some (bi_merchant_address item))
       [StrV (bi_order_id item), AddrV payer, I128V (bi_amount item)]) (st_set_global_stats g s4) = (Ok (), t)"
    unfolding batch_payment_def by (auto simp: exec_simps)
  have same: "counted_in w = counted_in u"
    if "preserves (\<lambda>s. counted_in s = counted_in u) m" "m u = (Ok x, w)" for u w x and m :: "('w, 'b) contract"
    using preservesD [OF that] by simp
  have "counted_in s3 = counted_in s"
    using same [OF keep(1) val] same [OF preserves_group_payments grp] same [OF keep(2) tra] by simp
  then have "stats_ok s3" "merchants.well_keyed s3"
    using stats_ok_view [OF assms(2), of s3] well_keyed_same [OF typed, of s3] by (simp_all add: counted_in_def)
  then have "stats_ok (st_set_global_stats (st_get_global_stats s3) s3)" "merchants.well_keyed s3"
    by (simp_all add: stats_ok_def payments_sum_def refunds_sum_def active_merchants_def storage_defs)
  from record_batch_counts [OF rec this(2,1)] have "stats_ok (st_set_global_stats g s4)" .
  then show ?thesis by (rule stats_ok_view) (rule same [OF keep(3) pub])
qed


text \<open>The operations on merchants keep the number of active ones.\<close>

lemma activity_counts:
  assumes "stats_ok s" and "mstats t = mstats s"
    and "gs_total_payments (st_get_global_stats t) = gs_total_payments (st_get_global_stats s)"
    and "gs_total_refunds (st_get_global_stats t) = gs_total_refunds (st_get_global_stats s)"
    and "finite (active_merchants t)" and "gs_active_merchants (st_get_global_stats t) \<le> card (active_merchants t)"
  shows "stats_ok t"
  using assms by (simp add: stats_ok_def payments_sum_def refunds_sum_def)

lemma activated:
  assumes "stats_ok s" and "a \<notin> active_merchants s" and "active_merchants t = insert a (active_merchants s)"
    and "mstats t = mstats s" and "st_get_global_stats t = (st_get_global_stats s)
      \<lparr>gs_active_merchants := gs_active_merchants (st_get_global_stats s) + 1\<rparr>"
  shows "stats_ok t"
  by (rule activity_counts [OF assms(1,4)]) (use assms in \<open>simp_all add: stats_ok_def\<close>)

lemma deactivated:
  assumes "stats_ok s" and "active_merchants t = active_merchants s - {a}" and "mstats t = mstats s"
    and "st_get_global_stats t = (if 0 < gs_active_merchants (st_get_global_stats s) then (st_get_global_stats s)
      \<lparr>gs_active_merchants := gs_active_merchants (st_get_global_stats s) - 1\<rparr> else st_get_global_stats s)"
  shows "stats_ok t"
proof (rule activity_counts [OF assms(1,3)])
  have fin: "finite (active_merchants s)" and le: "gs_active_merchants (st_get_global_stats s) \<le> card (active_merchants s)"
    using assms(1) by (simp_all add: stats_ok_def)
  show "finite (active_merchants t)" using fin assms(2) by simp
  have "card (active_merchants s) - 1 \<le> card (active_merchants s - {a})"
    using fin by (simp add: card_Diff_singleton_if)
  moreover have "gs_active_merchants (st_get_global_stats t) = gs_active_merchants (st_get_global_stats s) - 1"
    using assms(4) by (cases "0 < gs_active_merchants (st_get_global_stats s)") simp_all
  ultimately show "gs_active_merchants (st_get_global_stats t) \<le> card (active_merchants t)"
    using le unfolding assms(2) by linarith
qed (use assms(4) in simp_all)

lemma cleared_merchant: "st_get_merchant a (st_clear_auth_fail_count ad s) = st_get_merchant a s"
  by (simp add: storage_defs)

lemma deactivate_counts:
  assumes "deactivate_merchant ad a s = (Ok z, t)" and "stats_ok s" and "merchants.well_keyed s"
  shows "stats_ok t"
  using assms unfolding deactivate_merchant_def
  apply (clarsimp simp: exec_simps Let_def cleared_merchant split del: if_split)
  apply (frule (1) merchants.well_keyedD [rotated])
  apply (rule deactivated [of s _ a], assumption)
    apply (auto simp: active_merchants_def storage_defs)
  done

lemma reactivate_counts:
  assumes "reactivate_merchant ad a s = (Ok z, t)" and "stats_ok s" and "merchants.well_keyed s"
  shows "stats_ok t"
  using assms unfolding reactivate_merchant_def
  apply (clarsimp simp: exec_simps Let_def cleared_merchant)
  apply (frule (1) merchants.well_keyedD [rotated])
  apply (rule activated [of s a], assumption)
    apply (auto simp: active_merchants_def storage_defs)
  done

lemma reveal_counts:
  assumes "reveal_merchant_registration h a n d ci cat nc s = (Ok z, t)" and "stats_ok s"
  shows "stats_ok t"
  using assms unfolding reveal_merchant_registration_def
  apply (clarsimp simp: exec_simps Let_def split: if_splits)
  apply (rule activated [of s a], assumption)
    apply (auto simp: active_merchants_def storage_defs)
  done

lemma active_merchants_register:
  assumes "st_get_merchant a s = None" and "merchants.well_keyed s" and "m_active new"
    and "st_get_merchant b s = Some r" and "m_active r' = m_active r"
    and "k_Merchant (persistent_st t) = (k_Merchant (persistent_st s))(a := Some new, m_address r := Some r')"
  shows "active_merchants t = insert a (active_merchants s)"
proof -
  have "m_address r = b" "b \<noteq> a" using merchants.well_keyedD [OF assms(2,4)] assms(1,4) by auto
  with assms show ?thesis by (auto simp: active_merchants_def st_get_merchant_def)
qed

lemma register_counts:
  assumes "register_merchant a n d ci cat ref s = (Ok z, t)" and "stats_ok s" and "merchants.well_keyed s"
  shows "stats_ok t"
proof (rule activated [OF assms(2)])
  show "a \<notin> active_merchants s"
    using assms(1) by (auto simp: register_merchant_def exec_simps active_merchants_def)
  show "active_merchants t = insert a (active_merchants s)"
  proof (cases ref)
    case None
    with assms(1) show ?thesis unfolding register_merchant_def
      by (clarsimp simp: exec_simps) (auto simp: active_merchants_def storage_defs)
  next
    case (Some b)
    let ?new = "\<lparr>m_address = a, m_name = n, m_description = d, m_contact_info = ci, m_category = cat,
      m_active = True, m_verified = False, m_registered_at = now s, m_total_received = 0, m_referral_count = 0\<rparr>"
    from Some assms(1) obtain r where new: "st_get_merchant a s = None" "b \<noteq> a" "k_Merchant (persistent_st s) b = Some r"
      and t: "k_Merchant (persistent_st t) = (k_Merchant (persistent_st s))
        (a := Some ?new, m_address r := Some (r\<lparr>m_referral_count := m_referral_count r + 1\<rparr>))"
      unfolding register_merchant_def by (clarsimp simp: exec_simps) (simp add: storage_defs)
    have "st_get_merchant b s = Some r" using new(3) by (simp add: st_get_merchant_def)
    from active_merchants_register [OF new(1) assms(3) _ this _ t] show ?thesis by simp
  qed
  show "mstats t = mstats s" "st_get_global_stats t = (st_get_global_stats s)
      \<lparr>gs_active_merchants := gs_active_merchants (st_get_global_stats s) + 1\<rparr>"
    using assms(1) unfolding register_merchant_def
    by (cases ref; clarsimp simp: exec_simps; simp add: storage_defs)+
qed

lemma profile_edit:
  assumes "stats_ok s" and "active_merchants t = active_merchants s"
    and "mstats t = mstats s" and "i_GlobalStats (instance_st t) = i_GlobalStats (instance_st s)"
  shows "stats_ok t"
  using assms by (simp add: stats_ok_def payments_sum_def refunds_sum_def st_get_global_stats_def)

lemma profile_counts:
  assumes "stats_ok s" and "merchants.well_keyed s"
  shows "update_merchant a n d ci cat s = (Ok z, t) \<Longrightarrow> stats_ok t"
    "verify_merchant ad a s = (Ok z, t) \<Longrightarrow> stats_ok t" "unverify_merchant ad a s = (Ok z, t) \<Longrightarrow> stats_ok t"
  unfolding update_merchant_def verify_merchant_def unverify_merchant_def
  by (clarsimp simp: exec_simps cleared_merchant, frule merchants.well_keyedD [OF assms(2)],
      rule profile_edit [OF assms(1)], auto simp: active_merchants_def storage_defs)+

lemma commit_uncounted: "preserves (\<lambda>s. counted_in s = v) (commit_merchant_registration a c)"
  unfolding commit_merchant_registration_def
  by (rule pres preserves_modify | simp add: counted_in_def storage_defs Let_def)+

section \<open>Every call\<close>

lemma call_counts:
  assumes "run_call h c s = (Ok (), t)" and "stats_ok s" and "merchants.well_keyed s"
  shows "stats_ok t"
proof -
  have keep: "stats_ok t" if "\<And>v. preserves (\<lambda>u. counted_in u = v) m" "m s = (Ok (), t)" for m
    using preservesD [OF that] by (blast intro: stats_ok_view [OF assms(2)])
  show ?thesis
  proof (cases "quiet_call c")
    case True
    from keep [OF uncounted.pres_quiet_call [OF this] assms(1)] show ?thesis .
  next
    case False
    show ?thesis
    proof (cases "\<exists>mc. c = MerchantC mc")
      case True
      then obtain mc where "c = MerchantC mc" ..
      then show ?thesis
        using assms
        by (cases mc) (auto simp: exec_simps get_merchant_def is_registered_def
          intro: keep [OF commit_uncounted] reveal_counts register_counts profile_counts
            deactivate_counts reactivate_counts)
    next
      case other: False
      with False show ?thesis
        using assms
        by (auto simp: quiet_call_def exec_simps
          split: call.splits payment_call.splits refund_call.splits dispute_call.splits
            multisig_call.splits request_call.splits
          intro: process_with_signature_counts process_with_nonce_counts batch_counts
            execute_refund_counts resolve_dispute_counts execute_multisig_counts pay_request_counts
            payment_calls_count)
    qed
  qed
qed

lemma statistics_reachable:
  assumes "steps h others s t" and "fresh s"
  shows "stats_ok t"
proof -
  have "stats_ok t \<and> stores_typed t"
    using assms(1)
  proof (rule steps_invariant)
    show "stats_ok s \<and> stores_typed s"
      using assms(2) stores_typed_reachable [OF steps_refl assms(2)]
      by (simp add: stats_ok_def payments_sum_def refunds_sum_def active_merchants_def fresh_def
          storage_defs empty_instance_def empty_persistent_def)
    show "preserves (\<lambda>s. stats_ok s \<and> stores_typed s) (run_call h c)" for c
    proof (rule preservesI)
      fix u z v
      assume run: "run_call h c u = (Ok z, v)" and u: "stats_ok u \<and> stores_typed u"
      then have "merchants.well_keyed u" by (simp add: stores_typed_def)
      with run u show "stats_ok v \<and> stores_typed v"
        using call_counts [of h c u v] preservesD [OF stores_typed.pres_run_call run] by simp
    qed
    show "stats_ok v \<and> stores_typed v" if "stats_ok u \<and> stores_typed u" "time_passes others u v" for u v
      using that stats_ok_view [of u v] passing_view(1,2) [OF that(2)] stores_typed_passing
      by (simp add: counted_in_def) blast
  qed
  then show ?thesis ..
qed


text \<open>
  C13. In every reachable state the statistics agree with each other and with the store:
  the refunds counted for the merchants add up to the global count, the payments counted
  for the merchants never exceed it (payment requests and multisig payments are counted
  globally only), and the counter of active merchants never exceeds their number. It can
  stay below it: deactivating an inactive merchant decrements it once more.
\<close>

theorem statistics_add_up:
  assumes "steps h others s t" and "fresh s"
  shows "refunds_sum t = int (gs_total_refunds (st_get_global_stats t)) \<and>
    payments_sum t \<le> int (gs_total_payments (st_get_global_stats t)) \<and>
    gs_active_merchants (st_get_global_stats t) \<le> card (active_merchants t)"
  using statistics_reachable [OF assms] by (simp add: stats_ok_def)

section \<open>Example\<close>

text \<open>
  A request is paid and the merchant is deactivated twice: the merchant has no statistics,
  and the counter says that no merchant is active although one is.
\<close>

definition uneven_run :: "book env" where
  "uneven_run = run_calls sample_host (life_calls @
     [MerchantC (RegisterMerchant (Addr 2) ''cafe'' ''ab'' ''cd'' Retail None),
      RequestC (CreatePaymentRequest (Addr 1) ''q1'' (Addr 9) 40 ''tea'' 100),
      RequestC (PayPaymentRequest (Addr 2) ''q1''),
      MerchantC (DeactivateMerchantCall (Addr 5) (Addr 1)),
      MerchantC (DeactivateMerchantCall (Addr 5) (Addr 1))]) launch"

lemma uneven_run_observed:
  "observe (\<lambda>s. (i_MS (instance_st s), map_option gs_total_payments (i_GlobalStats (instance_st s)),
     map_option gs_active_merchants (i_GlobalStats (instance_st s)),
     \<lambda>a. map_option m_active (k_Merchant (persistent_st s) a))) uneven_run =
   (\<lambda>_. None, Some 1, Some 0, \<lambda>a. if a = Addr 1 then Some False else if a = Addr 2 then Some True else None)"
  unfolding uneven_run_def life_calls_def run_calls_def launch_def
  by (simp add: invoke_def life_ops create_payment_request_def pay_payment_request_def payment_block_defs
      deactivate_merchant_def exec_comp storage_defs helper_defs reference_defs require_admin_rate_limited_def
      const_defs in_i128_def u64_sat_add_def u64_checked_add_def Let_def observe_def fun_eq_iff)

lemmas uneven_run_stored = uneven_run_observed [unfolded observe_def prod.inject]

theorem statistics_add_up_witness:
  "refunds_sum uneven_run = 0 \<and> payments_sum uneven_run = 0 \<and>
   gs_total_payments (st_get_global_stats uneven_run) = 1 \<and>
   gs_active_merchants (st_get_global_stats uneven_run) = 0 \<and> active_merchants uneven_run = {Addr 2}"
proof -
  have "steps sample_host (\<lambda>w w'. w' = w) launch uneven_run"
    unfolding uneven_run_def by (rule run_calls_steps)
  from statistics_add_up [OF this fresh_launch]
  have "refunds_sum uneven_run = int (gs_total_refunds (st_get_global_stats uneven_run))" by blast
  moreover have "a \<in> active_merchants uneven_run \<longleftrightarrow> a = Addr 2" for a
    using uneven_run_stored [THEN conjunct2, THEN conjunct2, THEN conjunct2, THEN fun_cong, of a]
    by (cases "k_Merchant (persistent_st uneven_run) a")
      (auto simp: active_merchants_def st_get_merchant_def split: if_splits)
  ultimately show ?thesis using uneven_run_stored
    by (auto simp: refunds_sum_def payments_sum_def st_get_global_stats_def unwrap_or_def)
qed

end
