(* ===== verification/Router.thy ===== *)
theory Router
  imports Prelude Types
begin

text \<open>
  The router contract (\<open>contracts/router/src/lib.rs\<close>): blue-green slots and the canary
  split. It is a contract of its own with its own instance storage. None of its
  functions returns a \<open>Result\<close>; a failed \<open>expect\<close> or \<open>assert!\<close> is a trap, so the
  error type stays open.
\<close>

section \<open>State\<close>

datatype slot = Blue | Green

record router_env =
  rt_sequence :: nat
  rt_auths :: "address set"
  rk_BlueContract :: "address option"
  rk_GreenContract :: "address option"
  rk_ActiveSlot :: "slot option"
  rk_StableContract :: "address option"
  rk_CanaryContract :: "address option"
  rk_CanaryWeight :: "nat option"
  rk_Admin :: "address option"
  rt_events :: "(string \<times> (slot + nat)) list"

type_synonym ('e, 'a) router = "(router_env, 'e, 'a) exec"

definition router_require_auth :: "address \<Rightarrow> ('e, unit) router" where
  [exec_comp]: "router_require_auth a s = (if a \<in> rt_auths s then (Ok (), s) else (Trap AuthTrap, s))"

definition router_publish :: "string \<Rightarrow> slot + nat \<Rightarrow> ('e, unit) router" where
  "router_publish t d = modify (\<lambda>s. s\<lparr>rt_events := rt_events s @ [(t, d)]\<rparr>)"

section \<open>Operations\<close>

definition router_require_admin :: "address \<Rightarrow> ('e, unit) router" where
  "router_require_admin caller =
     bind (expect_some rk_Admin) (\<lambda>admin. assert_that (caller = admin) PanicTrap)"

definition router_set_admin :: "address \<Rightarrow> ('e, unit) router" where
  "router_set_admin admin =
     bind (gets rk_Admin) (\<lambda>current.
     bind (if_some current (\<lambda>c. router_require_auth c)) (\<lambda>_.
     modify (\<lambda>s. s\<lparr>rk_Admin := Some admin\<rparr>)))"

definition set_blue_contract :: "address \<Rightarrow> address \<Rightarrow> ('e, unit) router" where
  "set_blue_contract admin blue_id =
     bind (router_require_auth admin) (\<lambda>_.
     bind (router_require_admin admin) (\<lambda>_.
     modify (\<lambda>s. s\<lparr>rk_BlueContract := Some blue_id\<rparr>)))"

definition set_green_contract :: "address \<Rightarrow> address \<Rightarrow> ('e, unit) router" where
  "set_green_contract admin green_id =
     bind (router_require_auth admin) (\<lambda>_.
     bind (router_require_admin admin) (\<lambda>_.
     modify (\<lambda>s. s\<lparr>rk_GreenContract := Some green_id\<rparr>)))"

definition set_active_slot :: "address \<Rightarrow> slot \<Rightarrow> ('e, unit) router" where
  "set_active_slot admin sl =
     bind (router_require_auth admin) (\<lambda>_.
     bind (router_require_admin admin) (\<lambda>_.
     bind (case sl of
             Blue \<Rightarrow> bind (gets rk_BlueContract) (\<lambda>c. assert_that (c \<noteq> None) PanicTrap)
           | Green \<Rightarrow> bind (gets rk_GreenContract) (\<lambda>c. assert_that (c \<noteq> None) PanicTrap)) (\<lambda>_.
     bind (modify (\<lambda>s. s\<lparr>rk_ActiveSlot := Some sl\<rparr>)) (\<lambda>_.
     router_publish ''blue_green_cutover'' (Inl sl)))))"

definition set_stable_contract :: "address \<Rightarrow> address \<Rightarrow> ('e, unit) router" where
  "set_stable_contract admin stable_id =
     bind (router_require_auth admin) (\<lambda>_.
     bind (router_require_admin admin) (\<lambda>_.
     modify (\<lambda>s. s\<lparr>rk_StableContract := Some stable_id\<rparr>)))"

definition set_canary_contract :: "address \<Rightarrow> address \<Rightarrow> ('e, unit) router" where
  "set_canary_contract admin canary_id =
     bind (router_require_auth admin) (\<lambda>_.
     bind (router_require_admin admin) (\<lambda>_.
     modify (\<lambda>s. s\<lparr>rk_CanaryContract := Some canary_id\<rparr>)))"

definition set_canary_weight :: "address \<Rightarrow> nat \<Rightarrow> ('e, unit) router" where
  "set_canary_weight admin weight =
     bind (router_require_auth admin) (\<lambda>_.
     bind (router_require_admin admin) (\<lambda>_.
     bind (assert_that (weight \<le> 100) PanicTrap) (\<lambda>_.
     modify (\<lambda>s. s\<lparr>rk_CanaryWeight := Some weight\<rparr>))))"

definition get_canary_weight :: "router_env \<Rightarrow> nat" where
  "get_canary_weight s = (case rk_CanaryWeight s of Some w \<Rightarrow> w | None \<Rightarrow> 0)"

definition get_active_slot :: "router_env \<Rightarrow> slot" where
  "get_active_slot s = (case rk_ActiveSlot s of Some sl \<Rightarrow> sl | None \<Rightarrow> Blue)"

definition get_blue_contract :: "router_env \<Rightarrow> address option" where
  "get_blue_contract s = rk_BlueContract s"

definition get_green_contract :: "router_env \<Rightarrow> address option" where
  "get_green_contract s = rk_GreenContract s"

definition get_stable_contract :: "router_env \<Rightarrow> address option" where
  "get_stable_contract s = rk_StableContract s"

definition get_canary_contract :: "router_env \<Rightarrow> address option" where
  "get_canary_contract s = rk_CanaryContract s"

definition route_call :: "('e, address) router" where
  "route_call =
     bind (gets get_canary_weight) (\<lambda>canary_weight.
     bind (gets rt_sequence) (\<lambda>ledger_seq.
     if 0 < canary_weight then
       let bucket = ledger_seq mod 100 in
       if bucket < canary_weight
       then bind (expect_some rk_CanaryContract) (\<lambda>canary.
            bind (router_publish ''routed_to_canary'' (Inr ledger_seq)) (\<lambda>_. ret canary))
       else bind (expect_some rk_StableContract) (\<lambda>stable.
            bind (router_publish ''routed_to_stable'' (Inr ledger_seq)) (\<lambda>_. ret stable))
     else
       bind (gets get_active_slot) (\<lambda>active_slot.
       case active_slot of
         Blue \<Rightarrow> bind (expect_some rk_BlueContract) (\<lambda>blue.
                 bind (router_publish ''routed_to_blue'' (Inr ledger_seq)) (\<lambda>_. ret blue))
       | Green \<Rightarrow> bind (expect_some rk_GreenContract) (\<lambda>green.
                  bind (router_publish ''routed_to_green'' (Inr ledger_seq)) (\<lambda>_. ret green)))))"

section \<open>Calls and their invariant\<close>

datatype router_call =
    SetRouterAdmin address | SetBlue address address | SetGreen address address
  | SetActiveSlot address slot | SetStable address address | SetCanary address address
  | SetCanaryWeight address nat

primrec run_router_call :: "router_call \<Rightarrow> ('e, unit) router" where
  "run_router_call (SetRouterAdmin a) = router_set_admin a"
| "run_router_call (SetBlue a c) = set_blue_contract a c"
| "run_router_call (SetGreen a c) = set_green_contract a c"
| "run_router_call (SetActiveSlot a sl) = set_active_slot a sl"
| "run_router_call (SetStable a c) = set_stable_contract a c"
| "run_router_call (SetCanary a c) = set_canary_contract a c"
| "run_router_call (SetCanaryWeight a w) = set_canary_weight a w"

text \<open>The active slot is configured and the weight is a percentage.\<close>

definition slot_contract :: "slot \<Rightarrow> router_env \<Rightarrow> address option" where
  "slot_contract sl s = (case sl of Blue \<Rightarrow> rk_BlueContract s | Green \<Rightarrow> rk_GreenContract s)"

definition router_ok :: "router_env \<Rightarrow> bool" where
  "router_ok s \<longleftrightarrow> get_canary_weight s \<le> 100 \<and>
     (\<forall>sl. rk_ActiveSlot s = Some sl \<longrightarrow> slot_contract sl s \<noteq> None)"

lemma router_require_auth_Ok_iff [exec_simps]:
  "router_require_auth a s = (Ok z, t) \<longleftrightarrow> a \<in> rt_auths s \<and> t = s"
  by (auto simp: router_require_auth_def)

lemma router_require_admin_Ok_iff [exec_simps]:
  "router_require_admin a s = (Ok z, t) \<longleftrightarrow> rk_Admin s = Some a \<and> t = s"
  by (auto simp: router_require_admin_def exec_simps)

lemma router_publish_Ok_iff [exec_simps]:
  "router_publish e d s = (Ok z, t) \<longleftrightarrow> t = s\<lparr>rt_events := rt_events s @ [(e, d)]\<rparr>"
  by (auto simp: router_publish_def exec_simps)

lemmas router_ops = router_set_admin_def set_blue_contract_def set_green_contract_def
  set_active_slot_def set_stable_contract_def set_canary_contract_def set_canary_weight_def

lemma run_router_call_ok:
  "run_router_call c s = (Ok (), t) \<Longrightarrow> router_ok s \<Longrightarrow> router_ok t"
  by (cases c) (auto simp: router_ops exec_simps router_ok_def slot_contract_def get_canary_weight_def
      split: slot.splits option.splits if_splits)

text \<open>
  C26. Only the administrator changes the router: a call that returns has the
  administrator's authorisation, unless no administrator is set yet and the call sets
  one. It keeps the active slot configured and the weight a percentage.
\<close>

theorem router_changes_need_the_admin:
  assumes "run_router_call c s = (Ok (), t)" and "router_ok s"
  shows "router_ok t \<and> ((\<exists>a. rk_Admin s = Some a \<and> a \<in> rt_auths s) \<or>
    rk_Admin s = None \<and> (\<exists>a. c = SetRouterAdmin a \<and> t = s\<lparr>rk_Admin := Some a\<rparr>))"
proof
  show "router_ok t" using assms by (rule run_router_call_ok)
  show "(\<exists>a. rk_Admin s = Some a \<and> a \<in> rt_auths s) \<or>
      rk_Admin s = None \<and> (\<exists>a. c = SetRouterAdmin a \<and> t = s\<lparr>rk_Admin := Some a\<rparr>)"
    using assms(1) by (cases c) (auto simp: router_ops exec_simps split: option.splits)
qed

section \<open>Routing\<close>

text \<open>
  After a successful cutover to a slot, as long as the canary is off, routing returns
  that slot's contract whatever the ledger number and whatever slot was active before,
  and changes nothing but the event log: the cutover is complete at once.
\<close>

theorem cutover_is_immediate:
  assumes "set_active_slot a sl s = (Ok (), t)" and "get_canary_weight s = 0"
  shows "\<exists>c es. slot_contract sl s = Some c \<and>
    route_call (t\<lparr>rt_sequence := n\<rparr>) = (Ok c, t\<lparr>rt_sequence := n, rt_events := es\<rparr>)"
proof -
  from assms(1) obtain c where c: "slot_contract sl s = Some c"
    and t: "t = s\<lparr>rk_ActiveSlot := Some sl, rt_events := rt_events s @ [(''blue_green_cutover'', Inl sl)]\<rparr>"
    by (cases sl) (auto simp: set_active_slot_def exec_simps slot_contract_def)
  show ?thesis
    using assms(2) c unfolding t
    by (cases sl) (auto simp: slot_contract_def route_call_def get_canary_weight_def
        get_active_slot_def exec_comp router_publish_def)
qed

lemma canary_bucket:
  fixes n w :: nat
  assumes "w \<le> 100"
  shows "card {i \<in> {n..<n + 100}. i mod 100 < w} = w"
proof -
  have "bij_betw (\<lambda>i. i mod 100) {n..<n + 100} {..<100}"
  proof (rule bij_betw_imageI)
    show inj: "inj_on (\<lambda>i. i mod 100) {n..<n + 100}"
    proof (rule inj_onI)
      fix x y assume *: "x \<in> {n..<n + 100}" "y \<in> {n..<n + 100}" "x mod 100 = y mod 100"
      define p q r where "p = x div 100" "q = y div 100" "r = y mod 100"
      have "x = 100 * p + r" "y = 100 * q + r"
        unfolding p_q_r_def using *(3) by (metis mult_div_mod_eq)+
      with *(1,2) show "x = y" by auto
    qed
    have "(\<lambda>i. i mod 100) ` {n..<n + 100} \<subseteq> {..<100}" by auto
    then show "(\<lambda>i. i mod 100) ` {n..<n + 100} = {..<100}"
      by (rule card_subset_eq [rotated]) (simp_all add: card_image [OF inj])
  qed
  then have "bij_betw (\<lambda>i. i mod 100) {i \<in> {n..<n + 100}. i mod 100 < w} {j \<in> {..<100}. j < w}"
    by (rule bij_betw_Collect)  auto
  then have "card {i \<in> {n..<n + 100}. i mod 100 < w} = card {j \<in> {..<100}. j < w}"
    by (rule bij_betw_same_card)
  also have "{j \<in> {..<100}. j < w} = {..<w}" using assms by auto
  finally show ?thesis by simp
qed

text \<open>
  C27. The canary gets exactly its share: of any 100 consecutive ledgers, exactly
  \<open>weight\<close> many route to the canary contract, and all the others to the stable one.
\<close>

theorem canary_share_is_exact:
  assumes "get_canary_weight s = w" and "0 < w" and "w \<le> 100"
    and "rk_CanaryContract s = Some c" and "rk_StableContract s = Some d" and "c \<noteq> d"
  shows "card {i \<in> {n..<n + 100}. fst (route_call (s\<lparr>rt_sequence := i\<rparr>)) = (Ok c :: ('e, address) outcome)} = w \<and>
    (\<forall>i. fst (route_call (s\<lparr>rt_sequence := i\<rparr>)) \<in> {Ok c, Ok d :: ('e, address) outcome})"
proof -
  have route: "fst (route_call (s\<lparr>rt_sequence := i\<rparr>)) =
      (Ok (if i mod 100 < w then c else d) :: ('e, address) outcome)" for i
    using assms by (simp add: route_call_def get_canary_weight_def exec_comp router_publish_def Let_def)
  have "{i \<in> {n..<n + 100}. fst (route_call (s\<lparr>rt_sequence := i\<rparr>)) = (Ok c :: ('e, address) outcome)} =
      {i \<in> {n..<n + 100}. i mod 100 < w}"
    using assms(6) by (auto simp: route)
  with canary_bucket [OF assms(3), of n] show ?thesis by (simp add: route)
qed

section \<open>Example\<close>

definition sample_router :: router_env where
  "sample_router = \<lparr>rt_sequence = 5, rt_auths = {Addr 1}, rk_BlueContract = Some (Addr 10),
     rk_GreenContract = Some (Addr 11), rk_ActiveSlot = None, rk_StableContract = Some (Addr 12),
     rk_CanaryContract = Some (Addr 13), rk_CanaryWeight = None, rk_Admin = Some (Addr 1), rt_events = []\<rparr>"

theorem router_changes_need_the_admin_witness:
  "router_ok (sample_router\<lparr>rk_CanaryWeight := Some 30\<rparr>)"
proof -
  have "run_router_call (SetCanaryWeight (Addr 1) 30) sample_router =
      (Ok () :: (unit, unit) outcome, sample_router\<lparr>rk_CanaryWeight := Some 30\<rparr>)"
    by (simp add: router_ops exec_comp router_require_admin_def sample_router_def)
  moreover have "router_ok sample_router"
    by (simp add: router_ok_def sample_router_def get_canary_weight_def)
  ultimately show ?thesis using router_changes_need_the_admin by fastforce
qed

theorem cutover_is_immediate_witness:
  "\<exists>t. set_active_slot (Addr 1) Green sample_router = (Ok () :: (unit, unit) outcome, t) \<and>
     fst (route_call t) = (Ok (Addr 11) :: (unit, address) outcome)"
proof -
  let ?t = "snd (set_active_slot (Addr 1) Green sample_router :: (unit, unit) outcome \<times> router_env)"
  have run: "set_active_slot (Addr 1) Green sample_router = (Ok () :: (unit, unit) outcome, ?t)"
    by (simp add: router_ops exec_comp router_require_admin_def sample_router_def router_publish_def)
  have "\<exists>c es. slot_contract Green sample_router = Some c \<and>
      route_call (?t\<lparr>rt_sequence := rt_sequence ?t\<rparr>) =
        (Ok c :: (unit, address) outcome, ?t\<lparr>rt_sequence := rt_sequence ?t, rt_events := es\<rparr>)"
    by (rule cutover_is_immediate [OF run]) (simp add: sample_router_def get_canary_weight_def)
  then have "fst (route_call ?t) = (Ok (Addr 11) :: (unit, address) outcome)"
    by (auto simp: sample_router_def slot_contract_def)
  with run show ?thesis by blast
qed

theorem canary_share_is_exact_witness:
  "card {i \<in> {250..<350}. fst (route_call (sample_router\<lparr>rk_CanaryWeight := Some 7, rt_sequence := i\<rparr>))
     = (Ok (Addr 13) :: (unit, address) outcome)} = 7"
proof -
  let ?s = "sample_router\<lparr>rk_CanaryWeight := Some 7\<rparr>"
  have "card {i \<in> {250..<250 + 100}. fst (route_call (?s\<lparr>rt_sequence := i\<rparr>))
     = (Ok (Addr 13) :: (unit, address) outcome)} = 7"
    by (rule conjunct1 [OF canary_share_is_exact [where d = "Addr 12"]])
      (simp_all add: sample_router_def get_canary_weight_def)
  then show ?thesis by (simp add: sample_router_def)
qed

end
