(* ===== verification/CliText.thy ===== *)
theory CliText
  imports Prelude
begin

text \<open>
  Text as the command line tool uses it. A Rust string is its UTF-8 bytes (a HOL
  \<open>string\<close>, whose characters are bytes): \<open>len\<close> counts bytes, the white space of
  \<open>trim\<close> is Unicode's, and padding counts characters, that is, the bytes that do not
  continue a character.
\<close>

definition nl :: string where "nl = [CHR 0x0A]"

definition dq :: string where "dq = [CHR 0x22]"

definition byte :: "char \<Rightarrow> nat" where "byte c = of_char c"

section \<open>White space\<close>

text \<open>The white space characters of one, two and three bytes.\<close>

definition ws1 :: "nat \<Rightarrow> bool" where
  "ws1 a \<longleftrightarrow> 9 \<le> a \<and> a \<le> 13 \<or> a = 32"

definition ws2 :: "nat \<Rightarrow> nat \<Rightarrow> bool" where
  "ws2 a b \<longleftrightarrow> a = 0xC2 \<and> (b = 0x85 \<or> b = 0xA0)"

definition ws3 :: "nat \<Rightarrow> nat \<Rightarrow> nat \<Rightarrow> bool" where
  "ws3 a b c \<longleftrightarrow> a = 0xE1 \<and> b = 0x9A \<and> c = 0x80 \<or>
     a = 0xE2 \<and> b = 0x80 \<and> (0x80 \<le> c \<and> c \<le> 0x8A \<or> c = 0xA8 \<or> c = 0xA9 \<or> c = 0xAF) \<or>
     a = 0xE2 \<and> b = 0x81 \<and> c = 0x9F \<or> a = 0xE3 \<and> b = 0x80 \<and> c = 0x80"

text \<open>The bytes of a white space character at the start of the text; 0 if there is none.\<close>

fun ws_prefix :: "nat list \<Rightarrow> nat" where
  "ws_prefix (a # b # c # _) = (if ws1 a then 1 else if ws2 a b then 2 else if ws3 a b c then 3 else 0)"
| "ws_prefix [a, b] = (if ws1 a then 1 else if ws2 a b then 2 else 0)"
| "ws_prefix [a] = (if ws1 a then 1 else 0)"
| "ws_prefix [] = 0"

text \<open>The same at the end, for the reversed text.\<close>

fun ws_suffix :: "nat list \<Rightarrow> nat" where
  "ws_suffix (c # b # a # _) = (if ws1 c then 1 else if ws2 b c then 2 else if ws3 a b c then 3 else 0)"
| "ws_suffix [c, b] = (if ws1 c then 1 else if ws2 b c then 2 else 0)"
| "ws_suffix [c] = (if ws1 c then 1 else 0)"
| "ws_suffix [] = 0"

lemma ws_prefix_le: "ws_prefix bs \<le> length bs"
  by (induction bs rule: ws_prefix.induct) auto

lemma ws_suffix_le: "ws_suffix bs \<le> length bs"
  by (induction bs rule: ws_suffix.induct) auto

function trim_start :: "string \<Rightarrow> string" where
  "trim_start s = (let n = ws_prefix (map byte s) in if n = 0 then s else trim_start (drop n s))"
  by auto

termination
proof (relation "measure length")
  fix s and n :: nat
  assume "n = ws_prefix (map byte s)" and "n \<noteq> 0"
  with ws_prefix_le [of "map byte s"] show "(drop n s, s) \<in> measure length" by auto
qed simp

function trim_rev :: "string \<Rightarrow> string" where
  "trim_rev s = (let n = ws_suffix (map byte s) in if n = 0 then s else trim_rev (drop n s))"
  by auto

termination
proof (relation "measure length")
  fix s and n :: nat
  assume "n = ws_suffix (map byte s)" and "n \<noteq> 0"
  with ws_suffix_le [of "map byte s"] show "(drop n s, s) \<in> measure length" by auto
qed simp

declare trim_start.simps [simp del] trim_rev.simps [simp del]

definition trim :: "string \<Rightarrow> string" where
  "trim s = rev (trim_rev (rev (trim_start s)))"

text \<open>Text without white space at either end.\<close>

definition trimmed :: "string \<Rightarrow> bool" where
  "trimmed s \<longleftrightarrow> ws_prefix (map byte s) = 0 \<and> ws_suffix (map byte (rev s)) = 0"

lemma trim_trimmed: "trimmed s \<Longrightarrow> trim s = s"
  by (simp add: trim_def trimmed_def trim_start.simps [of s] trim_rev.simps [of "rev s"])

lemma trim_Nil [simp]: "trim [] = []"
  by (rule trim_trimmed) (simp add: trimmed_def)

section \<open>Lines, fields, numbers\<close>

text \<open>\<open>str::lines\<close>: a line ends at a line feed, with the carriage return before it dropped.\<close>

definition strip_cr :: "string \<Rightarrow> string" where
  "strip_cr s = (if s \<noteq> [] \<and> last s = CHR 0x0D then butlast s else s)"

fun lines_loop :: "string \<Rightarrow> string \<Rightarrow> string list" where
  "lines_loop acc [] = (if acc = [] then [] else [acc])"
| "lines_loop acc (c # cs) =
     (if c = CHR 0x0A then strip_cr acc # lines_loop [] cs else lines_loop (acc @ [c]) cs)"

definition lines_of :: "string \<Rightarrow> string list" where
  "lines_of s = lines_loop [] s"

text \<open>\<open>str::splitn\<close>: at most \<open>n\<close> pieces, the last one with the rest.\<close>

fun splitn :: "nat \<Rightarrow> char \<Rightarrow> string \<Rightarrow> string list" where
  "splitn 0 d s = []"
| "splitn (Suc 0) d s = [s]"
| "splitn (Suc (Suc n)) d s =
     (case dropWhile (\<lambda>c. c \<noteq> d) s of
        [] \<Rightarrow> [s]
      | _ # r \<Rightarrow> takeWhile (\<lambda>c. c \<noteq> d) s # splitn (Suc n) d r)"

text \<open>
  \<open>to_lowercase\<close>, for comparisons with ASCII text: the only character outside ASCII whose
  lower case is ASCII is the Kelvin sign; the others map to text with a character outside
  ASCII, as does leaving them alone.
\<close>

definition lower_byte :: "char \<Rightarrow> char" where
  "lower_byte c = (if 65 \<le> byte c \<and> byte c \<le> 90 then char_of (byte c + 32) else c)"

fun lower :: "string \<Rightarrow> string" where
  "lower (a # b # c # s) =
     (if a = CHR 0xE2 \<and> b = CHR 0x84 \<and> c = CHR 0xAA then CHR ''k'' # lower s
      else lower_byte a # lower (b # c # s))"
| "lower (a # s) = lower_byte a # lower s"
| "lower [] = []"

definition is_digit :: "char \<Rightarrow> bool" where
  "is_digit c \<longleftrightarrow> 48 \<le> byte c \<and> byte c \<le> 57"

definition digit_value :: "char \<Rightarrow> int" where
  "digit_value c = int (byte c) - 48"

definition parse_digits :: "string \<Rightarrow> int option" where
  "parse_digits s = (if s \<noteq> [] \<and> list_all is_digit s
     then Some (foldl (\<lambda>n c. 10 * n + digit_value c) 0 s) else None)"

definition in_range :: "int \<Rightarrow> int \<Rightarrow> int option \<Rightarrow> int option" where
  "in_range lo hi x = (case x of Some n \<Rightarrow> if lo \<le> n \<and> n \<le> hi then Some n else None | None \<Rightarrow> None)"

definition parse_i128 :: "string \<Rightarrow> int option" where
  "parse_i128 s = in_range i128_min i128_max
     (case s of
        [] \<Rightarrow> None
      | c # cs \<Rightarrow> if c = CHR ''+'' then parse_digits cs
          else if c = CHR ''-'' then map_option uminus (parse_digits cs) else parse_digits s)"

definition parse_u32 :: "string \<Rightarrow> nat option" where
  "parse_u32 s = map_option nat (in_range 0 (int u32_max)
     (case s of [] \<Rightarrow> None | c # cs \<Rightarrow> if c = CHR ''+'' then parse_digits cs else parse_digits s))"

fun show_nat :: "nat \<Rightarrow> string" where
  "show_nat n = (if n < 10 then [char_of (48 + n)] else show_nat (n div 10) @ [char_of (48 + n mod 10)])"

declare show_nat.simps [simp del]

definition show_int :: "int \<Rightarrow> string" where
  "show_int i = (if i < 0 then CHR ''-'' # show_nat (nat (- i)) else show_nat (nat i))"

section \<open>Padding\<close>

definition continues :: "char \<Rightarrow> bool" where
  "continues c \<longleftrightarrow> 128 \<le> byte c \<and> byte c < 192"

definition char_count :: "string \<Rightarrow> nat" where
  "char_count s = length (filter (\<lambda>c. \<not> continues c) s)"

text \<open>\<open>{:<w$}\<close>\<close>

definition pad :: "nat \<Rightarrow> string \<Rightarrow> string" where
  "pad w s = s @ replicate (w - char_count s) CHR '' ''"

text \<open>\<open>chars().take(n)\<close>\<close>

fun take_chars :: "nat \<Rightarrow> string \<Rightarrow> string" where
  "take_chars n [] = []"
| "take_chars n (c # cs) =
     (if continues c then c # take_chars n cs
      else case n of 0 \<Rightarrow> [] | Suc m \<Rightarrow> c # take_chars m cs)"

definition joined :: "string \<Rightarrow> string list \<Rightarrow> string" where
  "joined sep xs = (case xs of [] \<Rightarrow> [] | y # ys \<Rightarrow> y @ concat (map (\<lambda>z. sep @ z) ys))"

section \<open>Facts\<close>

lemma char_count_append [simp]: "char_count (s @ t) = char_count s + char_count t"
  by (simp add: char_count_def)

lemma char_count_simps [simp]:
  "char_count [] = 0" "char_count (c # cs) = (if continues c then char_count cs else Suc (char_count cs))"
  by (simp_all add: char_count_def)

lemma char_count_le: "char_count s \<le> length s"
  by (simp add: char_count_def)

lemma char_count_replicate [simp]: "\<not> continues c \<Longrightarrow> char_count (replicate n c) = n"
  by (simp add: char_count_def)

lemma char_count_pad: "char_count s \<le> w \<Longrightarrow> char_count (pad w s) = w"
  by (simp add: pad_def continues_def byte_def)

text \<open>Reading back a printed number.\<close>

lemma byte_digit: "n < 10 \<Longrightarrow> byte (char_of (48 + n)) = 48 + n"
  by (simp add: byte_def)

lemma digit_char:
  assumes "n < 10"
  shows "is_digit (char_of (48 + n))" and "digit_value (char_of (48 + n)) = int n"
  using byte_digit [OF assms] assms by (simp_all add: is_digit_def digit_value_def)

lemma show_nat_nonempty: "show_nat n \<noteq> []"
  by (subst show_nat.simps) simp

lemma show_nat_digits: "list_all is_digit (show_nat n)"
proof (induction n rule: show_nat.induct)
  case (1 n)
  show ?case
  proof (cases "n < 10")
    case True
    then show ?thesis by (subst show_nat.simps) (simp add: digit_char)
  next
    case False
    with 1 show ?thesis by (subst show_nat.simps) (simp add: digit_char)
  qed
qed

lemma show_nat_value: "foldl (\<lambda>m c. 10 * m + digit_value c) 0 (show_nat n) = int n"
proof (induction n rule: show_nat.induct)
  case (1 n)
  show ?case
  proof (cases "n < 10")
    case True
    then show ?thesis by (subst show_nat.simps) (simp add: digit_char)
  next
    case False
    have "10 * int (n div 10) + int (n mod 10) = int n"
      by (metis mult_div_mod_eq of_nat_add of_nat_mult of_nat_numeral)
    with 1 False show ?thesis by (subst show_nat.simps) (simp add: digit_char)
  qed
qed

lemma parse_show_nat: "parse_digits (show_nat n) = Some (int n)"
  by (simp add: parse_digits_def show_nat_nonempty show_nat_digits show_nat_value)

lemma show_nat_head: "show_nat n = c # cs \<Longrightarrow> is_digit c"
  using show_nat_digits [of n] by simp

lemma parse_show_i128:
  assumes "0 \<le> i" and "i \<le> i128_max"
  shows "parse_i128 (show_int i) = Some i"
proof -
  obtain c cs where c: "show_nat (nat i) = c # cs"
    using show_nat_nonempty [of "nat i"] by (cases "show_nat (nat i)") auto
  then have "c \<noteq> CHR ''+''" "c \<noteq> CHR ''-''"
    using show_nat_head [OF c] by (auto simp: is_digit_def byte_def)
  then show ?thesis
    using assms parse_show_nat [of "nat i"] c
    by (simp add: show_int_def parse_i128_def in_range_def const_defs)
qed

text \<open>Fields, lines and trimmed text put together.\<close>

lemma splitn_field: "d \<notin> set x \<Longrightarrow> splitn (Suc (Suc n)) d (x @ d # r) = x # splitn (Suc n) d r"
proof -
  assume "d \<notin> set x"
  then have "dropWhile (\<lambda>c. c \<noteq> d) (x @ d # r) = d # r" "takeWhile (\<lambda>c. c \<noteq> d) (x @ d # r) = x"
    by (induction x) auto
  then show ?thesis by simp
qed

lemma lines_loop_line:
  "CHR 0x0A \<notin> set l \<Longrightarrow> lines_loop acc (l @ CHR 0x0A # r) = strip_cr (acc @ l) # lines_loop [] r"
  by (induction l arbitrary: acc) auto

lemma trimmed_no_cr: "trimmed s \<Longrightarrow> strip_cr s = s"
proof (cases s rule: rev_cases)
  case (snoc t c)
  assume "trimmed s"
  with snoc have "ws_suffix (byte c # map byte (rev t)) = 0" by (simp add: trimmed_def)
  then have "\<not> ws1 (byte c)" by (cases "map byte (rev t)" rule: ws_suffix.cases) (auto split: if_splits)
  then show ?thesis using snoc by (auto simp: strip_cr_def ws1_def byte_def)
qed (simp add: strip_cr_def)

lemma ws_prefix_comma: "ws_prefix xs = 0 \<Longrightarrow> ws_prefix (xs @ 0x2C # ys) = 0"
  by (cases xs rule: ws_prefix.cases; cases ys; cases "tl ys")
    (auto simp: ws1_def ws2_def ws3_def split: if_splits)

lemma ws_suffix_comma: "ws_suffix xs = 0 \<Longrightarrow> ws_suffix (xs @ 0x2C # ys) = 0"
  by (cases xs rule: ws_suffix.cases; cases ys; cases "tl ys")
    (auto simp: ws1_def ws2_def ws3_def split: if_splits)

lemma trimmed_digits: "list_all is_digit s \<Longrightarrow> trimmed s"
proof -
  have p: "ws_prefix (map byte t) = 0" if "list_all is_digit t" for t
    using that by (cases "map byte t" rule: ws_prefix.cases)
      (auto simp: ws1_def ws2_def ws3_def is_digit_def map_eq_Cons_conv)
  have q: "ws_suffix (map byte t) = 0" if "list_all is_digit t" for t
    using that by (cases "map byte t" rule: ws_suffix.cases)
      (auto simp: ws1_def ws2_def ws3_def is_digit_def map_eq_Cons_conv)
  assume "list_all is_digit s"
  then show ?thesis using p [of s] q [of "rev s"] by (simp add: trimmed_def)
qed

section \<open>What trimming means\<close>

text \<open>
  The white space of Unicode, each character by its UTF-8 bytes; \<open>trims_to\<close> says, without
  an algorithm, what is left of a text when the white space at its ends is gone.
\<close>

definition white_bytes :: "nat list set" where
  "white_bytes = (\<lambda>b. [b]) ` ({9..13} \<union> {32}) \<union> {[0xC2, 0x85], [0xC2, 0xA0], [0xE1, 0x9A, 0x80]} \<union>
     (\<lambda>b. [0xE2, 0x80, b]) ` ({0x80..0x8A} \<union> {0xA8, 0xA9, 0xAF}) \<union> {[0xE2, 0x81, 0x9F], [0xE3, 0x80, 0x80]}"

definition white_text :: "string \<Rightarrow> bool" where
  "white_text s \<longleftrightarrow> (\<exists>ws. set ws \<subseteq> white_bytes \<and> map byte s = concat ws)"

definition trims_to :: "string \<Rightarrow> string \<Rightarrow> bool" where
  "trims_to s t \<longleftrightarrow> (\<exists>p q. s = p @ t @ q \<and> white_text p \<and> white_text q) \<and>
     (\<forall>w \<in> white_bytes. \<forall>r. map byte t \<noteq> w @ r \<and> map byte t \<noteq> r @ w)"

lemma white_cases:
  assumes "w \<in> white_bytes"
  obtains a where "w = [a]" "ws1 a" | a b where "w = [a, b]" "ws2 a b" | a b c where "w = [a, b, c]" "ws3 a b c"
proof -
  have "(\<exists>a. w = [a] \<and> ws1 a) \<or> (\<exists>a b. w = [a, b] \<and> ws2 a b) \<or> (\<exists>a b c. w = [a, b, c] \<and> ws3 a b c)"
    using assms unfolding white_bytes_def ws1_def ws2_def ws3_def by auto
  then show ?thesis using that by blast
qed

lemma white_intros: "ws1 a \<Longrightarrow> [a] \<in> white_bytes" "ws2 a b \<Longrightarrow> [a, b] \<in> white_bytes"
  "ws3 a b c \<Longrightarrow> [a, b, c] \<in> white_bytes"
  unfolding white_bytes_def ws1_def ws2_def ws3_def by auto

lemma ws_prefix_white: "w \<in> white_bytes \<Longrightarrow> ws_prefix (w @ r) = length w"
  by (erule white_cases; cases r rule: ws_prefix.cases) (auto simp: ws1_def ws2_def ws3_def)

lemma ws_suffix_white: "w \<in> white_bytes \<Longrightarrow> ws_suffix (rev w @ r) = length w"
  by (erule white_cases; cases r rule: ws_suffix.cases) (auto simp: ws1_def ws2_def ws3_def)

lemma white_ws_prefix: "ws_prefix bs \<noteq> 0 \<Longrightarrow> take (ws_prefix bs) bs \<in> white_bytes"
  by (cases bs rule: ws_prefix.cases) (auto intro: white_intros split: if_splits)

lemma white_ws_suffix: "ws_suffix bs \<noteq> 0 \<Longrightarrow> rev (take (ws_suffix bs) bs) \<in> white_bytes"
  by (cases bs rule: ws_suffix.cases) (auto intro: white_intros split: if_splits)

lemma white_text_Nil: "white_text []"
  unfolding white_text_def by (rule exI [of _ "[]"]) simp

lemma white_text_join: "white_text p \<Longrightarrow> white_text q \<Longrightarrow> white_text (p @ q)"
proof -
  assume "white_text p" "white_text q"
  then obtain us vs where "set us \<subseteq> white_bytes" "map byte p = concat us" "set vs \<subseteq> white_bytes" "map byte q = concat vs"
    by (auto simp: white_text_def)
  then show ?thesis unfolding white_text_def by (intro exI [of _ "us @ vs"]) simp
qed

lemma white_text_one: "map byte p \<in> white_bytes \<Longrightarrow> white_text p"
  unfolding white_text_def by (rule exI [of _ "[map byte p]"]) simp

lemma trim_start_white: "white_text p \<Longrightarrow> trim_start (p @ x) = trim_start x"
proof -
  have "trim_start (p @ x) = trim_start x" if "set ws \<subseteq> white_bytes" "map byte p = concat ws" for ws
    using that
  proof (induction ws arbitrary: p)
    case (Cons w ws)
    have w: "w \<in> white_bytes" using Cons.prems(1) by simp
    then have "w \<noteq> []" by (auto elim: white_cases)
    have "ws_prefix (map byte (p @ x)) = length w"
      using ws_prefix_white [OF w, of "concat ws @ map byte x"] Cons.prems(2) by simp
    moreover have "map byte (drop (length w) p) = concat ws" using Cons.prems(2) by (simp flip: drop_map)
    moreover have "length w \<le> length p" using arg_cong [OF Cons.prems(2), of length] by simp
    ultimately show ?case
      using Cons.IH [of "drop (length w) p"] Cons.prems(1) \<open>w \<noteq> []\<close> by (subst trim_start.simps) simp
  qed simp
  then show "white_text p \<Longrightarrow> ?thesis" by (auto simp: white_text_def)
qed

lemma trim_rev_white: "white_text q \<Longrightarrow> trim_rev (rev (x @ q)) = trim_rev (rev x)"
proof -
  have "trim_rev (rev (x @ q)) = trim_rev (rev x)" if "set ws \<subseteq> white_bytes" "map byte q = concat ws" for ws
    using that
  proof (induction ws arbitrary: q rule: rev_induct)
    case (snoc w ws)
    have w: "w \<in> white_bytes" using snoc.prems(1) by simp
    then have "w \<noteq> []" by (auto elim: white_cases)
    have "map byte (rev (x @ q)) = rev w @ rev (concat ws) @ map byte (rev x)"
      using arg_cong [OF snoc.prems(2), of rev] by (simp add: rev_map)
    then have n: "ws_suffix (map byte (rev (x @ q))) = length w" using ws_suffix_white [OF w] by simp
    define m where "m = length q - length w"
    have le: "length w \<le> length q" using arg_cong [OF snoc.prems(2), of length] by simp
    have "map byte (take m q) = concat ws"
      using arg_cong [OF snoc.prems(2), of "take m"] arg_cong [OF snoc.prems(2), of length]
      by (simp add: take_map m_def)
    moreover have "drop (length w) (rev (x @ q)) = rev (x @ take m q)"
      using le by (simp add: m_def drop_rev)
    ultimately show ?case
      using snoc.IH [of "take m q"] snoc.prems(1) \<open>w \<noteq> []\<close> n by (subst trim_rev.simps) simp
  qed simp
  then show "white_text q \<Longrightarrow> ?thesis" by (auto simp: white_text_def)
qed

text \<open>No white space character is put together by what is left and the white space after it.\<close>

lemma ws_prefix_continued:
  assumes "bs \<noteq> []" and "ws_prefix bs = 0" and c: "\<not> (0x80 \<le> c \<and> c \<le> 0xBF)"
  shows "ws_prefix (bs @ c # r) = 0"
proof -
  have no: "\<not> ws2 a c" "\<not> ws3 a b c" "\<not> ws3 a c b" for a b
    using c by (auto simp: ws2_def ws3_def)
  show ?thesis
    using assms(1,2) no
    by (cases bs rule: ws_prefix.cases; cases r) (simp_all split: if_splits)
qed

lemma no_straddle:
  assumes "t \<noteq> []" and "ws_prefix (map byte t) = 0" and "white_text q"
  shows "ws_prefix (map byte (t @ q)) = 0"
proof (cases q)
  case (Cons c r)
  with assms(3) obtain w us where "w \<in> white_bytes" "map byte q = w @ us"
    unfolding white_text_def by (metis concat.simps list.set_intros(1) list.simps(9) neq_Nil_conv subsetD list.distinct(1))
  with Cons have "\<not> (0x80 \<le> byte c \<and> byte c \<le> 0xBF)"
    by (auto elim!: white_cases simp: ws1_def ws2_def ws3_def)
  with assms(1,2) Cons show ?thesis by (simp add: ws_prefix_continued)
qed (use assms in simp)

lemma trims_to_trim:
  assumes "trims_to s t"
  shows "trim s = t"
proof -
  from assms obtain p q where s: "s = p @ t @ q" "white_text p" "white_text q"
    and ends: "\<forall>w \<in> white_bytes. \<forall>r. map byte t \<noteq> w @ r \<and> map byte t \<noteq> r @ w"
    by (auto simp: trims_to_def)
  have pre: "ws_prefix (map byte t) = 0"
    using white_ws_prefix [of "map byte t"] ends append_take_drop_id by metis
  have suf: "ws_suffix (map byte (rev t)) = 0"
  proof (rule ccontr)
    assume "ws_suffix (map byte (rev t)) \<noteq> 0"
    from white_ws_suffix [OF this] ends show False
      by (metis append_take_drop_id rev_append rev_map rev_rev_ident)
  qed
  have t: "trim_rev (rev t) = rev t" using suf by (simp add: trim_rev.simps)
  show ?thesis
  proof (cases "t = []")
    case True
    then have "trim_start s = trim_start []"
      using s trim_start_white [OF s(2), of q] trim_start_white [OF s(3), of "[]"] by simp
    with True show ?thesis by (simp add: trim_def trim_start.simps trim_rev.simps)
  next
    case False
    then have "trim_start s = t @ q"
      using s(1) trim_start_white [OF s(2), of "t @ q"] no_straddle [OF False pre s(3)]
      by (simp add: trim_start.simps [of "t @ q"])
    then show ?thesis using trim_rev_white [OF s(3), of t] t by (simp add: trim_def)
  qed
qed

lemma trim_start_split: "\<exists>p. s = p @ trim_start s \<and> white_text p \<and> ws_prefix (map byte (trim_start s)) = 0"
proof (induction s rule: trim_start.induct)
  case (1 s)
  show ?case
  proof (cases "ws_prefix (map byte s) = 0")
    case True
    then show ?thesis using white_text_Nil by (simp add: trim_start.simps [of s])
  next
    case False
    let ?n = "ws_prefix (map byte s)"
    obtain p where p: "drop ?n s = p @ trim_start (drop ?n s)" "white_text p"
      "ws_prefix (map byte (trim_start (drop ?n s))) = 0"
      using 1 [OF refl False] by blast
    have "white_text (take ?n s)" using white_ws_prefix [OF False] by (intro white_text_one) (simp add: take_map)
    then have "white_text (take ?n s @ p)" using p(2) by (rule white_text_join)
    moreover have "s = (take ?n s @ p) @ trim_start (drop ?n s)" using p(1) by (metis append_assoc append_take_drop_id)
    moreover have "trim_start s = trim_start (drop ?n s)" using False by (simp add: trim_start.simps [of s])
    ultimately show ?thesis using p(3) by metis
  qed
qed

lemma trim_rev_split: "\<exists>q. rev s = rev (trim_rev s) @ q \<and> white_text q \<and> ws_suffix (map byte (trim_rev s)) = 0"
proof (induction s rule: trim_rev.induct)
  case (1 s)
  show ?case
  proof (cases "ws_suffix (map byte s) = 0")
    case True
    then show ?thesis using white_text_Nil by (simp add: trim_rev.simps [of s])
  next
    case False
    let ?n = "ws_suffix (map byte s)"
    obtain q where q: "rev (drop ?n s) = rev (trim_rev (drop ?n s)) @ q" "white_text q"
      "ws_suffix (map byte (trim_rev (drop ?n s))) = 0"
      using 1 [OF refl False] by blast
    have "white_text (rev (take ?n s))"
      using white_ws_suffix [OF False] by (intro white_text_one) (simp add: take_map rev_map)
    with q(2) have "white_text (q @ rev (take ?n s))" by (rule white_text_join)
    moreover have "rev s = rev (trim_rev (drop ?n s)) @ q @ rev (take ?n s)"
      using q(1) by (metis append_assoc append_take_drop_id rev_append)
    moreover have "trim_rev s = trim_rev (drop ?n s)" using False by (simp add: trim_rev.simps [of s])
    ultimately show ?thesis using q(3) by metis
  qed
qed

lemma trim_trims_to: "trims_to s (trim s)"
proof -
  obtain p where p: "s = p @ trim_start s" "white_text p" "ws_prefix (map byte (trim_start s)) = 0"
    using trim_start_split by blast
  obtain q where q: "trim_start s = trim s @ q" "white_text q" "ws_suffix (map byte (rev (trim s))) = 0"
    using trim_rev_split [of "rev (trim_start s)"] by (auto simp: trim_def)
  have "map byte (trim s) \<noteq> w @ r \<and> map byte (trim s) \<noteq> r @ w" if w: "w \<in> white_bytes" for w r
  proof (intro conjI notI)
    have "w \<noteq> []" using w by (auto elim: white_cases)
    {
      assume "map byte (trim s) = w @ r"
      then have "map byte (trim_start s) = w @ r @ map byte q" using q(1) by simp
      with ws_prefix_white [OF w] p(3) \<open>w \<noteq> []\<close> show False by simp
    }
    assume "map byte (trim s) = r @ w"
    then have "map byte (rev (trim s)) = rev w @ rev r" by (metis rev_append rev_map)
    with ws_suffix_white [OF w] q(3) \<open>w \<noteq> []\<close> show False by simp
  qed
  with p q show ?thesis unfolding trims_to_def by metis
qed

lemma trim_iff: "trim s = t \<longleftrightarrow> trims_to s t"
  using trims_to_trim trim_trims_to by blast

end
