(* ===== verification/CliConfig.thy ===== *)
theory CliConfig
  imports CliText
begin

text \<open>
  The configuration of the command line tool: the file, the environment and the flags,
  their precedence, the named networks, the validation, the source key and the start of
  a \<open>stellar contract invoke\<close> command. The file system, the environment, the terminal
  and the TOML parser are parameters.
\<close>

section \<open>Data\<close>

record config =
  cf_network :: "string option"
  cf_rpc_url :: "string option"
  cf_network_passphrase :: "string option"
  cf_contract_id :: "string option"
  cf_source_account :: "string option"

record raw_config =
  rc_network :: "string option"
  rc_rpc_url :: "string option"
  rc_network_passphrase :: "string option"
  rc_contract_id :: "string option"
  rc_source_account :: "string option"

record validated_config =
  vc_network :: string
  vc_contract_id :: string
  vc_source_account :: string

record resolved_config =
  rs_network :: string
  rs_rpc_url :: string
  rs_network_passphrase :: string
  rs_contract_id :: string
  rs_source_account :: "string option"

datatype config_error =
    MissingField (field: string) (env_var: string) (toml_key: string)
  | InvalidNetwork (invalid_value: string)

text \<open>The flags of the tool that the configuration reads.\<close>

record cli =
  cl_config :: "string option"
  cl_key_file :: "string option"
  cl_prompt_key :: bool
  cl_network :: "string option"
  cl_rpc_url :: "string option"
  cl_network_passphrase :: "string option"
  cl_contract_id :: "string option"
  cl_source_account :: "string option"

definition VALID_NETWORKS :: "string list" where
  "VALID_NETWORKS = [''local'', ''testnet'', ''mainnet'']"

text \<open>
  What the operating system answers: the environment, the text of a file (\<open>None\<close> when it
  is missing or unreadable), what is typed at the hidden prompt, and whether standard
  input is a terminal. \<open>toml_*\<close> stand for \<open>toml::from_str\<close>.
\<close>

record os =
  env_of :: "string \<Rightarrow> string option"
  file_of :: "string \<Rightarrow> string option"
  exists_file :: "string \<Rightarrow> bool"
  typed_key :: "string option"
  is_tty :: bool
  toml_config :: "string \<Rightarrow> config option"
  toml_raw :: "string \<Rightarrow> raw_config option"

definition default_config :: config where
  "default_config = \<lparr>cf_network = None, cf_rpc_url = None, cf_network_passphrase = None,
     cf_contract_id = None, cf_source_account = None\<rparr>"

definition default_raw :: raw_config where
  "default_raw = \<lparr>rc_network = None, rc_rpc_url = None, rc_network_passphrase = None,
     rc_contract_id = None, rc_source_account = None\<rparr>"

definition or_else :: "'a option \<Rightarrow> 'a option \<Rightarrow> 'a option" where
  "or_else x y = (case x of Some v \<Rightarrow> Some v | None \<Rightarrow> y)"

definition unwrap_default :: "'a \<Rightarrow> 'a option \<Rightarrow> 'a" where
  "unwrap_default d x = (case x of Some v \<Rightarrow> v | None \<Rightarrow> d)"

section \<open>Validation\<close>

text \<open>The guard \<open>Some(ref s) if !s.trim().is_empty()\<close>.\<close>

definition filled :: "string option \<Rightarrow> bool" where
  "filled x \<longleftrightarrow> (case x of Some s \<Rightarrow> trim s \<noteq> [] | None \<Rightarrow> False)"

definition validate_config :: "config \<Rightarrow> config_error list + validated_config" where
  "validate_config cfg =
     (let (network, errors1) =
        (if filled (cf_network cfg)
         then (the (cf_network cfg),
               if the (cf_network cfg) \<notin> set VALID_NETWORKS
               then [InvalidNetwork (the (cf_network cfg))] else [])
         else ([], [MissingField ''network'' ''LUMENFLOW_NETWORK'' ''network'']));
      (contract_id, errors2) =
        (if filled (cf_contract_id cfg) then (the (cf_contract_id cfg), errors1)
         else ([], errors1 @ [MissingField ''contract_id'' ''LUMENFLOW_CONTRACT_ID'' ''contract_id'']));
      (source_account, errors3) =
        (if filled (cf_source_account cfg) then (the (cf_source_account cfg), errors2)
         else ([], errors2 @ [MissingField ''source_account'' ''LUMENFLOW_SOURCE'' ''source_account'']))
      in if errors3 = []
         then Inr \<lparr>vc_network = network, vc_contract_id = contract_id, vc_source_account = source_account\<rparr>
         else Inl errors3)"

definition display_config_error :: "config_error \<Rightarrow> string" where
  "display_config_error e = (case e of
     MissingField fld var key \<Rightarrow>
       ''Missing required config field: '' @ fld @ nl @
       ''  Set it via environment variable:  '' @ var @ ''=<value>'' @ nl @
       ''  Or add to .lumenflow.toml:        '' @ key @ '' = '' @ dq @ ''<value>'' @ dq
   | InvalidNetwork v \<Rightarrow>
       ''Invalid network '' @ dq @ v @ dq @ ''.'' @ nl @
       ''  Allowed values: '' @ joined '', '' VALID_NETWORKS @ nl @
       ''  Set LUMENFLOW_NETWORK or network = '' @ dq @ ''...'' @ dq @ '' in .lumenflow.toml.'')"

section \<open>Loading\<close>

definition config_path :: "string option \<Rightarrow> string" where
  "config_path p = unwrap_default ''.lumenflow.toml'' p"

text \<open>\<open>load_config\<close> up to its last line, which returns an undeclared name: the configuration built.\<close>

definition load_config :: "os \<Rightarrow> string option \<Rightarrow> string + config" where
  "load_config os path =
     (let p = config_path path;
          base = (if exists_file os p
                  then (case file_of os p of
                          None \<Rightarrow> Inl (''Failed to read config: '' @ p)
                        | Some content \<Rightarrow> (case toml_config os content of
                              None \<Rightarrow> Inl ''toml'' | Some c \<Rightarrow> Inr c))
                  else Inr default_config)
      in case base of
           Inl e \<Rightarrow> Inl e
         | Inr c \<Rightarrow>
             (let c1 = (case env_of os ''LUMENFLOW_NETWORK'' of Some v \<Rightarrow> c\<lparr>cf_network := Some v\<rparr> | None \<Rightarrow> c);
                  c2 = (case env_of os ''LUMENFLOW_RPC_URL'' of Some v \<Rightarrow> c1\<lparr>cf_rpc_url := Some v\<rparr> | None \<Rightarrow> c1);
                  c3 = (case env_of os ''LUMENFLOW_NETWORK_PASSPHRASE'' of
                          Some v \<Rightarrow> c2\<lparr>cf_network_passphrase := Some v\<rparr> | None \<Rightarrow> c2);
                  c4 = (case env_of os ''LUMENFLOW_CONTRACT_ID'' of
                          Some v \<Rightarrow> c3\<lparr>cf_contract_id := Some v\<rparr> | None \<Rightarrow> c3);
                  c5 = (case env_of os ''LUMENFLOW_SOURCE'' of
                          Some v \<Rightarrow> c4\<lparr>cf_source_account := Some v\<rparr> | None \<Rightarrow> c4)
              in Inr c5))"

definition network_preset :: "string \<Rightarrow> (string \<times> string) option" where
  "network_preset name =
     (if name = ''local'' then
        Some (''http://localhost:8000/soroban/rpc'', ''Standalone Network ; February 2017'')
      else if name = ''testnet'' then
        Some (''https://soroban-testnet.stellar.org'', ''Test SDF Network ; September 2015'')
      else if name = ''mainnet'' then
        Some (''https://soroban-mainnet.stellar.org'', ''Public Global Stellar Network ; September 2015'')
      else None)"

definition load_file_config :: "os \<Rightarrow> string option \<Rightarrow> string + raw_config" where
  "load_file_config os path =
     (let p = config_path path in
      if exists_file os p
      then (case file_of os p of
              None \<Rightarrow> Inl ''io''
            | Some content \<Rightarrow> (case toml_raw os content of None \<Rightarrow> Inl ''toml'' | Some c \<Rightarrow> Inr c))
      else Inr default_raw)"

definition apply_env_overrides :: "os \<Rightarrow> raw_config \<Rightarrow> raw_config" where
  "apply_env_overrides os base =
     \<lparr>rc_network = or_else (env_of os ''LUMENFLOW_NETWORK'') (rc_network base),
      rc_rpc_url = or_else (env_of os ''LUMENFLOW_RPC_URL'') (rc_rpc_url base),
      rc_network_passphrase =
        or_else (env_of os ''LUMENFLOW_NETWORK_PASSPHRASE'') (rc_network_passphrase base),
      rc_contract_id = or_else (env_of os ''LUMENFLOW_CONTRACT_ID'') (rc_contract_id base),
      rc_source_account = or_else (env_of os ''LUMENFLOW_SOURCE'') (rc_source_account base)\<rparr>"

definition resolve_config :: "raw_config \<Rightarrow> cli \<Rightarrow> resolved_config" where
  "resolve_config file_env c =
     (let network = unwrap_default ''testnet'' (or_else (cl_network c) (rc_network file_env));
          preset = network_preset network;
          rpc_url = unwrap_default ''https://soroban-testnet.stellar.org''
            (or_else (or_else (cl_rpc_url c) (rc_rpc_url file_env)) (map_option fst preset));
          network_passphrase = unwrap_default ''Test SDF Network ; September 2015''
            (or_else (or_else (cl_network_passphrase c) (rc_network_passphrase file_env))
              (map_option snd preset));
          contract_id = unwrap_default [] (or_else (cl_contract_id c) (rc_contract_id file_env));
          source_account = or_else (cl_source_account c) (rc_source_account file_env)
      in \<lparr>rs_network = network, rs_rpc_url = rpc_url, rs_network_passphrase = network_passphrase,
          rs_contract_id = contract_id, rs_source_account = source_account\<rparr>)"

section \<open>The source key\<close>

definition load_key_from_file :: "os \<Rightarrow> string \<Rightarrow> string + string" where
  "load_key_from_file os path =
     (case file_of os path of
        None \<Rightarrow> Inl (''Cannot read key file: '' @ path)
      | Some raw \<Rightarrow>
          (let key = trim raw in
           if key = [] then Inl (''Key file '' @ path @ '' is empty'') else Inr key))"

definition prompt_key :: "os \<Rightarrow> string + string" where
  "prompt_key os =
     (case typed_key os of
        None \<Rightarrow> Inl ''Failed to read secret key from terminal''
      | Some key \<Rightarrow> if trim key = [] then Inl ''No secret key entered'' else Inr (trim key))"

definition missing_key_message :: string where
  "missing_key_message =
     ''Missing source account secret key.'' @ nl @
     ''In non-interactive (CI) environments, provide the key explicitly:'' @ nl @ nl @
     ''Option 1 '' @ [CHR 0xE2, CHR 0x80, CHR 0x94] @ '' environment variable:'' @ nl @
     ''  LUMENFLOW_SOURCE=<secret-key> lumenflow ...'' @ nl @ nl @
     ''Option 2 '' @ [CHR 0xE2, CHR 0x80, CHR 0x94] @ '' flag (not recommended; appears in shell history):'' @ nl @
     ''  lumenflow --source-account <secret-key> ...'' @ nl @ nl @
     ''Option 3 '' @ [CHR 0xE2, CHR 0x80, CHR 0x94] @ '' key file (recommended for CI):'' @ nl @
     ''  lumenflow --key-file /path/to/keyfile ...''"

definition prompt_note :: string where
  "prompt_note = ''Note: --source-account not provided. '' @
     ''Prompting for secret key (input will be hidden).''"

text \<open>The lines written to standard error, and the configuration with its key or the error.\<close>

definition resolve_source ::
  "os \<Rightarrow> config \<Rightarrow> string option \<Rightarrow> bool \<Rightarrow> string list \<times> (string + config)" where
  "resolve_source os cfg key_file use_prompt =
     (case key_file of
        Some path \<Rightarrow> ([], case load_key_from_file os path of
            Inl e \<Rightarrow> Inl e | Inr k \<Rightarrow> Inr (cfg\<lparr>cf_source_account := Some k\<rparr>))
      | None \<Rightarrow>
          if use_prompt
          then ([], case prompt_key os of
                  Inl e \<Rightarrow> Inl e | Inr k \<Rightarrow> Inr (cfg\<lparr>cf_source_account := Some k\<rparr>))
          else if filled (cf_source_account cfg) then ([], Inr cfg)
          else if is_tty os
          then ([prompt_note], case prompt_key os of
                  Inl e \<Rightarrow> Inl e | Inr k \<Rightarrow> Inr (cfg\<lparr>cf_source_account := Some k\<rparr>))
          else ([], Inl missing_key_message))"

section \<open>The command\<close>

text \<open>\<open>.filter(|s| !s.is_empty())\<close>\<close>

definition non_empty :: "string option \<Rightarrow> string option" where
  "non_empty x = (case x of Some s \<Rightarrow> if s = [] then None else Some s | None \<Rightarrow> None)"

definition network_args :: "config \<Rightarrow> string list" where
  "network_args cfg =
     (case non_empty (cf_rpc_url cfg) of Some rpc \<Rightarrow> [''--rpc-url'', rpc] | None \<Rightarrow> []) @
     (case non_empty (cf_network_passphrase cfg) of
        Some passphrase \<Rightarrow> [''--network-passphrase'', passphrase]
      | None \<Rightarrow>
          (case non_empty (cf_network cfg) of
             Some network \<Rightarrow> [''--network'', network]
           | None \<Rightarrow> [''--network'', ''testnet'']))"

definition base_invoke :: "config \<Rightarrow> string + string list" where
  "base_invoke cfg =
     (case non_empty (cf_contract_id cfg) of
        None \<Rightarrow> Inl ''Missing contract ID. Set LUMENFLOW_CONTRACT_ID or contract_id in .lumenflow.toml''
      | Some contract_id \<Rightarrow>
          (case non_empty (cf_source_account cfg) of
             None \<Rightarrow> Inl ''Missing source account. Set LUMENFLOW_SOURCE or source_account in .lumenflow.toml''
           | Some source \<Rightarrow>
               Inr ([''stellar'', ''contract'', ''invoke'', ''--id'', contract_id,
                     ''--source-account'', source] @ network_args cfg)))"

section \<open>Properties\<close>

text \<open>
  What a validated configuration is good for: the tool can always build its command
  from it, with the contract and the source of the configuration.
\<close>

lemma filled_nonempty: "filled x \<Longrightarrow> non_empty x = x \<and> x \<noteq> None"
  by (cases x) (auto simp: filled_def non_empty_def)

theorem validated_config_can_invoke:
  assumes "validate_config cfg = Inr v"
  shows "\<exists>rest. base_invoke cfg = Inr ([''stellar'', ''contract'', ''invoke'', ''--id'', vc_contract_id v,
      ''--source-account'', vc_source_account v] @ rest) \<and>
    cf_network cfg = Some (vc_network v) \<and> network_preset (vc_network v) \<noteq> None"
proof -
  have "filled (cf_network cfg)" "filled (cf_contract_id cfg)" "filled (cf_source_account cfg)"
    and "the (cf_network cfg) \<in> set VALID_NETWORKS"
    and "v = \<lparr>vc_network = the (cf_network cfg), vc_contract_id = the (cf_contract_id cfg),
      vc_source_account = the (cf_source_account cfg)\<rparr>"
    using assms by (auto simp: validate_config_def Let_def split: if_splits)
  then show ?thesis
    using filled_nonempty [of "cf_network cfg"] filled_nonempty [of "cf_contract_id cfg"]
      filled_nonempty [of "cf_source_account cfg"]
    by (auto simp: base_invoke_def VALID_NETWORKS_def network_preset_def)
qed

text \<open>The source of each setting: the flag, then the environment, then the file, then the preset.\<close>

definition first_of :: "'a option list \<Rightarrow> 'a option" where
  "first_of xs = (case filter (\<lambda>x. x \<noteq> None) xs of [] \<Rightarrow> None | y # _ \<Rightarrow> y)"

lemma first_of_simps [simp]:
  "first_of [] = None" "first_of (Some v # xs) = Some v" "first_of (None # xs) = first_of xs"
  by (simp_all add: first_of_def)

lemma first_of_or_else:
  "or_else a (or_else b c) = first_of [a, b, c]"
  "unwrap_default d (first_of [a, b, c]) = the (first_of [a, b, c, Some d])"
  "unwrap_default d (or_else (first_of [a, b, c]) p) = the (first_of [a, b, c, p, Some d])"
  by (cases a; cases b; cases c; cases p; simp add: or_else_def unwrap_default_def)+

lemma preset_testnet: "network_preset ''testnet'' =
   Some (''https://soroban-testnet.stellar.org'', ''Test SDF Network ; September 2015'')"
  by (simp add: network_preset_def)

text \<open>
  Every setting comes from the first place that has it: the flag, the environment
  variable, the file; the addresses then from the preset of the network that was so
  chosen, and what is still missing from the test network. In particular the preset
  never overrides a URL or passphrase given anywhere.
\<close>

theorem resolve_config_precedence:
  "resolve_config (apply_env_overrides os file) c =
     (let network = the (first_of [cl_network c, env_of os ''LUMENFLOW_NETWORK'', rc_network file, Some ''testnet''])
      in \<lparr>rs_network = network,
        rs_rpc_url = the (first_of [cl_rpc_url c, env_of os ''LUMENFLOW_RPC_URL'', rc_rpc_url file,
          map_option fst (network_preset network), map_option fst (network_preset ''testnet'')]),
        rs_network_passphrase = the (first_of [cl_network_passphrase c,
          env_of os ''LUMENFLOW_NETWORK_PASSPHRASE'', rc_network_passphrase file,
          map_option snd (network_preset network), map_option snd (network_preset ''testnet'')]),
        rs_contract_id =
          the (first_of [cl_contract_id c, env_of os ''LUMENFLOW_CONTRACT_ID'', rc_contract_id file, Some []]),
        rs_source_account =
          first_of [cl_source_account c, env_of os ''LUMENFLOW_SOURCE'', rc_source_account file]\<rparr>)"
  by (simp add: resolve_config_def apply_env_overrides_def Let_def first_of_or_else preset_testnet)

end
