(* ===== verification/CliCsv.thy ===== *)
theory CliCsv
  imports CliText
begin

text \<open>
  The CSV file of a batch payment: \<open>parse_csv\<close> as it runs, with its two accumulators and
  every error it reports, and its two specifications: the relation \<open>file_says\<close>, the meaning of
  a file without the parser's loops and splits, which \<open>parse_csv\<close> decides for every text, and
  the round trip, that it reads back what a file of valid rows says.
\<close>

section \<open>Data\<close>

record csv_row =
  cr_order_id :: string
  cr_merchant_address :: string
  cr_token_address :: string
  cr_amount :: int
  cr_memo :: string

text \<open>The messages, each with the line number and the texts it shows.\<close>

datatype row_error =
    ExpectedFiveColumns (line_no: nat) nat string
  | EmptyOrderId (line_no: nat)
  | BadMerchantAddress (line_no: nat) string
  | BadTokenAddress (line_no: nat) string
  | AmountNotPositive (line_no: nat) string
  | AmountNotInteger (line_no: nat) string

datatype csv_error =
    CsvEmpty
  | HeaderMismatch string
  | ValidationFailed "row_error list"
  | NoDataRows

definition expected_header :: string where
  "expected_header = ''order_id,merchant_address,token_address,amount,memo''"

section \<open>The parser\<close>

text \<open>The loop that consumes blank lines up to the header.\<close>

fun header_loop :: "(nat \<times> string) list \<Rightarrow> (string \<times> (nat \<times> string) list) option" where
  "header_loop [] = None"
| "header_loop ((i, line) # rest) = (if trim line = [] then header_loop rest else Some (line, rest))"

definition stellar_address :: "string \<Rightarrow> bool" where
  "stellar_address s \<longleftrightarrow> s \<noteq> [] \<and> hd s = CHR ''G'' \<and> length s = 56"

text \<open>One data line: \<open>errors\<close> and \<open>rows\<close> are the two vectors of the code.\<close>

definition csv_line ::
  "row_error list \<times> csv_row list \<Rightarrow> nat \<times> string \<Rightarrow> row_error list \<times> csv_row list" where
  "csv_line = (\<lambda>(errors, rows) (line_num, line).
     let display_num = line_num + 1; trimmed = trim line in
     if trimmed = [] then (errors, rows)
     else let parts = splitn 5 (CHR '','') trimmed in
       if length parts \<noteq> 5
       then (errors @ [ExpectedFiveColumns display_num (length parts) trimmed], rows)
       else
         let order_id = trim (parts ! 0); merchant_address = trim (parts ! 1);
             token_address = trim (parts ! 2); amount_str = trim (parts ! 3); memo = trim (parts ! 4);
             row_ok = True;
             (errors, row_ok) = (if order_id = [] then (errors @ [EmptyOrderId display_num], False)
               else (errors, row_ok));
             (errors, row_ok) = (if \<not> stellar_address merchant_address
               then (errors @ [BadMerchantAddress display_num merchant_address], False)
               else (errors, row_ok));
             (errors, row_ok) = (if \<not> stellar_address token_address
               then (errors @ [BadTokenAddress display_num token_address], False)
               else (errors, row_ok));
             (amount, errors, row_ok) = (case parse_i128 amount_str of
                 Some n \<Rightarrow> if 0 < n then (n, errors, row_ok)
                   else (0, errors @ [AmountNotPositive display_num amount_str], False)
               | None \<Rightarrow> (0, errors @ [AmountNotInteger display_num amount_str], False))
         in (errors,
             if row_ok
             then rows @ [\<lparr>cr_order_id = order_id, cr_merchant_address = merchant_address,
                cr_token_address = token_address, cr_amount = amount, cr_memo = memo\<rparr>]
             else rows))"

definition parse_csv :: "string \<Rightarrow> csv_error + csv_row list" where
  "parse_csv content =
     (case header_loop (List.enumerate 0 (lines_of content)) of
        None \<Rightarrow> Inl CsvEmpty
      | Some (header, lines) \<Rightarrow>
          if lower (trim header) \<noteq> expected_header then Inl (HeaderMismatch (trim header))
          else
            let (errors, rows) = foldl csv_line ([], []) lines in
            if errors \<noteq> [] then Inl (ValidationFailed errors)
            else if rows = [] then Inl NoDataRows
            else Inr rows)"

section \<open>What a line says\<close>

text \<open>The errors of one line, and its row when it has none, on their own.\<close>

definition line_errors :: "nat \<times> string \<Rightarrow> row_error list" where
  "line_errors = (\<lambda>(i, line).
     let t = trim line; parts = splitn 5 (CHR '','') t; f = (\<lambda>k. trim (parts ! k)); n = i + 1 in
     if t = [] then []
     else if length parts \<noteq> 5 then [ExpectedFiveColumns n (length parts) t]
     else (if f 0 = [] then [EmptyOrderId n] else []) @
       (if stellar_address (f 1) then [] else [BadMerchantAddress n (f 1)]) @
       (if stellar_address (f 2) then [] else [BadTokenAddress n (f 2)]) @
       (case parse_i128 (f 3) of
          None \<Rightarrow> [AmountNotInteger n (f 3)]
        | Some a \<Rightarrow> if 0 < a then [] else [AmountNotPositive n (f 3)]))"

definition line_row :: "nat \<times> string \<Rightarrow> csv_row" where
  "line_row = (\<lambda>(i, line).
     let parts = splitn 5 (CHR '','') (trim line); f = (\<lambda>k. trim (parts ! k)) in
     \<lparr>cr_order_id = f 0, cr_merchant_address = f 1, cr_token_address = f 2,
      cr_amount = the (parse_i128 (f 3)), cr_memo = f 4\<rparr>)"

definition blank :: "nat \<times> string \<Rightarrow> bool" where
  "blank l \<longleftrightarrow> trim (snd l) = []"

definition good_row :: "csv_row \<Rightarrow> bool" where
  "good_row r \<longleftrightarrow> cr_order_id r \<noteq> [] \<and> stellar_address (cr_merchant_address r) \<and>
     stellar_address (cr_token_address r) \<and> 0 < cr_amount r \<and> cr_amount r \<le> i128_max"

lemma csv_line_step:
  "csv_line (es, rs) l =
     (es @ line_errors l, rs @ (if blank l \<or> line_errors l \<noteq> [] then [] else [line_row l]))"
  by (cases l) (simp add: csv_line_def line_errors_def line_row_def blank_def Let_def
      split: option.split)

lemma csv_lines:
  "foldl csv_line (es, rs) ls =
     (es @ concat (map line_errors ls),
      rs @ map line_row (filter (\<lambda>l. \<not> blank l \<and> line_errors l = []) ls))"
  by (induction ls arbitrary: es rs) (simp_all add: csv_line_step)

lemma in_range_bounds: "in_range lo hi x = Some n \<Longrightarrow> lo \<le> n \<and> n \<le> hi"
  by (auto simp: in_range_def split: option.splits if_splits)

lemma good_line: "\<not> blank l \<Longrightarrow> line_errors l = [] \<Longrightarrow> good_row (line_row l)"
  by (cases l)
    (auto simp: line_errors_def line_row_def blank_def good_row_def Let_def parse_i128_def
      split: if_splits option.splits dest: in_range_bounds)

section \<open>Properties\<close>

text \<open>The data lines of a file: what follows the header, without the blank lines.\<close>

definition csv_data :: "string \<Rightarrow> (string \<times> (nat \<times> string) list) option" where
  "csv_data content =
     map_option (\<lambda>(header, ls). (trim header, filter (\<lambda>l. \<not> blank l) ls))
       (header_loop (List.enumerate 0 (lines_of content)))"

lemma line_errors_blank: "blank l \<Longrightarrow> line_errors l = []"
  by (cases l) (simp add: line_errors_def blank_def)

lemma line_errors_filter:
  "concat (map line_errors (filter (\<lambda>l. \<not> blank l) ls)) = concat (map line_errors ls)"
  by (induction ls) (simp_all add: line_errors_blank)

lemma parse_csv_computed:
  "parse_csv content =
     (case csv_data content of
        None \<Rightarrow> Inl CsvEmpty
      | Some (header, data) \<Rightarrow>
          if lower header \<noteq> expected_header then Inl (HeaderMismatch header)
          else if concat (map line_errors data) \<noteq> [] then Inl (ValidationFailed (concat (map line_errors data)))
          else if data = [] then Inl NoDataRows
          else Inr (map line_row data))"
proof (cases "header_loop (List.enumerate 0 (lines_of content))")
  case None
  then show ?thesis by (simp add: parse_csv_def csv_data_def)
next
  case (Some hl)
  then obtain h ls where hl: "header_loop (List.enumerate 0 (lines_of content)) = Some (h, ls)" by (cases hl) auto
  have "filter (\<lambda>l. \<not> blank l \<and> line_errors l = []) ls = filter (\<lambda>l. \<not> blank l) ls"
    if "concat (map line_errors ls) = []"
    using that by (intro filter_cong) auto
  then show ?thesis
    using hl by (simp add: parse_csv_def csv_data_def csv_lines line_errors_filter)
qed

section \<open>What a file means\<close>

text \<open>
  The meaning of a file without the parser: a decimal number with an optional sign and the
  width of i128, an address, the five fields of a line, and what a line and a file say.
\<close>

definition decimal :: "string \<Rightarrow> int" where
  "decimal ds = (\<Sum>i<length ds. (int (byte (ds ! i)) - 48) * 10 ^ (length ds - Suc i))"

definition reads_int :: "string \<Rightarrow> int \<Rightarrow> bool" where
  "reads_int s n \<longleftrightarrow> (\<exists>ds.
     (s = ds \<and> n = decimal ds \<or> s = CHR ''+'' # ds \<and> n = decimal ds \<or> s = CHR ''-'' # ds \<and> n = - decimal ds) \<and>
     ds \<noteq> [] \<and> (\<forall>c \<in> set ds. 48 \<le> byte c \<and> byte c \<le> 57) \<and> - (2 ^ 127) \<le> n \<and> n < 2 ^ 127)"

definition address_text :: "string \<Rightarrow> bool" where
  "address_text s \<longleftrightarrow> (\<exists>cs. s = CHR ''G'' # cs \<and> length cs = 55)"

text \<open>The fields are separated by the first four commas; each is trimmed.\<close>

definition five_fields :: "string \<Rightarrow> string \<Rightarrow> string \<Rightarrow> string \<Rightarrow> string \<Rightarrow> string \<Rightarrow> bool" where
  "five_fields t a b c d e \<longleftrightarrow> (\<exists>u v w x y. t = u @ '','' @ v @ '','' @ w @ '','' @ x @ '','' @ y \<and>
     CHR '','' \<notin> set u \<union> set v \<union> set w \<union> set x \<and>
     trims_to u a \<and> trims_to v b \<and> trims_to w c \<and> trims_to x d \<and> trims_to y e)"

inductive line_says :: "nat \<Rightarrow> string \<Rightarrow> row_error list + csv_row \<Rightarrow> bool" for n t where
  few_columns: "count_list t (CHR '','') < 4 \<Longrightarrow>
    line_says n t (Inl [ExpectedFiveColumns n (Suc (count_list t (CHR '',''))) t])"
| bad_fields: "five_fields t a b c d e \<Longrightarrow>
    es = [x. (x, bad) \<leftarrow> [(EmptyOrderId n, a = []), (BadMerchantAddress n b, \<not> address_text b),
      (BadTokenAddress n c, \<not> address_text c), (AmountNotPositive n d, \<exists>v. reads_int d v \<and> v \<le> 0),
      (AmountNotInteger n d, \<nexists>v. reads_int d v)], bad] \<Longrightarrow>
    es \<noteq> [] \<Longrightarrow> line_says n t (Inl es)"
| good_fields: "five_fields t a b c d e \<Longrightarrow> a \<noteq> [] \<Longrightarrow> address_text b \<Longrightarrow> address_text c \<Longrightarrow>
    reads_int d v \<Longrightarrow> 0 < v \<Longrightarrow>
    line_says n t (Inr \<lparr>cr_order_id = a, cr_merchant_address = b, cr_token_address = c, cr_amount = v, cr_memo = e\<rparr>)"

inductive_cases line_saysE: "line_says n t r"

text \<open>
  The header is the first line that is not blank; the data are the lines after it that are
  not blank, trimmed, with their numbers in the file (the first line is number 1).
\<close>

definition file_parts :: "string \<Rightarrow> string \<Rightarrow> (nat \<times> string) list \<Rightarrow> bool" where
  "file_parts content h data \<longleftrightarrow> (\<exists>bs l ls ts. lines_of content = bs @ l # ls \<and>
     (\<forall>b \<in> set bs. trims_to b []) \<and> trims_to l h \<and> h \<noteq> [] \<and> list_all2 trims_to ls ts \<and>
     data = filter (\<lambda>(i, t). t \<noteq> []) (List.enumerate (length bs + 2) ts))"

inductive file_says :: "string \<Rightarrow> csv_error + csv_row list \<Rightarrow> bool" for content where
  blank_file: "\<forall>l \<in> set (lines_of content). trims_to l [] \<Longrightarrow> file_says content (Inl CsvEmpty)"
| other_header: "file_parts content h data \<Longrightarrow>
    lower h \<noteq> ''order_id,merchant_address,token_address,amount,memo'' \<Longrightarrow>
    file_says content (Inl (HeaderMismatch h))"
| bad_lines: "file_parts content h data \<Longrightarrow>
    lower h = ''order_id,merchant_address,token_address,amount,memo'' \<Longrightarrow>
    list_all2 (\<lambda>(i, t). line_says i t) data rs \<Longrightarrow> \<exists>r \<in> set rs. isl r \<Longrightarrow>
    file_says content (Inl (ValidationFailed (concat [es. Inl es \<leftarrow> rs])))"
| no_lines: "file_parts content h [] \<Longrightarrow>
    lower h = ''order_id,merchant_address,token_address,amount,memo'' \<Longrightarrow> file_says content (Inl NoDataRows)"
| good_lines: "file_parts content h data \<Longrightarrow>
    lower h = ''order_id,merchant_address,token_address,amount,memo'' \<Longrightarrow>
    list_all2 (\<lambda>(i, t). line_says i t) data (map Inr rows) \<Longrightarrow> rows \<noteq> [] \<Longrightarrow>
    file_says content (Inr rows)"

inductive_cases file_saysE: "file_says content r"

section \<open>The parser finds the meaning\<close>

lemma parse_digits_decimal: "foldl (\<lambda>n c. 10 * n + digit_value c) 0 ds = decimal ds"
proof (induction ds rule: rev_induct)
  case (snoc c ds)
  have "decimal (ds @ [c]) = (\<Sum>i<length ds. (int (byte (ds ! i)) - 48) * 10 ^ (Suc (length ds - Suc i))) + digit_value c"
    by (auto simp: decimal_def digit_value_def nth_append Suc_diff_Suc intro!: sum.cong)
  also have "\<dots> = 10 * decimal ds + digit_value c"
    by (simp add: decimal_def sum_distrib_left mult.assoc mult.left_commute)
  finally show ?case using snoc by simp
qed (simp add: decimal_def)

lemma reads_int_iff: "reads_int s n \<longleftrightarrow> parse_i128 s = Some n"
proof -
  have digits: "parse_digits ds = Some m \<longleftrightarrow> ds \<noteq> [] \<and> (\<forall>c \<in> set ds. 48 \<le> byte c \<and> byte c \<le> 57) \<and> m = decimal ds" for ds m
    by (auto simp: parse_digits_def parse_digits_decimal list_all_iff is_digit_def)
  have range: "in_range i128_min i128_max x = Some n \<longleftrightarrow> x = Some n \<and> - (2 ^ 127) \<le> n \<and> n < 2 ^ 127" for x
    by (auto simp: in_range_def const_defs split: option.splits)
  show ?thesis
  proof (cases s)
    case (Cons c cs)
    have "c = CHR ''+'' \<Longrightarrow> \<not> 48 \<le> byte c" "c = CHR ''-'' \<Longrightarrow> \<not> 48 \<le> byte c" by (simp_all add: byte_def)
    with Cons show ?thesis
      unfolding parse_i128_def range reads_int_def
      by (auto simp: digits)
  qed (simp add: parse_i128_def range reads_int_def)
qed

lemma address_text_iff: "address_text s \<longleftrightarrow> stellar_address s"
  by (cases s) (auto simp: address_text_def stellar_address_def)

lemma splitn_length: "length (splitn (Suc n) d s) = min (Suc n) (Suc (count_list s d))"
proof (induction n arbitrary: s)
  case (Suc n)
  have "count_list s d = (case dropWhile (\<lambda>c. c \<noteq> d) s of [] \<Rightarrow> 0 | _ # r \<Rightarrow> Suc (count_list r d))"
    by (induction s) auto
  with Suc show ?case by (cases "dropWhile (\<lambda>c. c \<noteq> d) s") (simp_all del: dropWhile_eq_Nil_conv)
qed simp

lemma splitn_first:
  "splitn (Suc (Suc n)) d s = x # y # ys \<longleftrightarrow> (\<exists>r. s = x @ d # r \<and> d \<notin> set x \<and> splitn (Suc n) d r = y # ys)"
proof
  assume split: "splitn (Suc (Suc n)) d s = x # y # ys"
  then obtain e r where r: "dropWhile (\<lambda>c. c \<noteq> d) s = e # r" "x = takeWhile (\<lambda>c. c \<noteq> d) s" "splitn (Suc n) d r = y # ys"
    by (auto split: list.splits)
  moreover have "e = d" using hd_dropWhile [of "\<lambda>c. c \<noteq> d" s] r(1) by simp
  ultimately show "\<exists>r. s = x @ d # r \<and> d \<notin> set x \<and> splitn (Suc n) d r = y # ys"
    by (metis (mono_tags) set_takeWhileD takeWhile_dropWhile_id)
qed (auto simp: splitn_field simp del: splitn.simps(3))

lemma five_fields_iff:
  "five_fields t a b c d e \<longleftrightarrow> length (splitn 5 (CHR '','') t) = 5 \<and> map trim (splitn 5 (CHR '','') t) = [a, b, c, d, e]"
proof -
  have split: "splitn 5 (CHR '','') t = [u, v, w, x, y] \<longleftrightarrow> t = u @ '','' @ v @ '','' @ w @ '','' @ x @ '','' @ y \<and>
      CHR '','' \<notin> set u \<union> set v \<union> set w \<union> set x" for u v w x y
    by (auto simp: numeral_eq_Suc splitn_first simp del: splitn.simps(3))
  have "five_fields t a b c d e \<longleftrightarrow> (\<exists>u v w x y. splitn 5 (CHR '','') t = [u, v, w, x, y] \<and>
      trim u = a \<and> trim v = b \<and> trim w = c \<and> trim x = d \<and> trim y = e)"
    unfolding five_fields_def split trim_iff by simp
  also have "\<dots> \<longleftrightarrow> length (splitn 5 (CHR '','') t) = 5 \<and> map trim (splitn 5 (CHR '','') t) = [a, b, c, d, e]"
    by (cases "splitn 5 (CHR '','') t") (auto simp: numeral_eq_Suc length_Suc_conv)
  finally show ?thesis .
qed

text \<open>What the parser finds in one line, as one value.\<close>

definition line_result :: "nat \<times> string \<Rightarrow> row_error list + csv_row" where
  "line_result l = (if line_errors l = [] then Inr (line_row l) else Inl (line_errors l))"

lemma trim_trim: "trim (trim s) = trim s"
proof -
  have "trim s = [] @ trim s @ []" by simp
  with trim_trims_to [of s] white_text_Nil have "trims_to (trim s) (trim s)" unfolding trims_to_def by blast
  then show ?thesis by (rule trims_to_trim)
qed

lemma line_errors_trimmed:
  "line_errors (i, trim l) = line_errors (i, l)" "line_row (i, trim l) = line_row (i, l)"
  by (simp_all add: line_errors_def line_row_def trim_trim)

lemma fields_result:
  assumes "trim l \<noteq> []" and "five_fields (trim l) a b c d e"
  shows "line_errors (i, l) = [x. (x, bad) \<leftarrow> [(EmptyOrderId (Suc i), a = []),
      (BadMerchantAddress (Suc i) b, \<not> address_text b), (BadTokenAddress (Suc i) c, \<not> address_text c),
      (AmountNotPositive (Suc i) d, \<exists>v. reads_int d v \<and> v \<le> 0), (AmountNotInteger (Suc i) d, \<nexists>v. reads_int d v)], bad]"
    and "line_row (i, l) = \<lparr>cr_order_id = a, cr_merchant_address = b, cr_token_address = c,
      cr_amount = the (parse_i128 d), cr_memo = e\<rparr>"
proof -
  from assms(2) obtain u v w x y where sp: "splitn 5 (CHR '','') (trim l) = [u, v, w, x, y]"
    and f: "trim u = a" "trim v = b" "trim w = c" "trim x = d" "trim y = e"
    unfolding five_fields_iff by (auto simp: numeral_eq_Suc length_Suc_conv)
  show "line_row (i, l) = \<lparr>cr_order_id = a, cr_merchant_address = b, cr_token_address = c,
      cr_amount = the (parse_i128 d), cr_memo = e\<rparr>"
    by (simp add: line_row_def sp f)
  show "line_errors (i, l) = [x. (x, bad) \<leftarrow> [(EmptyOrderId (Suc i), a = []),
      (BadMerchantAddress (Suc i) b, \<not> address_text b), (BadTokenAddress (Suc i) c, \<not> address_text c),
      (AmountNotPositive (Suc i) d, \<exists>v. reads_int d v \<and> v \<le> 0), (AmountNotInteger (Suc i) d, \<nexists>v. reads_int d v)], bad]"
    using assms(1) by (cases "parse_i128 d") (auto simp: line_errors_def sp f address_text_iff reads_int_iff)
qed

lemma line_says_iff:
  assumes "trim l \<noteq> []"
  shows "line_says (Suc i) (trim l) r \<longleftrightarrow> r = line_result (i, l)"
proof -
  have len: "length (splitn 5 (CHR '','') (trim l)) = min 5 (Suc (count_list (trim l) (CHR '','')))"
    using splitn_length [of 4] by simp
  show ?thesis
  proof (cases "count_list (trim l) (CHR '','') < 4")
    case True
    then have "line_errors (i, l) = [ExpectedFiveColumns (Suc i) (count_list (trim l) (CHR '','') + 1) (trim l)]"
      using assms len by (simp add: line_errors_def Let_def)
    moreover have "\<not> five_fields (trim l) a b c d e" for a b c d e
      using True len by (simp add: five_fields_iff)
    ultimately show ?thesis
      using True by (auto simp: line_result_def intro: few_columns elim!: line_saysE)
  next
    case False
    then obtain u v w x y where "splitn 5 (CHR '','') (trim l) = [u, v, w, x, y]"
      using len by (auto simp: numeral_eq_Suc length_Suc_conv)
    then have f: "five_fields (trim l) (trim u) (trim v) (trim w) (trim x) (trim y)"
      by (simp add: five_fields_iff)
    have only: "a = trim u \<and> b = trim v \<and> c = trim w \<and> d = trim x \<and> e = trim y"
      if "five_fields (trim l) a b c d e" for a b c d e
      using that f unfolding five_fields_iff by simp
    note res = fields_result [OF assms f, of i]
    show ?thesis
    proof
      assume "line_says (Suc i) (trim l) r"
      then show "r = line_result (i, l)"
      proof cases
        case few_columns
        with False show ?thesis by simp
      next
        case (bad_fields a b c d e es)
        with res(1) show ?thesis using only [OF bad_fields(2)] by (simp add: line_result_def)
      next
        case (good_fields a b c d e v)
        with res show ?thesis
          using only [OF good_fields(2)] by (auto simp: line_result_def reads_int_iff)
      qed
    next
      assume r: "r = line_result (i, l)"
      show "line_says (Suc i) (trim l) r"
      proof (cases "line_errors (i, l) = []")
        case True
        then have ok: "trim u \<noteq> []" "address_text (trim v)" "address_text (trim w)"
          and n: "\<not> (\<exists>m. reads_int (trim x) m \<and> m \<le> 0)" "\<exists>m. reads_int (trim x) m"
          unfolding res(1) by (auto split: if_splits)
        then obtain m where m: "reads_int (trim x) m" "0 < m" by fastforce
        then show ?thesis
          using good_fields [OF f ok m] True r res(2) by (simp add: line_result_def reads_int_iff)
      next
        case False
        then show ?thesis using bad_fields [OF f res(1)] r by (simp add: line_result_def)
      qed
    qed
  qed
qed

text \<open>The parts of a file, as the parser takes it apart.\<close>

lemma header_loop_None: "header_loop (List.enumerate n xs) = None \<longleftrightarrow> (\<forall>l \<in> set xs. trim l = [])"
  by (induction xs arbitrary: n) auto

lemma header_loop_at:
  "\<forall>b \<in> set bs. trim b = [] \<Longrightarrow> trim h \<noteq> [] \<Longrightarrow>
   header_loop (List.enumerate n (bs @ h # ls)) = Some (h, List.enumerate (Suc (n + length bs)) ls)"
  by (induction bs arbitrary: n) auto

lemma header_loop_Some:
  "header_loop (List.enumerate n xs) = Some (h, r) \<longleftrightarrow> (\<exists>bs ls. xs = bs @ h # ls \<and>
     (\<forall>b \<in> set bs. trim b = []) \<and> trim h \<noteq> [] \<and> r = List.enumerate (Suc (n + length bs)) ls)"
proof
  show "\<exists>bs ls. xs = bs @ h # ls \<and> (\<forall>b \<in> set bs. trim b = []) \<and> trim h \<noteq> [] \<and>
      r = List.enumerate (Suc (n + length bs)) ls" if "header_loop (List.enumerate n xs) = Some (h, r)"
    using that
  proof (induction xs arbitrary: n)
    case (Cons x xs)
    show ?case
    proof (cases "trim x = []")
      case True
      with Cons.prems have "header_loop (List.enumerate (Suc n) xs) = Some (h, r)" by simp
      from Cons.IH [OF this] obtain bs ls where "xs = bs @ h # ls" "\<forall>b \<in> set bs. trim b = []" "trim h \<noteq> []"
        "r = List.enumerate (Suc (Suc n + length bs)) ls" by blast
      with True show ?thesis by (intro exI [of _ "x # bs"] exI [of _ ls]) simp
    next
      case False
      with Cons.prems show ?thesis by (intro exI [of _ "[]"] exI [of _ xs]) auto
    qed
  qed simp
qed (use header_loop_at in blast)

lemma list_all2_fun: "list_all2 (\<lambda>x y. f x = y) xs ys \<longleftrightarrow> ys = map f xs"
  by (induction xs arbitrary: ys) (auto simp: list_all2_Cons1)

lemma numbered_data:
  "filter (\<lambda>(i, t). t \<noteq> []) (List.enumerate (Suc k) (map trim ls)) =
   map (\<lambda>(i, l). (Suc i, trim l)) (filter (\<lambda>l. \<not> blank l) (List.enumerate k ls))"
  by (induction ls arbitrary: k) (auto simp: blank_def)

lemma file_parts_iff:
  "file_parts content h data \<longleftrightarrow>
   (\<exists>r. csv_data content = Some (h, r) \<and> data = map (\<lambda>(i, l). (Suc i, trim l)) r)"
proof -
  have "file_parts content h data \<longleftrightarrow> (\<exists>bs l ls. lines_of content = bs @ l # ls \<and> (\<forall>b \<in> set bs. trim b = []) \<and>
      trim l = h \<and> h \<noteq> [] \<and> data = map (\<lambda>(i, l). (Suc i, trim l)) (filter (\<lambda>l. \<not> blank l) (List.enumerate (Suc (length bs)) ls)))"
    unfolding file_parts_def trim_iff [symmetric] list_all2_fun
    by (simp add: numbered_data)
  also have "\<dots> \<longleftrightarrow> (\<exists>l r. header_loop (List.enumerate 0 (lines_of content)) = Some (l, r) \<and> trim l = h \<and>
      data = map (\<lambda>(i, l). (Suc i, trim l)) (filter (\<lambda>l. \<not> blank l) r))"
    unfolding header_loop_Some by auto
  finally show ?thesis by (auto simp: csv_data_def)
qed

lemma csv_data_full: "csv_data content = Some (h, r) \<Longrightarrow> \<forall>(i, l) \<in> set r. trim l \<noteq> []"
  by (auto simp: csv_data_def blank_def)

lemma lines_say_iff:
  "\<forall>(i, l) \<in> set r. trim l \<noteq> [] \<Longrightarrow>
   list_all2 (\<lambda>(i, t). line_says i t) (map (\<lambda>(i, l). (Suc i, trim l)) r) rs \<longleftrightarrow> rs = map line_result r"
  by (induction r arbitrary: rs) (auto simp: list_all2_Cons1 line_says_iff)

lemma results_errors:
  "concat [es. Inl es \<leftarrow> map line_result r] = concat (map line_errors r)"
  "(\<exists>x \<in> set (map line_result r). isl x) \<longleftrightarrow> concat (map line_errors r) \<noteq> []"
  "map Inr rows = map line_result r \<longleftrightarrow> concat (map line_errors r) = [] \<and> rows = map line_row r"
  by (induction r arbitrary: rows) (auto simp: line_result_def Cons_eq_map_conv)

text \<open>
  C28. The parser finds exactly what the file says, for every text: it is empty when all
  lines are blank; otherwise its first line that is not blank has to be the header, up to
  case and surrounding white space; then every further line that is not blank is read on
  its own, and when any has a fault all faults of all lines are reported in the order of the
  file with the lines' numbers, else the rows are returned in order, and there must be one. The
  right-hand side is the relation above; it shares with the parser only the model of
  the standard library's \<open>lines\<close> and \<open>to_lowercase\<close>.
\<close>

theorem parse_csv_whole_file: "parse_csv content = res \<longleftrightarrow> file_says content res"
proof -
  have header: "expected_header = ''order_id,merchant_address,token_address,amount,memo''"
    by (simp only: expected_header_def)
  note computed = parse_csv_computed [of content, unfolded header]
  have says: "file_says content (parse_csv content)"
  proof (cases "csv_data content")
    case None
    then have "\<forall>l \<in> set (lines_of content). trims_to l []"
      by (auto simp: csv_data_def header_loop_None trim_iff [symmetric])
    with None show ?thesis unfolding computed by (simp add: blank_file)
  next
    case (Some hr)
    then obtain h r where data: "csv_data content = Some (h, r)" by (cases hr) auto
    then have parts: "file_parts content h (map (\<lambda>(i, l). (Suc i, trim l)) r)" by (auto simp: file_parts_iff)
    note say = lines_say_iff [OF csv_data_full [OF data]]
    consider (other) "lower h \<noteq> ''order_id,merchant_address,token_address,amount,memo''"
      | (bad) "lower h = ''order_id,merchant_address,token_address,amount,memo''" "concat (map line_errors r) \<noteq> []"
      | (none) "lower h = ''order_id,merchant_address,token_address,amount,memo''" "r = []"
      | (good) "lower h = ''order_id,merchant_address,token_address,amount,memo''" "concat (map line_errors r) = []" "r \<noteq> []"
      by blast
    then show ?thesis
    proof cases
      case other
      with data show ?thesis unfolding computed by (simp add: other_header [OF parts])
    next
      case bad
      from bad_lines [OF parts bad(1), of "map line_result r"] bad data
      show ?thesis unfolding computed say results_errors by simp
    next
      case none
      with no_lines [of content h] parts data show ?thesis unfolding computed by simp
    next
      case good
      from good_lines [OF parts good(1), of "map line_row r"] good data
      show ?thesis unfolding computed say results_errors by simp
    qed
  qed
  have "res = parse_csv content" if "file_says content res" for res
    using that
  proof cases
    case blank_file
    then have "csv_data content = None" by (auto simp: csv_data_def header_loop_None trim_iff)
    with blank_file show ?thesis unfolding computed by simp
  next
    case (other_header h data)
    then show ?thesis unfolding computed by (auto simp: file_parts_iff)
  next
    case (bad_lines h data rs)
    from bad_lines(2) obtain r where r: "csv_data content = Some (h, r)" "data = map (\<lambda>(i, l). (Suc i, trim l)) r"
      by (auto simp: file_parts_iff)
    with bad_lines(4) have "rs = map line_result r" using lines_say_iff [OF csv_data_full [OF r(1)]] by simp
    with bad_lines r show ?thesis unfolding computed by (simp only: results_errors) simp
  next
    case (no_lines h)
    then show ?thesis unfolding computed by (auto simp: file_parts_iff)
  next
    case (good_lines h data rows)
    from good_lines(2) obtain r where r: "csv_data content = Some (h, r)" "data = map (\<lambda>(i, l). (Suc i, trim l)) r"
      by (auto simp: file_parts_iff)
    with good_lines(4) have "map Inr rows = map line_result r" using lines_say_iff [OF csv_data_full [OF r(1)]] by simp
    with good_lines r show ?thesis unfolding computed results_errors by auto
  qed
  with says show ?thesis by blast
qed

theorem parse_csv_rows_are_good:
  assumes "parse_csv content = Inr rows"
  shows "rows \<noteq> [] \<and> list_all good_row rows"
proof -
  obtain h ls where "header_loop (List.enumerate 0 (lines_of content)) = Some (h, ls)"
    and r: "rows = map line_row (filter (\<lambda>l. \<not> blank l \<and> line_errors l = []) ls)" "rows \<noteq> []"
    using assms by (auto simp: parse_csv_def csv_lines split: option.splits if_splits)
  then show ?thesis by (auto simp: list_all_iff good_line)
qed

section \<open>The round trip\<close>

text \<open>A file as a spreadsheet writes it, and the rows whose text survives it.\<close>

definition render_row :: "csv_row \<Rightarrow> string" where
  "render_row r = cr_order_id r @ '','' @ cr_merchant_address r @ '','' @ cr_token_address r @ '','' @
     show_int (cr_amount r) @ '','' @ cr_memo r"

definition crlf :: string where "crlf = CHR 0x0D # nl"

definition render_csv :: "string \<Rightarrow> csv_row list \<Rightarrow> string" where
  "render_csv eol rows = expected_header @ eol @ concat (map (\<lambda>r. render_row r @ eol) rows)"

definition line_end :: "string \<Rightarrow> bool" where
  "line_end eol \<longleftrightarrow> eol = nl \<or> eol = crlf"

definition field_text :: "string \<Rightarrow> bool" where
  "field_text s \<longleftrightarrow> trimmed s \<and> CHR '','' \<notin> set s \<and> CHR 0x0A \<notin> set s"

definition writable_row :: "csv_row \<Rightarrow> bool" where
  "writable_row r \<longleftrightarrow> good_row r \<and> field_text (cr_order_id r) \<and> field_text (cr_merchant_address r) \<and>
     field_text (cr_token_address r) \<and> trimmed (cr_memo r) \<and> CHR 0x0A \<notin> set (cr_memo r)"

lemma show_int_field:
  assumes "0 < i"
  shows "field_text (show_int i)"
proof -
  have d: "list_all is_digit (show_int i)"
    using assms show_nat_digits [of "nat i"] by (simp add: show_int_def)
  have "\<not> is_digit CHR '',''" "\<not> is_digit CHR 0x0A" by (simp_all add: is_digit_def byte_def)
  with d show ?thesis using trimmed_digits [OF d] by (auto simp: field_text_def list_all_iff)
qed

lemma render_row_no_newline: "writable_row r \<Longrightarrow> CHR 0x0A \<notin> set (render_row r)"
  using show_int_field [of "cr_amount r"]
  by (auto simp: writable_row_def render_row_def field_text_def good_row_def)

lemma trimmed_join: "trimmed s \<Longrightarrow> trimmed t \<Longrightarrow> trimmed (s @ '','' @ m @ '','' @ t)"
  using ws_prefix_comma [of "map byte s" "map byte (m @ '','' @ t)"]
    ws_suffix_comma [of "map byte (rev t)" "map byte (rev m @ '','' @ rev s)"]
  by (simp add: trimmed_def byte_def)

lemma render_row_trimmed: "writable_row r \<Longrightarrow> trimmed (render_row r)"
  using trimmed_join [of "cr_order_id r" "cr_memo r" "cr_merchant_address r @ '','' @ cr_token_address r @ '','' @ show_int (cr_amount r)"]
  by (simp add: writable_row_def render_row_def field_text_def)

lemma render_row_parts:
  assumes "writable_row r"
  shows "splitn 5 (CHR '','') (render_row r) =
    [cr_order_id r, cr_merchant_address r, cr_token_address r, show_int (cr_amount r), cr_memo r]"
proof -
  have "CHR '','' \<notin> set (show_int (cr_amount r))"
    using assms show_int_field [of "cr_amount r"] by (simp add: writable_row_def good_row_def field_text_def)
  then show ?thesis
    using assms by (simp add: render_row_def writable_row_def field_text_def numeral_eq_Suc splitn_field del: splitn.simps(3))
qed

lemma line_of_row:
  assumes "writable_row r"
  shows "\<not> blank (i, render_row r)" and "line_errors (i, render_row r) = []"
    and "line_row (i, render_row r) = r"
proof -
  have t: "trim (render_row r) = render_row r"
    by (rule trim_trimmed [OF render_row_trimmed [OF assms]])
  have w: "good_row r" "trim (cr_order_id r) = cr_order_id r" "trim (cr_merchant_address r) = cr_merchant_address r"
    "trim (cr_token_address r) = cr_token_address r" "trim (cr_memo r) = cr_memo r"
    using assms by (simp_all add: writable_row_def field_text_def trim_trimmed)
  have n: "trim (show_int (cr_amount r)) = show_int (cr_amount r)"
    using w(1) show_int_field [of "cr_amount r"] by (simp add: good_row_def field_text_def trim_trimmed)
  have a: "parse_i128 (show_int (cr_amount r)) = Some (cr_amount r)"
    using w(1) by (intro parse_show_i128) (simp_all add: good_row_def)
  show "\<not> blank (i, render_row r)"
    using t by (simp add: blank_def) (simp add: render_row_def)
  show "line_errors (i, render_row r) = []"
    using t w n a render_row_parts [OF assms]
    by (simp add: line_errors_def good_row_def Let_def)
  show "line_row (i, render_row r) = r"
    using t w n a render_row_parts [OF assms] by (simp add: line_row_def)
qed

lemma header_facts: "trim expected_header = expected_header" "lower expected_header = expected_header"
  "expected_header \<noteq> []" "trimmed expected_header"
proof -
  show t: "trimmed expected_header"
    by (simp add: trimmed_def expected_header_def byte_def ws1_def ws2_def ws3_def)
  show "trim expected_header = expected_header" by (rule trim_trimmed [OF t])
qed (simp_all add: expected_header_def lower_byte_def byte_def)

lemma lines_loop_eol:
  assumes "line_end eol" and "CHR 0x0A \<notin> set l" and "trimmed l"
  shows "lines_loop [] (l @ eol @ r) = l # lines_loop [] r"
  using assms(1) lines_loop_line [of l "[]" r] lines_loop_line [of "l @ [CHR 0x0D]" "[]" r] assms(2)
    trimmed_no_cr [OF assms(3)]
  by (auto simp: line_end_def crlf_def nl_def strip_cr_def)

lemma render_csv_lines:
  assumes "line_end eol" and "list_all writable_row rows"
  shows "lines_of (render_csv eol rows) = expected_header # map render_row rows"
proof -
  have "lines_loop [] (concat (map (\<lambda>r. render_row r @ eol) rows)) = map render_row rows"
    using assms(2)
    by (induction rows)
      (simp_all add: lines_loop_eol [OF assms(1) render_row_no_newline render_row_trimmed])
  moreover have "CHR 0x0A \<notin> set expected_header" by (simp add: expected_header_def)
  ultimately show ?thesis
    by (simp add: lines_of_def render_csv_def lines_loop_eol [OF assms(1)] header_facts)
qed

lemma rows_of_lines:
  assumes "list_all writable_row rows"
  shows "filter (\<lambda>l. \<not> blank l \<and> line_errors l = []) (List.enumerate n (map render_row rows)) =
      List.enumerate n (map render_row rows)"
    and "concat (map line_errors (List.enumerate n (map render_row rows))) = []"
    and "map line_row (List.enumerate n (map render_row rows)) = rows"
  using assms by (induction rows arbitrary: n) (simp_all add: line_of_row)

lemma parse_rendered:
  assumes "line_end eol" and "list_all writable_row rows" and "rows \<noteq> []"
  shows "parse_csv (render_csv eol rows) = Inr rows"
proof -
  have "header_loop (List.enumerate 0 (lines_of (render_csv eol rows))) =
      Some (expected_header, List.enumerate 1 (map render_row rows))"
    by (simp add: render_csv_lines [OF assms(1,2)] header_facts)
  then show ?thesis
    using rows_of_lines [OF assms(2), of 1] assms(3)
    by (cases rows) (simp_all add: parse_csv_def csv_lines header_facts)
qed

text \<open>
  C29. A file written from rows that pass the checks, with either line ending, is read
  back as these rows: commas in the memo stay in the memo, and empty memos stay empty. So
  no two lists of such rows have the same file.
\<close>

theorem csv_round_trip:
  assumes "line_end eol" and "list_all writable_row rows" and "rows \<noteq> []"
  shows "parse_csv (render_csv eol rows) = Inr rows \<and>
    (list_all writable_row rows2 \<and> rows2 \<noteq> [] \<and> render_csv eol rows2 = render_csv eol rows \<longrightarrow> rows2 = rows)"
  using parse_rendered [OF assms] parse_rendered [OF assms(1), of rows2] by auto

definition sample_row :: csv_row where
  "sample_row = \<lparr>cr_order_id = ''ORD1'', cr_merchant_address = CHR ''G'' # replicate 55 CHR ''A'',
     cr_token_address = CHR ''G'' # replicate 55 CHR ''B'', cr_amount = 1500, cr_memo = ''two, with commas''\<rparr>"

lemma sample_writable: "writable_row sample_row" "writable_row (sample_row\<lparr>cr_memo := []\<rparr>)"
proof -
  have "trimmed (CHR ''G'' # replicate 55 CHR ''A'')" "trimmed (CHR ''G'' # replicate 55 CHR ''B'')"
    "trimmed ''ORD1''" "trimmed ''two, with commas''"
    by (simp_all add: trimmed_def byte_def ws1_def ws2_def ws3_def numeral_eq_Suc)
  then show "writable_row sample_row" "writable_row (sample_row\<lparr>cr_memo := []\<rparr>)"
    by (simp_all add: writable_row_def sample_row_def good_row_def stellar_address_def field_text_def
        const_defs trimmed_def)
qed

theorem csv_round_trip_witness:
  "parse_csv (render_csv crlf [sample_row, sample_row\<lparr>cr_memo := []\<rparr>]) =
     Inr [sample_row, sample_row\<lparr>cr_memo := []\<rparr>]"
  using csv_round_trip [of crlf "[sample_row, sample_row\<lparr>cr_memo := []\<rparr>]" "[]"] sample_writable
  by (simp add: line_end_def)

text \<open>
  The meaning of two files: one of two good rows, and one with the header in capitals, white space
  around it, and a row of four faults and one of too few columns.
\<close>

definition faulty_file :: string where
  "faulty_file = CHR 0x0A # '' ORDER_ID,Merchant_Address,token_address,amount,memo '' @
     [CHR 0x0A, CHR 0x0A] @ '', GX , GY, -3, '' @ [CHR 0x0A] @ ''a,b'' @ [CHR 0x0A]"

theorem parse_csv_whole_file_witness:
  "file_says (render_csv crlf [sample_row, sample_row\<lparr>cr_memo := []\<rparr>])
     (Inr [sample_row, sample_row\<lparr>cr_memo := []\<rparr>]) \<and>
   file_says faulty_file (Inl (ValidationFailed
     [EmptyOrderId 4, BadMerchantAddress 4 ''GX'', BadTokenAddress 4 ''GY'', AmountNotPositive 4 ''-3'',
      ExpectedFiveColumns 5 2 ''a,b'']))"
proof -
  have "parse_csv faulty_file = Inl (ValidationFailed
     [EmptyOrderId 4, BadMerchantAddress 4 ''GX'', BadTokenAddress 4 ''GY'', AmountNotPositive 4 ''-3'',
      ExpectedFiveColumns 5 2 ''a,b''])"
    by code_simp
  then show ?thesis
    using parse_csv_whole_file parse_rendered [of crlf "[sample_row, sample_row\<lparr>cr_memo := []\<rparr>]"] sample_writable
    by (auto simp: line_end_def)
qed

end
