(* ===== verification/CliCommands.thy ===== *)
theory CliCommands
  imports CliConfig CliCsv
begin

text \<open>
  The commands of the tool: the arms of \<open>main\<close> with the lines they print, the
  \<open>stellar\<close> commands they run and how they end, and the tables of results. What a
  command answers is the parameter \<open>run\<close>, over a world that it may change; the JSON parser is
  a parameter too.
\<close>

section \<open>Running a command\<close>

text \<open>The output of a process that was started, with its texts decoded; or why it was not.\<close>

record proc =
  pr_success :: bool
  pr_stdout :: string
  pr_stderr :: string

datatype cmd_output = Ran proc | NotStarted string

type_synonym 'w runner = "string list \<Rightarrow> 'w \<Rightarrow> cmd_output \<times> 'w"

datatype ending = Finished | Bail string | Panics

text \<open>What is printed to the two streams, how the command ends, and the world it leaves.\<close>

record 'w cli_run =
  printed :: "string list"
  complained :: "string list"
  ended :: ending
  outside :: 'w

definition prints :: "'w \<Rightarrow> string list \<Rightarrow> 'w cli_run" where
  "prints w ls = \<lparr>printed = ls, complained = [], ended = Finished, outside = w\<rparr>"

definition bails :: "'w \<Rightarrow> string list \<Rightarrow> string \<Rightarrow> 'w cli_run" where
  "bails w ls msg = \<lparr>printed = ls, complained = [], ended = Bail msg, outside = w\<rparr>"

section \<open>Commands\<close>

datatype admin_command = AccountStats (as_address: string)

datatype merchant_command =
    MerchantList (ml_admin_key: string) (ml_limit: nat) (ml_cursor: "string option") (ml_output: string)
  | MerchantUpdate (mu_address: string) (mu_name: "string option") (mu_description: "string option")
      (mu_contact_info: "string option") (mu_category: "string option")

datatype refund_command =
    RefundInit (ri_order_id: string) (ri_amount: int) (ri_reason: string) (ri_caller: string)
  | RefundApprove (ra_refund_id: string) (ra_caller: string)
  | RefundReject (rj_refund_id: string) (rj_caller: string)
  | RefundExecute (re_refund_id: string)
  | RefundStatus (rt_refund_id: string)
  | RefundList (rl_order_id: string) (rl_caller: string) (rl_output: string)

datatype commands =
    CmdPay (py_merchant: string) (py_amount: int) (py_order_id: string) (py_token: string)
      (py_memo: "string option") (py_signature: string) (py_merchant_public_key: string) (py_idempotent: bool)
  | CmdMerchant merchant_command
  | CmdRefund refund_command
  | CmdHistory (hi_merchant: string) (hi_cursor: "string option") (hi_limit: nat)
  | CmdStats (st_admin: string)
  | CmdPrintConfig
  | CmdBatchPay (bp_file: string) (bp_token: "string option") (bp_signature: string) (bp_merchant_public_key: string)
  | CmdAdmin admin_command

definition CLI_MAX_PAYMENT_IDS_PER_ACCOUNT :: nat where
  "CLI_MAX_PAYMENT_IDS_PER_ACCOUNT = 10000"

section \<open>Messages\<close>

definition format_pay :: "string \<Rightarrow> string \<Rightarrow> int \<Rightarrow> string \<Rightarrow> string" where
  "format_pay order_id merchant amount network =
     ''Processing payment...'' @ nl @ ''  Order:    '' @ order_id @ nl @ ''  Merchant: '' @ merchant @ nl @
     ''  Amount:   '' @ show_int amount @ nl @ ''  Network:  '' @ network @ nl @ nl @
     ''Success! Payment for order '' @ order_id @ '' has been submitted.''"

definition format_refund_init :: "string \<Rightarrow> int \<Rightarrow> string \<Rightarrow> string" where
  "format_refund_init order_id amount contract_id =
     ''Initiating refund of '' @ show_int amount @ '' for order '' @ order_id @ ''...'' @ nl @
     ''  Contract: '' @ contract_id"

definition format_history :: "string \<Rightarrow> string" where
  "format_history merchant =
     ''Fetching payment history for merchant '' @ merchant @ ''...'' @ nl @ ''  (Mock data)'' @ nl @
     ''  - ORDER_001: 500 XLM'' @ nl @ ''  - ORDER_002: 1200 XLM''"

definition format_stats :: string where
  "format_stats = ''Global LumenFlow Statistics:'' @ nl @ ''  Total Volume:   45,000.00'' @ nl @
     ''  Total Payments: 128'' @ nl @ ''  Active Merch:   12''"

section \<open>Tables\<close>

definition col_width :: "string list \<Rightarrow> string \<Rightarrow> nat" where
  "col_width cells header = max (fold max (map length cells) 0) (length header)"

definition table_sep :: "nat list \<Rightarrow> string" where
  "table_sep ws = ''+-'' @ joined ''-+-'' (map (\<lambda>w. replicate w CHR ''-'') ws) @ ''-+''"

definition table_row :: "nat list \<Rightarrow> string list \<Rightarrow> string" where
  "table_row ws cells = ''| '' @ joined '' | '' (map2 pad ws cells) @ '' |''"

record row_result =
  rw_order_id :: string
  rw_status :: string
  rw_tx_hash :: string

definition print_results_table :: "row_result list \<Rightarrow> string list" where
  "print_results_table results =
     (let w_order = col_width (map rw_order_id results) ''order_id'';
          w_status = col_width (map rw_status results) ''status'';
          w_hash = col_width (map rw_tx_hash results) ''tx_hash'';
          sep = table_sep [w_order, w_status, w_hash]
      in [sep, table_row [w_order, w_status, w_hash] [''order_id'', ''status'', ''tx_hash''], sep] @
         map (\<lambda>r. table_row [w_order, w_status, w_hash] [rw_order_id r, rw_status r, rw_tx_hash r]) results @
         [sep])"

text \<open>
  An element of the answer of \<open>get_refunds_for_order\<close>, as \<open>serde_json\<close> reads it: the texts
  of the fields that are strings, and the JSON text of the amount.
\<close>

record refund_view =
  rv_refund_id :: "string option"
  rv_status :: "string option"
  rv_amount :: string
  rv_reason :: "string option"
  rv_initiator :: "string option"

definition or_dash :: "string option \<Rightarrow> string" where
  "or_dash x = unwrap_default ''-'' x"

definition refund_cells :: "refund_view \<Rightarrow> string list" where
  "refund_cells r = [or_dash (rv_refund_id r), or_dash (rv_status r), rv_amount r,
     or_dash (rv_reason r), or_dash (rv_initiator r)]"

definition print_refunds_table :: "string \<Rightarrow> refund_view list \<Rightarrow> string list" where
  "print_refunds_table order_id refunds =
     (let w_id = col_width (map (\<lambda>r. or_dash (rv_refund_id r)) refunds) ''refund_id'';
          w_status = col_width (map (\<lambda>r. or_dash (rv_status r)) refunds) ''status'';
          w_amount = col_width (map rv_amount refunds) ''amount'';
          w_reason = col_width (map (\<lambda>r. or_dash (rv_reason r)) refunds) ''reason'';
          w_init = col_width (map (\<lambda>r. or_dash (rv_initiator r)) refunds) ''initiator'';
          ws = [w_id, w_status, w_amount, w_reason, w_init];
          sep = table_sep ws
      in [sep, table_row ws [''refund_id'', ''status'', ''amount'', ''reason'', ''initiator''], sep] @
         map (\<lambda>r. table_row ws (refund_cells r)) refunds @
         [sep, show_nat (length refunds) @ '' refund(s) for order '' @ order_id @ ''.''])"

section \<open>Commands that only print\<close>

definition no_signing_key :: string where
  "no_signing_key =
     ''No signing key available. Use --key-file, --prompt-key, or set LUMENFLOW_SOURCE.''"

definition cli_pay :: "config \<Rightarrow> string \<Rightarrow> int \<Rightarrow> string \<Rightarrow> bool \<Rightarrow> 'w \<Rightarrow> 'w cli_run" where
  "cli_pay cfg merchant amount order_id idempotent w =
     (if cf_source_account cfg = None then bails w [] no_signing_key
      else prints w (
        [''Processing payment'' @ (if idempotent then '' (idempotent)'' else []) @ ''...'',
         ''  Order:    '' @ order_id,
         ''  Merchant: '' @ merchant,
         ''  Amount:   '' @ show_int amount,
         ''  Network:  '' @ unwrap_default ''testnet'' (cf_network cfg)] @
        (if idempotent
         then [nl @ ''Note: duplicate submissions for order '' @ order_id @
               '' will return the existing payment record.'']
         else []) @
        [nl @ ''Success! Payment for order '' @ order_id @ '' has been submitted.'']))"

definition detail :: "string \<Rightarrow> string option \<Rightarrow> string list" where
  "detail title v = (case v of Some x \<Rightarrow> [title @ x] | None \<Rightarrow> [])"

definition cli_merchant_update ::
  "config \<Rightarrow> string \<Rightarrow> string option \<Rightarrow> string option \<Rightarrow> string option \<Rightarrow> string option \<Rightarrow> 'w \<Rightarrow> 'w cli_run" where
  "cli_merchant_update cfg address name description contact_info category w =
     prints w (
       [''Updating merchant profile for '' @ address @ ''...'',
        ''  Contract: '' @ unwrap_default ''N/A'' (cf_contract_id cfg)] @
       detail ''  Name: '' name @ detail ''  Description: '' description @
       detail ''  Contact Info: '' contact_info @ detail ''  Category: '' category @
       [nl @ ''Success! Merchant profile updated for '' @ address @ ''.''])"

definition ellipsis :: string where
  "ellipsis = [CHR 0xE2, CHR 0x80, CHR 0xA6]"

text \<open>
  The redacted key. A slice \<open>&s[a..b]\<close> panics when an end of it is inside a character,
  that is, when the byte there continues one.
\<close>

definition cuts_character :: "string \<Rightarrow> nat \<Rightarrow> bool" where
  "cuts_character s n \<longleftrightarrow> n < length s \<and> continues (s ! n)"

definition redact :: "string option \<Rightarrow> string option" where
  "redact x = (case x of
     None \<Rightarrow> Some ''(not set)''
   | Some s \<Rightarrow>
       if 8 < length s
       then if cuts_character s 4 \<or> cuts_character s (length s - 4) then None
         else Some (take 4 s @ ellipsis @ drop (length s - 4) s)
       else Some ''*****'')"

definition cli_print_config :: "config \<Rightarrow> 'w \<Rightarrow> 'w cli_run" where
  "cli_print_config cfg w =
     (let ls = [''Resolved configuration:'',
        ''  network:            '' @ unwrap_default ''testnet'' (cf_network cfg),
        ''  rpc_url:            '' @ unwrap_default ''https://soroban-testnet.stellar.org'' (cf_rpc_url cfg),
        ''  network_passphrase: '' @
          unwrap_default ''Test SDF Network ; September 2015'' (cf_network_passphrase cfg),
        ''  contract_id:        '' @ unwrap_default ''N/A'' (cf_contract_id cfg)]
      in case redact (cf_source_account cfg) of
           None \<Rightarrow> (prints w ls)\<lparr>ended := Panics\<rparr>
         | Some source_display \<Rightarrow> prints w (ls @ [''  source_account:     '' @ source_display]))"

section \<open>Commands that invoke the contract\<close>

definition cli_refund_list ::
  "(string \<Rightarrow> refund_view list option) \<Rightarrow> 'w runner \<Rightarrow> config \<Rightarrow> string \<Rightarrow> string \<Rightarrow> string \<Rightarrow> 'w \<Rightarrow> 'w cli_run" where
  "cli_refund_list json run cfg order_id caller output w =
     (case base_invoke cfg of
        Inl e \<Rightarrow> bails w [] e
      | Inr base \<Rightarrow>
          (case run (base @ [''--'', ''get_refunds_for_order'', ''--caller'', caller, ''--order_id'', order_id]) w of
             (NotStarted _, w1) \<Rightarrow> bails w1 [] ''Failed to invoke get_refunds_for_order''
           | (Ran out, w1) \<Rightarrow>
               if \<not> pr_success out
               then bails w1 [] (''get_refunds_for_order failed: '' @ trim (pr_stderr out))
               else
                 let raw = trim (pr_stdout out) in
                 if lower output = ''json'' then prints w1 [raw]
                 else (case json raw of
                     Some refunds \<Rightarrow>
                       if refunds = [] then prints w1 [''No refunds found for order '' @ order_id @ ''.'']
                       else prints w1 (print_refunds_table order_id refunds)
                   | None \<Rightarrow> prints w1 [raw])))"

definition cli_refund ::
  "(string \<Rightarrow> refund_view list option) \<Rightarrow> 'w runner \<Rightarrow> config \<Rightarrow> refund_command \<Rightarrow> 'w \<Rightarrow> 'w cli_run" where
  "cli_refund json run cfg action w =
     (if cf_source_account cfg = None then bails w [] no_signing_key
      else case action of
        RefundInit order_id amount _ _ \<Rightarrow>
          prints w [''Initiating refund of '' @ show_int amount @ '' for order '' @ order_id @ ''...'',
            ''  Contract: '' @ unwrap_default ''N/A'' (cf_contract_id cfg)]
      | RefundApprove refund_id _ \<Rightarrow> prints w [''Approving refund '' @ refund_id @ ''...'']
      | RefundReject refund_id _ \<Rightarrow> prints w [''Rejecting refund '' @ refund_id @ ''...'']
      | RefundExecute refund_id \<Rightarrow> prints w [''Executing refund '' @ refund_id @ ''...'']
      | RefundStatus refund_id \<Rightarrow> prints w [''Querying status of refund '' @ refund_id @ ''...'']
      | RefundList order_id caller output \<Rightarrow> cli_refund_list json run cfg order_id caller output w)"

definition cli_merchant_list ::
  "'w runner \<Rightarrow> config \<Rightarrow> string \<Rightarrow> nat \<Rightarrow> string option \<Rightarrow> string \<Rightarrow> 'w \<Rightarrow> 'w cli_run" where
  "cli_merchant_list run cfg admin_key limit cursor output w =
     (case base_invoke cfg of
        Inl e \<Rightarrow> bails w [] e
      | Inr cmd \<Rightarrow>
          (case non_empty (cf_contract_id cfg) of
             None \<Rightarrow> bails w []
               ''Missing contract ID. Set LUMENFLOW_CONTRACT_ID or contract_id in .lumenflow.toml''
           | Some contract_id_val \<Rightarrow>
               (case run ([''stellar'', ''contract'', ''invoke'', ''--id'', contract_id_val,
                        ''--source-account'', admin_key] @ network_args cfg @
                      [''--'', ''get_merchants'', ''--admin'', admin_key,
                       ''--cursor'', unwrap_default ''null'' cursor, ''--limit'', show_nat limit]) w of
                  (NotStarted _, w1) \<Rightarrow> bails w1 [] ''failed to invoke get_merchants''
                | (Ran out, w1) \<Rightarrow>
                    if \<not> pr_success out
                    then bails w1 [] (''get_merchants failed: '' @ trim (pr_stderr out))
                    else
                      let raw = trim (pr_stdout out) in
                      if lower output = ''json'' then prints w1 [raw]
                      else prints w1
                        [''Merchant list (network: '' @ unwrap_default ''testnet'' (cf_network cfg) @
                           '', limit: '' @ show_nat limit @
                           '', cursor: '' @ unwrap_default ''(start)'' cursor @ ''):'',
                         raw])))"

section \<open>Account statistics\<close>

fun find_map :: "('a \<Rightarrow> 'b option) \<Rightarrow> 'a list \<Rightarrow> 'b option" where
  "find_map f [] = None"
| "find_map f (x # xs) = (case f x of Some y \<Rightarrow> Some y | None \<Rightarrow> find_map f xs)"

text \<open>
  A positive \<open>f64\<close> as \<open>m / 2 ^ k\<close>, with the 53 bits of its significand in \<open>m\<close>. The quotient of
  two numbers is rounded to the nearest such number, ties to even, and so is the decimal
  that is printed.
\<close>

definition round_half_even :: "nat \<Rightarrow> nat \<Rightarrow> nat" where
  "round_half_even n d =
     (let q = n div d; r = n mod d in if 2 * r < d \<or> 2 * r = d \<and> even q then q else q + 1)"

function scale_up :: "nat \<Rightarrow> nat \<Rightarrow> nat \<Rightarrow> nat \<times> nat" where
  "scale_up n d k = (if n = 0 \<or> 2 ^ 52 * d \<le> n then (n, k) else scale_up (2 * n) d (k + 1))"
  by auto

termination by (relation "measure (\<lambda>(n, d, k). 2 ^ 52 * d - n)") auto

declare scale_up.simps [simp del]

definition f64_ratio :: "nat \<Rightarrow> nat \<Rightarrow> nat \<times> nat" where
  "f64_ratio n d = (let (n2, k) = scale_up n d 0 in (round_half_even n2 d, k))"

text \<open>\<open>format!("{:.1}", (count as f64 / cap as f64) * 100.0)\<close>, for a count of 32 bits.\<close>

definition percent_text :: "nat \<Rightarrow> string" where
  "percent_text count =
     (let (m, k) = f64_ratio count CLI_MAX_PAYMENT_IDS_PER_ACCOUNT;
          (m2, k2) = f64_ratio (m * 100) (2 ^ k);
          tenths = round_half_even (m2 * 10) (2 ^ k2)
      in show_nat (tenths div 10) @ ''.'' @ show_nat (tenths mod 10))"

definition cli_account_stats :: "'w runner \<Rightarrow> config \<Rightarrow> string \<Rightarrow> 'w \<Rightarrow> 'w cli_run" where
  "cli_account_stats run cfg address w =
     (case base_invoke cfg of
        Inl e \<Rightarrow> bails w [] e
      | Inr base \<Rightarrow>
          (case run (base @ [''--'', ''get_account_payment_count'', ''--address'', address]) w of
             (NotStarted _, w1) \<Rightarrow> bails w1 [] ''failed to invoke get_account_payment_count''
           | (Ran out, w1) \<Rightarrow>
               if \<not> pr_success out
               then bails w1 [] (''get_account_payment_count failed: '' @ trim (pr_stderr out))
               else
                 (case find_map (\<lambda>l. parse_u32 (trim l)) (rev (lines_of (pr_stdout out))) of
                    None \<Rightarrow> bails w1 []
                      (''could not parse payment count from output: '' @ trim (pr_stdout out))
                  | Some count \<Rightarrow> prints w1 (
                      [''Account:        '' @ address,
                       ''Payment count:  '' @ show_nat count,
                       ''Cap:            '' @ show_nat CLI_MAX_PAYMENT_IDS_PER_ACCOUNT,
                       ''Usage:          '' @ percent_text count @ ''%''] @
                      (if CLI_MAX_PAYMENT_IDS_PER_ACCOUNT * 9 div 10 \<le> count
                       then [nl @ ''Warning: this account is at or above 90% of '' @
                         ''MAX_PAYMENT_IDS_PER_ACCOUNT. Further payments may soon fail with '' @
                         ''PaymentHistoryLimitExceeded.'']
                       else [])))))"

section \<open>Batch payment\<close>

definition is_hexdigit :: "char \<Rightarrow> bool" where
  "is_hexdigit c \<longleftrightarrow> is_digit c \<or> 65 \<le> byte c \<and> byte c \<le> 70 \<or> 97 \<le> byte c \<and> byte c \<le> 102"

definition first_that :: "(string \<Rightarrow> bool) \<Rightarrow> string \<Rightarrow> string list \<Rightarrow> string" where
  "first_that P d ls = unwrap_default d (find P ls)"

definition batch_command ::
  "string list \<Rightarrow> string \<Rightarrow> string option \<Rightarrow> string \<Rightarrow> string \<Rightarrow> csv_row \<Rightarrow> string list" where
  "batch_command base payer token signature merchant_public_key row =
     base @ [''--'', ''process_payment_with_signature'',
       ''--payer'', payer,
       ''--order_id'', cr_order_id row,
       ''--merchant_address'', cr_merchant_address row,
       ''--token_address'', unwrap_default (cr_token_address row) token,
       ''--amount'', show_int (cr_amount row),
       ''--memo'', cr_memo row,
       ''--tags'', ''null'',
       ''--nonce'', ''1'',
       ''--signature'', signature,
       ''--merchant_public_key'', merchant_public_key]"

definition batch_result :: "csv_row \<Rightarrow> cmd_output \<Rightarrow> row_result" where
  "batch_result row output =
     (case output of
        Ran out \<Rightarrow>
          if pr_success out
          then \<lparr>rw_order_id = cr_order_id row, rw_status = ''success'',
                rw_tx_hash = trim (first_that (\<lambda>l. length l = 64 \<and> list_all is_hexdigit l) ''(no hash)''
                  (lines_of (pr_stdout out)))\<rparr>
          else \<lparr>rw_order_id = cr_order_id row,
                rw_status = ''FAILED: '' @ take_chars 60 (trim
                  (first_that (\<lambda>l. trim l \<noteq> []) ''unknown error'' (lines_of (pr_stderr out)))),
                rw_tx_hash = ''-''\<rparr>
      | NotStarted e \<Rightarrow>
          \<lparr>rw_order_id = cr_order_id row, rw_status = ''ERROR: '' @ e, rw_tx_hash = ''-''\<rparr>)"

fun batch_loop ::
  "'w runner \<Rightarrow> config \<Rightarrow> (string list \<Rightarrow> csv_row \<Rightarrow> string list) \<Rightarrow> csv_row list \<Rightarrow> row_result list \<Rightarrow> 'w
     \<Rightarrow> (string + row_result list) \<times> 'w" where
  "batch_loop run cfg command [] results w = (Inr results, w)"
| "batch_loop run cfg command (row # rows) results w =
     (case base_invoke cfg of
        Inl e \<Rightarrow> (Inl e, w)
      | Inr base \<Rightarrow>
          (case run (command base row) w of (output, w1) \<Rightarrow>
             batch_loop run cfg command rows (results @ [batch_result row output]) w1))"

definition starts_with :: "string \<Rightarrow> string \<Rightarrow> bool" where
  "starts_with p s \<longleftrightarrow> take (length p) s = p"

definition row_failed :: "row_result \<Rightarrow> bool" where
  "row_failed r \<longleftrightarrow> starts_with ''FAILED'' (rw_status r) \<or> starts_with ''ERROR'' (rw_status r)"

text \<open>The texts of the parser's errors.\<close>

definition display_row_error :: "(string \<Rightarrow> string) \<Rightarrow> row_error \<Rightarrow> string" where
  "display_row_error debug e = (case e of
     ExpectedFiveColumns n k t \<Rightarrow> ''Row '' @ show_nat n @ '': expected 5 columns, got '' @ show_nat k @
       '' (line: '' @ debug t @ '')''
   | EmptyOrderId n \<Rightarrow> ''Row '' @ show_nat n @ '': order_id must not be empty''
   | BadMerchantAddress n a \<Rightarrow> ''Row '' @ show_nat n @ '': merchant_address '' @ [CHR 0x27] @ a @ [CHR 0x27] @
       '' is not a valid Stellar address (must start with '' @ [CHR 0x27] @ ''G'' @ [CHR 0x27] @ '' and be 56 chars)''
   | BadTokenAddress n a \<Rightarrow> ''Row '' @ show_nat n @ '': token_address '' @ [CHR 0x27] @ a @ [CHR 0x27] @
       '' is not a valid Stellar address (must start with '' @ [CHR 0x27] @ ''G'' @ [CHR 0x27] @ '' and be 56 chars)''
   | AmountNotPositive n a \<Rightarrow> ''Row '' @ show_nat n @ '': amount must be a positive integer, got '' @
       [CHR 0x27] @ a @ [CHR 0x27]
   | AmountNotInteger n a \<Rightarrow> ''Row '' @ show_nat n @ '': amount '' @ [CHR 0x27] @ a @ [CHR 0x27] @
       '' is not a valid integer'')"

definition display_csv_error :: "(string \<Rightarrow> string) \<Rightarrow> csv_error \<Rightarrow> string" where
  "display_csv_error debug e = (case e of
     CsvEmpty \<Rightarrow> ''CSV file is empty''
   | HeaderMismatch h \<Rightarrow> ''CSV header mismatch.'' @ nl @ ''  Expected: '' @ expected_header @ nl @
       ''  Got:      '' @ h
   | ValidationFailed es \<Rightarrow> ''CSV validation failed:'' @ nl @ joined nl (map (display_row_error debug) es)
   | NoDataRows \<Rightarrow> ''CSV file contains no data rows'')"

definition cli_batch_pay ::
  "os \<Rightarrow> (string \<Rightarrow> string) \<Rightarrow> 'w runner \<Rightarrow> config \<Rightarrow> string \<Rightarrow> string option \<Rightarrow> string \<Rightarrow> string \<Rightarrow> 'w
     \<Rightarrow> 'w cli_run" where
  "cli_batch_pay os debug run cfg path token signature merchant_public_key w =
     (if cf_source_account cfg = None then bails w [] no_signing_key
      else case file_of os path of
        None \<Rightarrow> bails w [] (''Failed to read CSV file: '' @ path)
      | Some content \<Rightarrow>
          (case parse_csv content of
             Inl e \<Rightarrow> bails w [] (display_csv_error debug e)
           | Inr rows \<Rightarrow>
               if 10 < length rows
               then bails w [] (''Too many rows: '' @ show_nat (length rows) @
                 '' (batch_payment supports at most 10 items per call)'')
               else
                 let payer = unwrap_default [] (cf_source_account cfg);
                     first = ''Submitting '' @ show_nat (length rows) @ '' payment(s) from '' @ payer @
                       '' on '' @ unwrap_default ''testnet'' (cf_network cfg) @ ''...'' @ nl
                 in (case batch_loop run cfg
                        (\<lambda>base. batch_command base payer token signature merchant_public_key) rows [] w of
                       (Inl e, w1) \<Rightarrow> bails w1 [first] e
                     | (Inr results, w1) \<Rightarrow>
                         let failed = length (filter row_failed results);
                             succeeded = length results - failed;
                             shown = [first] @ print_results_table results @
                               [nl @ show_nat succeeded @ ''/'' @ show_nat (length results) @
                                '' payment(s) succeeded.'']
                         in if 0 < failed
                            then bails w1 shown
                              (show_nat failed @ '' payment(s) failed. See table above for details.'')
                            else prints w1 shown)))"

section \<open>The entry point\<close>

definition cli_main ::
  "os \<Rightarrow> (string \<Rightarrow> string) \<Rightarrow> (string \<Rightarrow> refund_view list option) \<Rightarrow> 'w runner \<Rightarrow> cli \<Rightarrow> commands \<Rightarrow> 'w
     \<Rightarrow> 'w cli_run" where
  "cli_main os debug json run c command w =
     (case load_config os (cl_config c) of
        Inl e \<Rightarrow> bails w [] e
      | Inr cfg0 \<Rightarrow>
          (case resolve_source os cfg0 (cl_key_file c) (cl_prompt_key c) of
             (notes, Inl e) \<Rightarrow> (bails w [] e)\<lparr>complained := notes\<rparr>
           | (notes, Inr cfg) \<Rightarrow>
               (case validate_config cfg of
                  Inl errors \<Rightarrow>
                    (bails w [] ''Invalid configuration. Run `lumenflow validate-config` for details.'')
                      \<lparr>complained := notes @ [''Configuration validation failed:''] @
                        map (\<lambda>e. ''  - '' @ display_config_error e) errors\<rparr>
                | Inr _ \<Rightarrow>
                    (case command of
                       CmdPay merchant amount order_id _ _ _ _ idempotent \<Rightarrow>
                         cli_pay cfg merchant amount order_id idempotent w
                     | CmdMerchant (MerchantUpdate address name description contact_info category) \<Rightarrow>
                         cli_merchant_update cfg address name description contact_info category w
                     | CmdMerchant (MerchantList admin_key limit cursor output) \<Rightarrow>
                         cli_merchant_list run cfg admin_key limit cursor output w
                     | CmdRefund action \<Rightarrow> cli_refund json run cfg action w
                     | CmdHistory merchant _ _ \<Rightarrow> prints w [format_history merchant]
                     | CmdStats _ \<Rightarrow> prints w [format_stats]
                     | CmdPrintConfig \<Rightarrow> cli_print_config cfg w
                     | CmdBatchPay path token signature merchant_public_key \<Rightarrow>
                         cli_batch_pay os debug run cfg path token signature merchant_public_key w
                     | CmdAdmin (AccountStats address) \<Rightarrow> cli_account_stats run cfg address w)
                      \<lparr>complained := notes\<rparr>)))"

section \<open>Tables line up\<close>

lemma col_width_header: "char_count header \<le> col_width cells header"
  using char_count_le [of header] by (simp add: col_width_def)

lemma fold_max_le: "(x :: nat) \<in> set xs \<Longrightarrow> x \<le> fold max xs a"
proof (induction xs arbitrary: a)
  case (Cons y ys)
  have mono: "b \<le> fold max zs b" for zs and b :: nat
  proof (induction zs arbitrary: b)
    case (Cons z zs)
    show ?case using Cons [of "max z b"] by simp
  qed simp
  show ?case using Cons mono [of "max y a" ys] by auto
qed simp

lemma col_width_cell: "c \<in> set cells \<Longrightarrow> char_count c \<le> col_width cells header"
  using char_count_le [of c] fold_max_le [of "length c" "map length cells" 0]
  by (simp add: col_width_def)

lemma char_count_joined:
  "char_count (joined sep xs) = sum_list (map char_count xs) + (length xs - 1) * char_count sep"
proof (cases xs)
  case (Cons y ys)
  have "char_count (concat (map (\<lambda>z. sep @ z) ys)) = sum_list (map char_count ys) + length ys * char_count sep"
    by (induction ys) simp_all
  with Cons show ?thesis by (simp add: joined_def)
qed (simp add: joined_def char_count_def)

lemma ascii_borders: "\<not> continues CHR ''-''" "\<not> continues CHR ''+''" "\<not> continues CHR ''|''" "\<not> continues CHR '' ''"
  by (simp_all add: continues_def byte_def)

definition table_width :: "nat list \<Rightarrow> nat" where
  "table_width ws = sum_list ws + (length ws - 1) * 3 + 4"

lemma table_sep_width: "char_count (table_sep ws) = table_width ws"
  by (simp add: table_sep_def char_count_joined ascii_borders table_width_def comp_def)

lemma table_row_width:
  assumes "list_all2 (\<lambda>w c. char_count c \<le> w) ws cells"
  shows "char_count (table_row ws cells) = table_width ws"
proof -
  have "map char_count (map2 pad ws cells) = ws" and "length (map2 pad ws cells) = length ws"
    using assms by (induction rule: list_all2_induct) (simp_all add: char_count_pad)
  then show ?thesis by (simp add: table_row_def char_count_joined ascii_borders table_width_def)
qed

text \<open>
  Every line of a table, its borders, header and rows, has the same number of
  characters, whatever text is in the cells: the columns are as wide as the longest cell
  in bytes, which is never less than its characters.
\<close>

theorem tables_line_up:
  "(\<exists>n. list_all (\<lambda>l. char_count l = n) (print_results_table results) \<and>
     length (print_results_table results) = length results + 4) \<and>
   (\<exists>n. list_all (\<lambda>l. char_count l = n) (butlast (print_refunds_table order_id refunds)))"
proof (rule conjI)
  show "\<exists>n. list_all (\<lambda>l. char_count l = n) (print_results_table results) \<and>
     length (print_results_table results) = length results + 4"
    by (rule exI [of _ "table_width [col_width (map rw_order_id results) ''order_id'',
        col_width (map rw_status results) ''status'', col_width (map rw_tx_hash results) ''tx_hash'']"])
      (simp add: print_results_table_def Let_def list_all_iff table_sep_width table_row_width
        col_width_header col_width_cell del: char_count_simps)
  show "\<exists>n. list_all (\<lambda>l. char_count l = n) (butlast (print_refunds_table order_id refunds))"
    by (rule exI [of _ "table_width [col_width (map (\<lambda>r. or_dash (rv_refund_id r)) refunds) ''refund_id'',
        col_width (map (\<lambda>r. or_dash (rv_status r)) refunds) ''status'', col_width (map rv_amount refunds) ''amount'',
        col_width (map (\<lambda>r. or_dash (rv_reason r)) refunds) ''reason'',
        col_width (map (\<lambda>r. or_dash (rv_initiator r)) refunds) ''initiator'']"])
      (simp add: print_refunds_table_def Let_def list_all_iff table_sep_width table_row_width
        refund_cells_def col_width_header col_width_cell butlast_append del: char_count_simps)
qed

section \<open>The batch\<close>

text \<open>Commands run one after the other, and what came of them.\<close>

fun run_all :: "'w runner \<Rightarrow> string list list \<Rightarrow> 'w \<Rightarrow> cmd_output list \<times> 'w" where
  "run_all run [] w = ([], w)"
| "run_all run (c # cs) w =
     (case run c w of (o1, w1) \<Rightarrow> (case run_all run cs w1 of (os, w2) \<Rightarrow> (o1 # os, w2)))"

definition cmd_ok :: "cmd_output \<Rightarrow> bool" where
  "cmd_ok c \<longleftrightarrow> (case c of Ran p \<Rightarrow> pr_success p | NotStarted _ \<Rightarrow> False)"

lemma run_all_length: "run_all run cs w = (os, w1) \<Longrightarrow> length os = length cs"
  by (induction cs arbitrary: w os) (auto split: prod.splits)

lemma batch_loop_run_all:
  assumes "base_invoke cfg = Inr base" and "run_all run (map (command base) rows) w = (os, w1)"
  shows "batch_loop run cfg command rows rs w = (Inr (rs @ map2 batch_result rows os), w1)"
  using assms(2)
  by (induction rows arbitrary: rs w os) (auto simp: assms(1) split: prod.splits)

lemma row_failed_batch_result: "row_failed (batch_result row c) \<longleftrightarrow> \<not> cmd_ok c"
  by (cases c) (simp_all add: row_failed_def batch_result_def cmd_ok_def starts_with_def)

lemma count_failed:
  "length rows = length os \<Longrightarrow>
   length (filter row_failed (map2 batch_result rows os)) = length (filter (\<lambda>c. \<not> cmd_ok c) os)"
  by (induction rows os rule: list_induct2) (simp_all add: row_failed_batch_result)

text \<open>
  C30. A batch of valid rows runs one command per row, in the order of the file, whatever
  came of the rows before it. The table has the result of each row, and the tool ends
  well exactly when every command did; otherwise its error counts those that failed.
\<close>

theorem batch_pay_settles_each_row:
  assumes "base_invoke cfg = Inr base" and "file_of os path = Some content"
    and "parse_csv content = Inr rows" and "length rows \<le> 10"
    and "run_all run (map (batch_command base (the (cf_source_account cfg)) token signature key) rows) w = (outs, w1)"
  shows "outside (cli_batch_pay os debug run cfg path token signature key w) = w1 \<and>
    ended (cli_batch_pay os debug run cfg path token signature key w) =
      (if list_all cmd_ok outs then Finished
       else Bail (show_nat (length (filter (\<lambda>c. \<not> cmd_ok c) outs)) @
         '' payment(s) failed. See table above for details.'')) \<and>
    (\<exists>first last. printed (cli_batch_pay os debug run cfg path token signature key w) =
       [first] @ print_results_table (map2 batch_result rows outs) @ [last])"
proof -
  obtain s where s: "cf_source_account cfg = Some s"
    using assms(1) by (cases "cf_source_account cfg") (auto simp: base_invoke_def non_empty_def split: option.splits)
  then have loop: "batch_loop run cfg (\<lambda>base. batch_command base s token signature key) rows [] w =
      (Inr (map2 batch_result rows outs), w1)"
    using batch_loop_run_all [OF assms(1), of run "\<lambda>base. batch_command base s token signature key" rows w outs w1 "[]"]
      assms(5) by simp
  have "length (filter row_failed (map2 batch_result rows outs)) = length (filter (\<lambda>c. \<not> cmd_ok c) outs)"
    using run_all_length [OF assms(5)] by (intro count_failed) simp
  moreover have "list_all cmd_ok outs \<longleftrightarrow> filter (\<lambda>c. \<not> cmd_ok c) outs = []"
    by (simp add: list_all_iff filter_empty_conv)
  ultimately show ?thesis
    using assms(2-4) s loop
    by (simp add: cli_batch_pay_def unwrap_default_def Let_def bails_def prints_def)
qed

text \<open>A sample: two rows, of which the second is refused.\<close>

definition sample_cfg :: config where
  "sample_cfg = \<lparr>cf_network = Some ''testnet'', cf_rpc_url = None, cf_network_passphrase = None,
     cf_contract_id = Some ''C1'', cf_source_account = Some ''SKEY''\<rparr>"

definition sample_os :: os where
  "sample_os = \<lparr>env_of = (\<lambda>_. None), file_of = (\<lambda>p. if p = ''pay.csv''
       then Some (render_csv nl [sample_row, sample_row\<lparr>cr_memo := []\<rparr>]) else None),
     exists_file = (\<lambda>_. False), typed_key = None, is_tty = False,
     toml_config = (\<lambda>_. None), toml_raw = (\<lambda>_. None)\<rparr>"

definition sample_runner :: "string list list runner" where
  "sample_runner c w = (Ran \<lparr>pr_success = (w = []), pr_stdout = [], pr_stderr = ''Error #22''\<rparr>, w @ [c])"

lemma sample_base: "base_invoke sample_cfg = Inr [''stellar'', ''contract'', ''invoke'', ''--id'', ''C1'',
    ''--source-account'', ''SKEY'', ''--network'', ''testnet'']"
  by (simp add: base_invoke_def sample_cfg_def non_empty_def network_args_def)

lemma sample_parse: "parse_csv (render_csv nl [sample_row, sample_row\<lparr>cr_memo := []\<rparr>]) =
    Inr [sample_row, sample_row\<lparr>cr_memo := []\<rparr>]"
  by (rule parse_rendered) (simp_all add: line_end_def sample_writable)

lemma sample_file: "file_of sample_os ''pay.csv'' = Some (render_csv nl [sample_row, sample_row\<lparr>cr_memo := []\<rparr>])"
  by (simp add: sample_os_def)

lemma sample_run: "run_all sample_runner (map c [x, y]) [] =
   ([Ran \<lparr>pr_success = True, pr_stdout = [], pr_stderr = ''Error #22''\<rparr>,
     Ran \<lparr>pr_success = False, pr_stdout = [], pr_stderr = ''Error #22''\<rparr>], [c x, c y])"
  by (simp add: sample_runner_def)

theorem batch_pay_settles_each_row_witness:
  "length (outside (cli_batch_pay sample_os id sample_runner sample_cfg ''pay.csv'' None ''aa'' ''bb'' [])) = 2 \<and>
   ended (cli_batch_pay sample_os id sample_runner sample_cfg ''pay.csv'' None ''aa'' ''bb'' []) =
     Bail ''1 payment(s) failed. See table above for details.''"
proof -
  have one: "show_nat (Suc 0) = ''1''" by code_simp
  show ?thesis
    using batch_pay_settles_each_row [OF sample_base sample_file sample_parse _ sample_run,
        where debug = id]
    by (simp add: cmd_ok_def one)
qed

lemma batch_pay_world:
  "outside (cli_batch_pay os debug run cfg path token signature key w) =
     (case base_invoke cfg of
        Inl _ \<Rightarrow> w
      | Inr base \<Rightarrow>
          (case file_of os path of
             None \<Rightarrow> w
           | Some content \<Rightarrow>
               (case parse_csv content of
                  Inl _ \<Rightarrow> w
                | Inr rows \<Rightarrow> if 10 < length rows then w
                    else snd (run_all run
                      (map (batch_command base (the (cf_source_account cfg)) token signature key) rows) w))))"
proof (cases "base_invoke cfg")
  case (Inl e)
  have "batch_loop run cfg c rows rs w = (Inr rs, w) \<or> batch_loop run cfg c rows rs w = (Inl e, w)" for c rows rs
    by (cases rows) (simp_all add: Inl)
  then have "snd (batch_loop run cfg c rows rs w) = w" for c rows rs by (metis snd_conv)
  with Inl show ?thesis
    by (auto simp: cli_batch_pay_def bails_def prints_def Let_def split: option.split sum.split prod.split)
       (metis snd_conv)+
next
  case (Inr base)
  then obtain s where s: "cf_source_account cfg = Some s"
    by (cases "cf_source_account cfg") (auto simp: base_invoke_def non_empty_def split: option.splits)
  have "snd (batch_loop run cfg (\<lambda>base. batch_command base s token signature key) rows [] w) =
      snd (run_all run (map (batch_command base s token signature key) rows) w)" for rows
    using batch_loop_run_all [OF Inr, of run "\<lambda>base. batch_command base s token signature key" rows w _ _ "[]"]
    by (metis prod.collapse snd_conv)
  with Inr s show ?thesis
    by (auto simp: cli_batch_pay_def bails_def prints_def Let_def unwrap_default_def split: option.split sum.split prod.split)
       (metis snd_conv)+
qed

lemma sample_world:
  "length (outside (cli_batch_pay sample_os id sample_runner sample_cfg ''pay.csv'' None ''aa'' ''bb'' [])) = 2"
  by (simp add: batch_pay_world sample_base sample_parse sample_file sample_run del: list.map)

text \<open>
  Nothing is submitted unless the whole batch is in order: if any command was run,
  then the file was read, every row of it passed the checks of the parser, and there are
  between one and ten rows.
\<close>

theorem invalid_batch_submits_nothing:
  assumes "outside (cli_batch_pay os debug run cfg path token signature key w) \<noteq> w"
  shows "\<exists>content rows. file_of os path = Some content \<and> parse_csv content = Inr rows \<and>
    rows \<noteq> [] \<and> length rows \<le> 10 \<and> list_all good_row rows"
  using assms by (auto simp: batch_pay_world parse_csv_rows_are_good split: option.splits sum.splits if_splits)

theorem invalid_batch_submits_nothing_witness:
  "\<exists>content rows. file_of sample_os ''pay.csv'' = Some content \<and> parse_csv content = Inr rows \<and>
    rows \<noteq> [] \<and> length rows \<le> 10 \<and> list_all good_row rows"
  by (rule invalid_batch_submits_nothing [of sample_os id sample_runner sample_cfg _ None "''aa''" "''bb''" "[]"])
    (use sample_world in auto)

section \<open>Secrets\<close>

text \<open>
  What \<open>print-config\<close> shows of a long key in ASCII: its first and last four characters
  and nothing of the others.
\<close>

lemma ascii_whole: "list_all (\<lambda>c. byte c < 128) s \<Longrightarrow> \<not> cuts_character s n"
  by (auto simp: cuts_character_def continues_def list_all_length)

theorem print_config_redacts:
  assumes "list_all (\<lambda>c. byte c < 128) s" and "list_all (\<lambda>c. byte c < 128) t"
    and "8 < length s" and "8 < length t"
    and "take 4 s = take 4 t" and "drop (length s - 4) s = drop (length t - 4) t"
  shows "cli_print_config (cfg\<lparr>cf_source_account := Some s\<rparr>) w = cli_print_config (cfg\<lparr>cf_source_account := Some t\<rparr>) w"
  using assms by (simp add: cli_print_config_def redact_def ascii_whole)

text \<open>A key outside ASCII can make it panic instead.\<close>

lemma print_config_can_panic:
  "ended (cli_print_config (cfg\<lparr>cf_source_account :=
     Some (''abc'' @ [CHR 0xC3, CHR 0xA9] @ ''defgh'')\<rparr>) w) = Panics"
  by (simp add: cli_print_config_def redact_def cuts_character_def continues_def byte_def prints_def)

text \<open>\<open>batch-pay\<close> prints the key in full, before anything else.\<close>

lemma batch_pay_prints_the_key:
  assumes "cf_source_account cfg = Some secret" and "file_of os path = Some content"
    and "parse_csv content = Inr rows" and "length rows \<le> 10"
  shows "\<exists>pre post. hd (printed (cli_batch_pay os debug run cfg path token signature key w)) = pre @ secret @ post"
proof -
  let ?r = "cli_batch_pay os debug run cfg path token signature key w"
  have "hd (printed ?r) = (''Submitting '' @ show_nat (length rows) @ '' payment(s) from '') @ secret @
      ('' on '' @ unwrap_default ''testnet'' (cf_network cfg) @ ''...'' @ nl)"
    using assms by (auto simp: cli_batch_pay_def unwrap_default_def Let_def bails_def prints_def
        split: prod.split sum.split)
  then show ?thesis by blast
qed

section \<open>Account statistics\<close>

text \<open>The count is read back from the last line of the answer that is a number.\<close>

lemma lines_of_line: "CHR 0x0A \<notin> set l \<Longrightarrow> lines_of (l @ nl) = [strip_cr l]"
  using lines_loop_line [of l "[]" "[]"] by (simp add: lines_of_def nl_def)

lemma show_nat_line: "lines_of (show_nat n @ nl) = [show_nat n]" "trim (show_nat n) = show_nat n"
proof -
  have "\<not> is_digit CHR 0x0A" by (simp add: is_digit_def byte_def)
  then have "CHR 0x0A \<notin> set (show_nat n)" using show_nat_digits [of n] by (auto simp: list_all_iff)
  then show "lines_of (show_nat n @ nl) = [show_nat n]"
    by (simp add: lines_of_line trimmed_no_cr trimmed_digits show_nat_digits)
  show "trim (show_nat n) = show_nat n" by (simp add: trim_trimmed trimmed_digits show_nat_digits)
qed

lemma parse_show_u32: "n \<le> u32_max \<Longrightarrow> parse_u32 (show_nat n) = Some n"
proof -
  assume n: "n \<le> u32_max"
  obtain c cs where c: "show_nat n = c # cs" using show_nat_nonempty [of n] by (cases "show_nat n") auto
  then have "c \<noteq> CHR ''+''" using show_nat_head [OF c] by (auto simp: is_digit_def byte_def)
  then show ?thesis using c n parse_show_nat [of n] by (simp add: parse_u32_def in_range_def)
qed

lemma account_stats_printed:
  assumes "base_invoke cfg = Inr base"
    and "run (base @ [''--'', ''get_account_payment_count'', ''--address'', address]) w = (Ran p, w1)"
    and "pr_success p" and "pr_stdout p = show_nat n @ nl" and "n \<le> u32_max"
  shows "printed (cli_account_stats run cfg address w) =
      [''Account:        '' @ address, ''Payment count:  '' @ show_nat n,
       ''Cap:            '' @ show_nat CLI_MAX_PAYMENT_IDS_PER_ACCOUNT, ''Usage:          '' @ percent_text n @ ''%''] @
      (if CLI_MAX_PAYMENT_IDS_PER_ACCOUNT * 9 div 10 \<le> n
       then [nl @ ''Warning: this account is at or above 90% of '' @
         ''MAX_PAYMENT_IDS_PER_ACCOUNT. Further payments may soon fail with '' @
         ''PaymentHistoryLimitExceeded.'']
       else [])"
  using assms by (simp add: cli_account_stats_def show_nat_line parse_show_u32 prints_def)

end
