(* ===== verification/CliContract.thy ===== *)
theory CliContract
  imports CliCommands Queries
begin

text \<open>
  The tool against the contract it calls: what \<open>admin account-stats\<close> prints about an
  account is what the contract stores for it.
\<close>

text \<open>The constant of the tool mirrors the one of the contract.\<close>

lemma cli_cap_is_the_contracts:
  "CLI_MAX_PAYMENT_IDS_PER_ACCOUNT = MAX_PAYMENT_IDS_PER_ACCOUNT"
  "CLI_MAX_PAYMENT_IDS_PER_ACCOUNT * 9 div 10 = PAYMENT_HISTORY_WARNING_THRESHOLD"
  by (simp_all add: CLI_MAX_PAYMENT_IDS_PER_ACCOUNT_def const_defs)

text \<open>
  The runner of a tool that is connected to a contract: it answers a read of the payment
  count with the number the contract returns, on a line of its own.
\<close>

definition answers_counts :: "'w env \<Rightarrow> (string \<Rightarrow> address) \<Rightarrow> 'o runner \<Rightarrow> bool" where
  "answers_counts s decode run \<longleftrightarrow> (\<forall>base a o1. \<exists>p o2.
     run (base @ [''--'', ''get_account_payment_count'', ''--address'', a]) o1 = (Ran p, o2) \<and>
     (case get_account_payment_count (decode a) s of
        (Ok n, _) \<Rightarrow> pr_success p \<and> pr_stdout p = show_nat n @ nl
      | _ \<Rightarrow> \<not> pr_success p))"

text \<open>
  C31. With a complete configuration, \<open>account-stats\<close> prints the larger of the two history
  lengths that the contract stores for the account, and warns exactly from the threshold
  on at which the contract publishes its own warning.
\<close>

theorem account_stats_follow_the_contract:
  assumes "answers_counts s decode run" and "base_invoke cfg = Inr base"
    and "n = max (st_get_merchant_payment_count (decode a) s) (st_get_payer_payment_count (decode a) s)"
    and "n \<le> u32_max"
  shows "ended (cli_account_stats run cfg a o1) = Finished \<and>
    ''Payment count:  '' @ show_nat n \<in> set (printed (cli_account_stats run cfg a o1)) \<and>
    (length (printed (cli_account_stats run cfg a o1)) = 5 \<longleftrightarrow> PAYMENT_HISTORY_WARNING_THRESHOLD \<le> n)"
proof -
  obtain p o2 where r: "run (base @ [''--'', ''get_account_payment_count'', ''--address'', a]) o1 = (Ran p, o2)"
    and p: "pr_success p" "pr_stdout p = show_nat n @ nl"
    using assms(1,3) by (fastforce simp: answers_counts_def get_account_payment_count_def gets_def)
  have "ended (cli_account_stats run cfg a o1) = Finished"
    using r p assms(2,4) by (simp add: cli_account_stats_def show_nat_line parse_show_u32 prints_def)
  then show ?thesis
    using account_stats_printed [where run = run, OF assms(2) r p assms(4)] by (simp add: cli_cap_is_the_contracts(2))
qed

text \<open>An account with nine thousand payments, and a tool that answers for it.\<close>

definition busy :: "book env" where
  "busy = (deployed rich {} 0)\<lparr>persistent_st := empty_persistent
     \<lparr>k_MP := (\<lambda>_. None)(Addr 1 := Some (replicate 9000 ''a''))\<rparr>\<rparr>"

definition busy_runner :: "unit runner" where
  "busy_runner c o1 = (Ran \<lparr>pr_success = True, pr_stdout = show_nat
     (case fst (get_account_payment_count (if last c = ''GA'' then Addr 1 else Addr 2) busy) of Ok n \<Rightarrow> n | _ \<Rightarrow> 0) @ nl,
     pr_stderr = []\<rparr>, o1)"

theorem account_stats_follow_the_contract_witness:
  "length (printed (cli_account_stats busy_runner sample_cfg ''GA'' ())) = 5"
proof -
  have a: "answers_counts busy (\<lambda>a. if a = ''GA'' then Addr 1 else Addr 2) busy_runner"
    by (simp add: answers_counts_def busy_runner_def get_account_payment_count_def gets_def)
  have "st_get_merchant_payment_ids (Addr 1) busy = replicate 9000 ''a''" "st_get_payer_payment_ids (Addr 1) busy = []"
    by (simp_all add: busy_def storage_defs reference_defs unwrap_or_def)
  then have n: "9000 = max (st_get_merchant_payment_count (if ''GA'' = ''GA'' then Addr 1 else Addr 2) busy)
      (st_get_payer_payment_count (if ''GA'' = ''GA'' then Addr 1 else Addr 2) busy)"
    by (simp add: storage_defs)
  show ?thesis
    using account_stats_follow_the_contract [OF a sample_base n]
    by (simp add: const_defs)
qed

end
