(* ===== verification/Spec2Isabelle.thy ===== *)
theory Spec2Isabelle
  imports Consent Disputes Isolation Statistics Router CliContract
begin

text \<open>
  A verification development for LumenFlow (Rust): the Soroban payment contract
  \<open>src/contracts/lumenflow/src\<close> (lib.rs, storage.rs, helper.rs, types.rs, error.rs), the
  router \<open>src/contracts/router/src/lib.rs\<close> and the command line tool
  \<open>src/cli/lumenflow-cli/src/main.rs\<close>.

  THE PROGRAM. The contract keeps merchants, payments, refunds, disputes, multisig
  payments, payment requests, subscriptions, escrows, statistics and an audit log in the
  three stores of the ledger (instance, persistent, temporary), one slot per \<open>DataKey\<close>.
  Every entry point of lib.rs checks, reads and writes through storage.rs, calls token
  contracts for the funds and publishes events. A call that returns an error or traps is
  reverted as a whole by the host. The command line tool reads a configuration and CSV
  files and runs the \<open>stellar\<close> program, which calls the contract.

  THE MODEL.
  \<^item> Prelude: outcomes (\<open>Ok\<close>, \<open>Err\<close> with the contract's error, \<open>Trap\<close> for panics and host
    failures), the state and exception monad (\<open>bind\<close>, \<open>guard\<close>, \<open>require_some\<close>, loops as
    \<open>for_each\<close> and \<open>fold_each\<close>), machine arithmetic at its width (u32, u64, i128; checked,
    saturating), the rules \<open>exec_simps\<close> that invert a run and \<open>pres\<close> that push an
    invariant through one.
  \<^item> Types: the records, enums and error codes of types.rs and error.rs. Ledger: the three
    stores, the ledger header, events, the host (token contracts, ed25519, SHA-256, XDR,
    the sort of equal elements) as parameters, and \<open>invoke\<close>, which reverts what fails.
  \<^item> Storage: storage.rs, one definition per accessor; the locales \<open>record_store\<close> and
    \<open>lifecycle\<close> (what a keyed store of records promises, and records that only move
    forward) with their interpretations. Helper: helper.rs. Reference: a small host and a
    sample shop, on which the definitions are evaluated.
  \<^item> Frames: for each component a locale of what its writes may do to a predicate; the
    components prove inside their own extension that all their operations preserve it.
  \<^item> One theory per component, in the order of lib.rs: AuditLog, Admin (role,
    configuration, pause, allow-lists), Merchants, Payments, Queries, Refunds (with the
    disputes), Multisig, Requests, Subscriptions, Escrow, Versioning. Each has the entry
    points, a datatype of its calls, its frame, the effects of the operations that return
    and, where it has a life cycle, an abstract machine (\<open>escrow_step\<close>, \<open>multisig_step\<close>,
    \<open>refund_step\<close>, \<open>subscription_step\<close>, \<open>pause_step\<close>) that the calls refine.
  \<^item> Router: the blue-green and canary router, a contract of its own.
  \<^item> Contract: all calls, transactions and the passing of time (\<open>step\<close>, \<open>steps\<close>: other
    authorisations, other parties' token movements, expiry of temporary entries), and the
    frames composed; Invariants: their interpretations, one per invariant of the whole
    contract; Lifecycles, PaymentTerms (with the machine \<open>payment_step\<close> over the store of
    payments), Disputes (with the machine \<open>dispute_step\<close>), Pausing, Consent (whose funds a call can move), Isolation (whose payments a
    history shows), Statistics (the counters against the store) and this theory: the
    properties of calls and reachable states.
  \<^item> The tool: CliText (strings as their UTF-8 bytes: lines, trimming, fields, numbers,
    padding), CliConfig (configuration, precedence, validation, key, the start of an
    invocation), CliCsv (\<open>parse_csv\<close>), CliCommands (the arms of \<open>main\<close> over a parameter
    \<open>run\<close> that answers a command line and may change the world, tables, batch payment),
    CliContract (the tool against the contract's model).

  WHAT IS SHOWN. Funds: escrowed funds are always covered, can always be paid out and are
  paid out once; no call debits an address that did not sign, except the contract for its
  escrows, a charged subscriber and the merchant of a refund forced by the administrator;
  signed payments cannot be replayed; while paused no call moves a token, and a pause ends
  only by the timelock or three guardians. Life cycles: multisig payments need their quorum,
  refunds and disputes follow their status machines, payments keep their terms,
  subscriptions are charged within their plan. Privacy: histories show their readers' own
  payments until an order id is archived and used again, and then they do not. Data:
  statistics add up, lists are bounded, pages deliver the history, migrations move the keys
  and clear the old ones, payloads determine what is signed, each record is under its own
  key, and reading a history page by page ends. The tool: the parser finds, for every text,
  what the relation \<open>file_says\<close> says the file means, and reads back what is
  written, a batch submits nothing unless all of it is valid and settles each row once,
  statistics follow the contract. And where the code does not do what its comments promise,
  that is proved too: the authorisation lockout never engages, any two refunds that are
  possible each on its own can exceed their payment together, two disputes pay one refund
  twice, a dispute opened without a refund can never be resolved for the payer, the signing
  key is not the merchant's, a reading of the merchant pages loses one merchant in each
  \<open>limit + 1\<close>, and an order id used again after archiving makes the history
  endless to read.

  BOUNDS AND FUEL. No definition of the code uses fuel: every loop of it runs over a list
  and is structural recursion, or removes something in each round (\<open>trim\<close>, the digits of
  a number, the scaling of a quotient, each with a measure). The clients that read pages
  (\<open>read_history\<close>, \<open>read_merchants\<close>) are not code; their fuel only has to exceed the number
  of payments, or of pages.
  Integers are nat or int with the width written out at each operation. Gas and the size
  limits of the host are not modelled.

  THE SOURCE AS IT IS. lib.rs is the result of an incomplete merge: six functions are
  declared twice (the second versions carry the suffix \<open>_dup\<close>), and some names it uses are
  declared nowhere (their uses are modelled by the slots and errors the code names;
  \<open>MAX_MEMO_LENGTH\<close> is a parameter of the host). The second \<open>set_platform_fee\<close> calls
  storage functions that do not exist and is left out, as is the end of
  \<open>cleanup_expired_payments\<close>, which returns an undeclared variable.

  main.rs of the tool is one too: two declarations of \<open>MerchantCommands\<close> (their variants are
  one datatype here), an undeclared result of \<open>load_config\<close> (the configuration it built is
  returned), a check of the configuration that appears twice and uses an undeclared output
  flag (its text form is modelled, once).

  NOT MODELLED. The argument parser that clap generates from the declarations of the tool,
  the texts of the operating system's and of the TOML parser's errors, and the Debug form of
  a string (a parameter); the TypeScript SDK, dashboards, scripts and infrastructure; the
  tests, fuzz targets and benches; the event structs of types.rs, which the contract never
  constructs (events are published as tuples, which the model records).
\<close>

section \<open>Escrow funds\<close>

text \<open>
  C1. From the deployment on, whatever calls are made by whomever and however time
  passes, the contract's balance in every token covers all locked escrows and open
  holds: every depositor can be paid. It needs the tokens to be SEP-41 tokens and
  nobody else to have a way to debit the contract's account.
\<close>

theorem escrow_funds_are_safe:
  assumes "steps h others s t" and "fresh s" and "sep41 h bal"
    and "never_debits bal (self s) others" and "\<And>tok. 0 \<le> bal tok (self s) (world s)"
  shows "solvent bal (self s) (escrow_abs t)"
proof -
  have t: "covered h bal (self s) tok (bal tok (self s) (world s)) t" for tok
    using covered_steps [OF assms(1) fresh_covered [OF assms(2)] assms(4)] .
  then have "self t = self s" by (simp add: covered_def uninvolved_def)
  with t assms(3,5) show ?thesis
    unfolding solvent_def covered_def surplus_def
    by (metis (no_types, lifting) add.commute diff_ge_0_iff_ge escrow_abs_def order_trans snd_conv)
qed

lemma launch_escrow:
  "balance_of (Addr 9) (Addr 0) (world (run_calls sample_host launch_calls launch)) = 1000"
  unfolding launch_calls_def launch_def run_calls_def launch_ops balance_of_def
  by (simp add: invoke_def launch_ops exec_comp storage_defs helper_defs reference_defs const_defs in_i128_def)

theorem escrow_funds_are_safe_witness:
  "solvent balance_of (Addr 0) (escrow_abs (run_calls sample_host launch_calls launch)) \<and>
   balance_of (Addr 9) (Addr 0) (world (run_calls sample_host launch_calls launch)) = 1000"
  using escrow_funds_are_safe
    [OF run_calls_steps [where others = "\<lambda>w w'. w' = w"] fresh_launch sep41_sample_host never_debits_none rich_nonneg]
    launch_escrow
  by (simp add: launch_def deployed_def)

section \<open>Escrow records across steps\<close>

text \<open>
  A property of the two escrow stores that the escrow machine keeps is an invariant:
  no other call writes them.
\<close>

lemma escrow_records_invariant:
  assumes "steps h others s t" and "I s"
    and mach: "\<And>C ts sg u v. escrow_step h C ts sg (escrow_abs u) (escrow_abs v) \<Longrightarrow> I u \<Longrightarrow> I v"
    and same: "\<And>u v. k_Escrow (persistent_st v) = k_Escrow (persistent_st u) \<Longrightarrow>
      k_EscrowHold (persistent_st v) = k_EscrowHold (persistent_st u) \<Longrightarrow> I u \<Longrightarrow> I v"
  shows "I t"
  using assms(1,2)
proof (rule steps_invariant)
  fix c
  show "preserves I (run_call h c)"
  proof (cases "\<exists>e. c = EscrowC e")
    case True
    then show ?thesis by (auto intro!: preservesI dest!: escrow_call_cases intro: mach)
  next
    case False
    show ?thesis
    proof (rule preservesI)
      fix u x v
      assume run: "run_call h c u = (Ok x, v)" and "I u"
      with preservesD [OF escrow_kept.pres_all_but_escrow run] False same [of v u]
      show "I v" by force
    qed
  qed
qed (auto intro: same simp: passing_view)

definition escrow_amounts_ok ::
  "(string \<Rightarrow> escrow_record option) \<Rightarrow> (string \<Rightarrow> escrow_hold_record option) \<Rightarrow> bool" where
  "escrow_amounts_ok ls hs \<longleftrightarrow>
     (\<forall>k e. ls k = Some e \<longrightarrow> 0 < e_amount e) \<and> (\<forall>k e. hs k = Some e \<longrightarrow> 0 < eh_amount e)"

lemma escrow_amounts_ok_step:
  "escrow_step h C ts sg (ls, hs, w) (ls', hs', w') \<Longrightarrow> escrow_amounts_ok ls hs \<Longrightarrow>
   escrow_amounts_ok ls' hs'"
  by (erule escrow_stepE) (auto simp: escrow_amounts_ok_def)

lemma escrow_amounts_reachable:
  "steps h others s t \<Longrightarrow> fresh s \<Longrightarrow>
   escrow_amounts_ok (k_Escrow (persistent_st t)) (k_EscrowHold (persistent_st t))"
  by (erule escrow_records_invariant)
    (auto simp: escrow_abs_def fresh_def dest: escrow_amounts_ok_step,
     simp add: escrow_amounts_ok_def empty_persistent_def)

lemma reachable_solvent:
  assumes "steps h others s t" and "fresh s" and "sep41 h bal"
    and "never_debits bal (self s) others" and "\<And>tok. 0 \<le> bal tok (self s) (world s)"
  shows "self t = self s" and "solvent bal (self t) (escrow_abs t)"
proof -
  have t: "covered h bal (self s) tok (bal tok (self s) (world s)) t" for tok
    using covered_steps [OF assms(1) fresh_covered [OF assms(2)] assms(4)] .
  then show self: "self t = self s" by (simp add: covered_def uninvolved_def)
  from t assms(3) have fin: "escrows_finite (escrow_abs t)"
    and b: "bal tok (self s) (world s) \<le> bal tok (self s) (world t) - escrow_debt tok (escrow_abs t)" for tok
    by (simp_all add: covered_def surplus_def self)
  have "escrow_debt tok (escrow_abs t) \<le> bal tok (self s) (world t)" for tok
    using b [of tok] assms(5) [of tok] by simp
  with fin show "solvent bal (self t) (escrow_abs t)" by (simp add: solvent_def escrow_abs_def self)
qed

lemma locked_amount_owed:
  assumes "escrows_finite (escrow_abs t)"
    and "escrow_amounts_ok (k_Escrow (persistent_st t)) (k_EscrowHold (persistent_st t))"
    and "st_get_escrow k t = Some e" and "e_status e = ELocked"
  shows "e_amount e \<le> escrow_debt (e_token e) (escrow_abs t)"
proof -
  let ?v = "lock_value (e_token e)"
  have "?v e \<le> map_total ?v (k_Escrow (persistent_st t))"
    using assms by (intro map_total_member) (auto simp: escrows_finite_def escrow_abs_def
        escrow_amounts_ok_def st_get_escrow_def lock_value_def less_imp_le)
  moreover have "0 \<le> map_total (hold_value (e_token e)) (k_EscrowHold (persistent_st t))"
    using assms(2) by (intro map_total_nonneg) (auto simp: escrow_amounts_ok_def hold_value_def less_imp_le)
  ultimately show ?thesis using assms(4) by (simp add: escrow_debt_def escrow_abs_def lock_value_def)
qed

text \<open>
  C2. A locked escrow that is due can always be paid out: from any state reached since
  the deployment, anyone's call of \<open>release_escrow\<close> returns and moves the amount to
  the merchant, unless the contract is paused, provided the token executes every
  transfer that the sender's balance covers.
\<close>

theorem due_escrow_can_be_released:
  assumes reach: "steps h others s t" "fresh s" "sep41 h bal"
      "never_debits bal (self s) others" "\<And>tok. 0 \<le> bal tok (self s) (world s)"
    and pays: "\<And>tok src dst n w. 0 \<le> n \<Longrightarrow> n \<le> bal tok src w \<Longrightarrow> token_transfer h tok src dst n w \<noteq> None"
    and e: "st_get_escrow k t = Some e" "e_status e = ELocked" "e_unlock_at e \<le> now t"
    and active: "\<not> st_get_paused t"
  shows "\<exists>u. release_escrow h k t = (Ok (), u) \<and>
    st_get_escrow k u = Some (e\<lparr>e_status := EReleased\<rparr>) \<and>
    moved bal (e_token e) (self t) (e_merchant e) (e_amount e) (world t) (world u)"
proof -
  note solv = reachable_solvent [OF reach] and amounts = escrow_amounts_reachable [OF reach(1,2)]
  from solv(2) have fin: "escrows_finite (escrow_abs t)" by (simp add: solvent_def)
  have "e_amount e \<le> bal (e_token e) (self t) (world t)"
    using locked_amount_owed [OF fin amounts e(1,2)] solv(2)
    by (auto simp: solvent_def escrow_abs_def intro: order_trans)
  moreover have "0 < e_amount e" and key: "e_order_id e = k"
    using amounts fin e(1) by (auto simp: escrow_amounts_ok_def st_get_escrow_def escrows_finite_def escrow_abs_def)
  ultimately obtain w where w: "token_transfer h (e_token e) (self t) (e_merchant e) (e_amount e) (world t) = Some w"
    using pays [of "e_amount e" "e_token e" "self t" "world t"] by fastforce
  let ?u = "(st_set_escrow (e\<lparr>e_status := EReleased\<rparr>) t)\<lparr>world := w,
    events := events (st_set_escrow (e\<lparr>e_status := EReleased\<rparr>) t) @
      [Event T_escrow_released None [StrV k, I128V (e_amount e)]]\<rparr>"
  have "release_escrow h k t = (Ok (), ?u)"
    using e active w unfolding release_escrow_def
    by (auto simp: exec_simps require_not_paused_def storage_defs)
  moreover have "moved bal (e_token e) (self t) (e_merchant e) (e_amount e) (world t) w"
    using sep41D(1) [OF reach(3) w] .
  ultimately show ?thesis using key by (auto simp: storage_defs)
qed
text \<open>The run above, when the escrow is due.\<close>

definition launch_due :: "book env" where
  "launch_due = later 2500 (run_calls sample_host launch_calls launch)"

definition launch_lock :: escrow_record where
  "launch_lock = \<lparr>e_order_id = ''e1'', e_payer = Addr 2, e_merchant = Addr 1, e_token = Addr 9,
     e_amount = 1000, e_unlock_at = 2000, e_status = ELocked, e_created_at = 1000\<rparr>"

lemma launch_stored:
  "k_Escrow (persistent_st (run_calls sample_host launch_calls launch)) ''e1'' = Some launch_lock \<and>
   i_Paused (instance_st (run_calls sample_host launch_calls launch)) = None"
  unfolding launch_calls_def launch_def run_calls_def launch_lock_def
  by (simp add: invoke_def launch_ops exec_comp storage_defs helper_defs reference_defs const_defs in_i128_def)

lemma launch_run:
  "st_get_escrow ''e1'' launch_due = Some launch_lock" "\<not> st_get_paused launch_due"
  using launch_stored by (simp_all add: launch_due_def later_def storage_defs)

lemma launch_due_steps:
  "steps sample_host (\<lambda>w w'. w' = w) (run_calls sample_host launch_calls launch) launch_due"
  "steps sample_host (\<lambda>w w'. w' = w) launch launch_due"
  unfolding launch_due_def using fresh_launch by (simp_all add: run_later)

lemma sample_host_pays: "0 \<le> n \<Longrightarrow> n \<le> balance_of tok src w \<Longrightarrow> token_transfer sample_host tok src dst n w \<noteq> None"
  by (simp add: sample_host_def move_def balance_of_def Let_def)

theorem due_escrow_can_be_released_witness:
  "\<exists>u. release_escrow sample_host ''e1'' launch_due = (Ok (), u) \<and>
     moved balance_of (Addr 9) (self launch_due) (Addr 1) 1000 (world launch_due) (world u)"
proof -
  have "e_status launch_lock = ELocked" "e_unlock_at launch_lock \<le> now launch_due"
    by (simp_all add: launch_lock_def launch_due_def later_def now_def)
  from due_escrow_can_be_released [OF launch_due_steps(2) fresh_launch sep41_sample_host
      never_debits_none rich_nonneg sample_host_pays launch_run(1) this launch_run(2)]
  show ?thesis by (auto simp: launch_lock_def)
qed

lemma keyed_evolves_same:
  assumes "k_Escrow (persistent_st v) = k_Escrow (persistent_st u)"
    and "k_EscrowHold (persistent_st v) = k_EscrowHold (persistent_st u)"
  shows "escrows_keyed v = escrows_keyed u" "locks.evolves t v = locks.evolves t u"
    "held.evolves t v = held.evolves t u"
  using assms by (simp_all add: escrows_keyed_def escrows.well_keyed_def holds.well_keyed_def
      locks.evolves_def held.evolves_def storage_defs)

text \<open>
  C3. Across any steps no escrow and no hold disappears, their terms never change, and
  one that is released or cancelled stays exactly as it is: nobody is paid twice.
\<close>

theorem escrow_settles_once:
  assumes "steps h others s t" and "fresh s" and "steps h others t u"
  shows "(\<forall>k e. st_get_escrow k t = Some e \<longrightarrow> (\<exists>e'. st_get_escrow k u = Some e' \<and>
      e'\<lparr>e_status := e_status e\<rparr> = e \<and> (e_status e \<noteq> ELocked \<longrightarrow> e' = e))) \<and>
    (\<forall>k d. st_get_escrow_hold k t = Some d \<longrightarrow> (\<exists>d'. st_get_escrow_hold k u = Some d' \<and>
      d'\<lparr>eh_status := eh_status d\<rparr> = d \<and> (eh_status d \<noteq> HHeld \<longrightarrow> d' = d)))"
proof -
  have "escrows_keyed s"
    using assms(2) by (simp add: fresh_def escrows_keyed_def escrows.well_keyed_def holds.well_keyed_def
        storage_defs empty_persistent_def)
  with assms(1) have "escrows_keyed t"
    by (rule escrow_records_invariant) (blast dest: escrow_step_evolves keyed_evolves_same(1))+
  then have "escrows_keyed t \<and> locks.evolves t t \<and> held.evolves t t"
    by (simp add: locks.evolves_refl held.evolves_refl)
  with assms(3) have "escrows_keyed u \<and> locks.evolves t u \<and> held.evolves t u"
  proof (rule escrow_records_invariant)
    show "escrows_keyed v \<and> locks.evolves t v \<and> held.evolves t v"
      if "escrow_step h C ts sg (escrow_abs r) (escrow_abs v)"
        and "escrows_keyed r \<and> locks.evolves t r \<and> held.evolves t r" for C ts sg r v
      using that escrow_step_evolves [of h C ts sg r v] locks.evolves_trans held.evolves_trans by blast
    show "escrows_keyed v \<and> locks.evolves t v \<and> held.evolves t v"
      if "k_Escrow (persistent_st v) = k_Escrow (persistent_st r)"
        and "k_EscrowHold (persistent_st v) = k_EscrowHold (persistent_st r)"
        and "escrows_keyed r \<and> locks.evolves t r \<and> held.evolves t r" for r v
      using that(3) keyed_evolves_same(1) [OF that(1,2)] keyed_evolves_same(2,3) [OF that(1,2), of t]
      by simp
  qed
  then show ?thesis
    by (fastforce simp: locks.evolves_def held.evolves_def lock_follows_def hold_follows_def)
qed

theorem escrow_settles_once_witness:
  "\<exists>e'. st_get_escrow ''e1'' launch_due = Some e' \<and> e'\<lparr>e_status := ELocked\<rparr> = launch_lock"
proof -
  have "st_get_escrow ''e1'' (run_calls sample_host launch_calls launch) = Some launch_lock"
    using launch_stored by (simp add: storage_defs)
  with escrow_settles_once [OF run_calls_steps fresh_launch
      launch_due_steps(1)]
  have "\<exists>e'. st_get_escrow ''e1'' launch_due = Some e' \<and> e'\<lparr>e_status := e_status launch_lock\<rparr> = launch_lock"
    by blast
  then show ?thesis by (simp add: launch_lock_def)
qed

section \<open>Administration across steps\<close>

lemma fresh_no_lockouts: "fresh s \<Longrightarrow> no_lockouts s"
  by (simp add: fresh_def no_lockouts_def storage_defs empty_temporary_def)

lemma no_lockouts_passing:
  assumes "no_lockouts s" and "time_passes others s t"
  shows "no_lockouts t"
proof -
  have "st_get_auth_fail_count a t = (0, 0) \<and> st_get_auth_lockout_until a t = 0" for a
  proof -
    from assms(1) have "st_get_auth_fail_count a s = (0, 0)" "st_get_auth_lockout_until a s = 0"
      by (simp_all add: no_lockouts_def)
    then show ?thesis
      using passing_view(8,9) [OF assms(2), of a]
      by (auto simp: st_get_auth_fail_count_def st_get_auth_lockout_until_def unwrap_or_def
          split: option.splits)
  qed
  then show ?thesis by (simp add: no_lockouts_def)
qed

lemma no_lockouts_steps: "steps h others s t \<Longrightarrow> no_lockouts s \<Longrightarrow> no_lockouts t"
  by (erule steps_invariant) (auto intro: no_lockouts.pres_run_call no_lockouts_passing)

text \<open>
  C20. The lockout after ten failed administrator calls never engages: in no state
  reached from the deployment has any address a recorded failure or a lockout. The
  call that counts a failure returns an error, and the host reverts the count with it.
\<close>

theorem auth_lockout_never_engages:
  assumes "steps h others s t" and "fresh s"
  shows "st_get_auth_fail_count a t = (0, 0) \<and> \<not> st_is_auth_locked_out a t"
  using no_lockouts_steps [OF assms(1) fresh_no_lockouts [OF assms(2)]]
  by (simp add: no_lockouts_def st_is_auth_locked_out_def)

theorem auth_lockout_never_engages_witness:
  "\<not> st_is_auth_locked_out (Addr 7) (run_calls sample_host [AdminC (SetAdminCall (Addr 5)),
     GuardC (PauseContractCall (Addr 7)), GuardC (PauseContractCall (Addr 7))] (deployed rich {Addr 5, Addr 7} 0))"
  by (rule conjunct2 [OF auth_lockout_never_engages [OF run_calls_steps]])
    (simp add: fresh_def deployed_def)

text \<open>
  C12. The administrator is set once: after the first \<open>set_admin\<close> there is an
  administrator in every later state, and no further \<open>set_admin\<close> succeeds or has an
  effect, whoever signs it.
\<close>

theorem admin_is_set_once:
  assumes "steps h others s t" and "st_get_admin s \<noteq> None"
  shows "st_get_admin t \<noteq> None \<and> set_admin a t = (Err AdminAlreadySet, t)"
proof -
  from assms have "st_get_admin t \<noteq> None"
    by (rule steps_invariant) (rule admin_kept.pres_run_call, simp add: st_get_admin_def passing_view)
  then show ?thesis by (cases "st_get_admin t") (simp_all add: set_admin_def exec_comp)
qed

theorem admin_is_set_once_witness:
  "set_admin (Addr 1) launch_due = (Err AdminAlreadySet, launch_due)"
proof -
  have "st_get_admin (run_calls sample_host launch_calls launch) \<noteq> None"
    unfolding launch_calls_def launch_def run_calls_def
    by (simp add: invoke_def launch_ops exec_comp storage_defs helper_defs reference_defs const_defs in_i128_def)
  from admin_is_set_once [OF launch_due_steps(1) this]
  show ?thesis by simp
qed

lemma fresh_bounds: "fresh s \<Longrightarrow> histories_capped s \<and> audit_ok s"
  by (simp add: fresh_def histories_capped_def audit_ok_def log_ok_def storage_defs empty_persistent_def
      empty_instance_def const_defs)

lemma bounds_steps:
  assumes "steps h others s t"
  shows "histories_capped s \<Longrightarrow> histories_capped t" and "audit_ok s \<Longrightarrow> audit_ok t"
proof -
  show "histories_capped t" if "histories_capped s"
    using assms that by (rule steps_invariant)
      (rule histories_capped.pres_run_call, simp add: histories_capped_def passing_view)
  show "audit_ok t" if "audit_ok s"
    using assms that
  proof (rule steps_invariant)
    fix u v assume u: "audit_ok u" and p: "time_passes others u v"
    from passing_view(1,2,6) [OF p] u show "audit_ok v"
      by (auto simp: audit_ok_def log_ok_def storage_defs intro: order_trans)
  qed (rule audit_log.pres_run_call)
qed

text \<open>
  C17. In every state reached from the deployment the history of a merchant and that of
  a payer hold at most \<open>MAX_PAYMENT_IDS_PER_ACCOUNT\<close> order ids, and the audit log is
  the contiguous block of the newest entries, at most the configured number.
\<close>

theorem stored_lists_are_bounded:
  assumes "steps h others s t" and "fresh s"
  shows "length (st_get_merchant_payment_ids a t) \<le> MAX_PAYMENT_IDS_PER_ACCOUNT \<and>
    length (st_get_payer_payment_ids a t) \<le> MAX_PAYMENT_IDS_PER_ACCOUNT \<and>
    length (log_entries t) = min (get_admin_audit_count t) (get_admin_audit_max_entries t) \<and>
    map ae_index (log_entries t) =
      [get_admin_audit_count t - get_admin_audit_max_entries t ..< get_admin_audit_count t]"
proof -
  from fresh_bounds [OF assms(2)] bounds_steps [OF assms(1)]
  have capped: "histories_capped t" and log: "log_ok t" by (simp_all add: audit_ok_def)
  have "ae_index (the (get_admin_audit_entry i t)) = i"
    if "get_admin_audit_count t - get_admin_audit_max_entries t \<le> i" "i < get_admin_audit_count t" for i
    using log that unfolding log_ok_def by (metis option.collapse)
  then have "map ae_index (log_entries t) =
      [get_admin_audit_count t - get_admin_audit_max_entries t ..< get_admin_audit_count t]"
    by (simp add: log_entries_def comp_def list_eq_iff_nth_eq)
  moreover have "length (st_get_merchant_payment_ids a t) \<le> MAX_PAYMENT_IDS_PER_ACCOUNT \<and>
      length (st_get_payer_payment_ids a t) \<le> MAX_PAYMENT_IDS_PER_ACCOUNT"
    using capped by (auto simp: histories_capped_def st_get_merchant_payment_ids_def
        st_get_payer_payment_ids_def unwrap_or_def split: option.splits)
  ultimately show ?thesis by (simp add: length_log_entries)
qed

theorem stored_lists_are_bounded_witness:
  "map ae_index (log_entries launch_due) =
    [get_admin_audit_count launch_due - get_admin_audit_max_entries launch_due
      ..< get_admin_audit_count launch_due]"
  using stored_lists_are_bounded [OF launch_due_steps(2) fresh_launch] by blast

section \<open>The typing of the stores\<close>

text \<open>
  C18. In every state reached from the deployment each record is stored under its own key
  (merchants, payments, refunds, disputes, multisig payments, plans, subscriptions, escrows,
  holds, payment requests, commitments), so what is looked up by an id carries that id; and
  the nonces of payers and merchants fit 64 bits.
\<close>

theorem stored_records_are_typed:
  assumes "steps h others s t" and "fresh s"
  shows "(\<forall>k r. st_get_merchant k t = Some r \<longrightarrow> m_address r = k) \<and>
    (\<forall>k r. st_get_payment k t = Some r \<longrightarrow> p_order_id r = k) \<and>
    (\<forall>k r. st_get_refund k t = Some r \<longrightarrow> r_refund_id r = k) \<and>
    (\<forall>k r. st_get_dispute k t = Some r \<longrightarrow> d_dispute_id r = k) \<and>
    (\<forall>k r. st_get_multisig k t = Some r \<longrightarrow> ms_payment_id r = k) \<and>
    (\<forall>k r. st_get_subscription_plan k t = Some r \<longrightarrow> sp_plan_id r = k) \<and>
    (\<forall>k r. st_get_subscription k t = Some r \<longrightarrow> sub_subscription_id r = k) \<and>
    (\<forall>k r. st_get_escrow k t = Some r \<longrightarrow> e_order_id r = k) \<and>
    (\<forall>k r. st_get_escrow_hold k t = Some r \<longrightarrow> eh_escrow_id r = k) \<and>
    (\<forall>k r. st_get_payment_request k t = Some r \<longrightarrow> pr_request_id r = k) \<and>
    (\<forall>k r. st_get_merchant_commitment k t = Some r \<longrightarrow> mc_merchant_address r = k) \<and>
    (\<forall>a. st_get_nonce a t \<le> u64_max) \<and> (\<forall>a. st_get_merchant_nonce a t \<le> u64_max)"
  using stores_typed_reachable [OF assms] unfolding stores_typed_defs by blast

theorem stored_records_are_typed_witness:
  "st_get_escrow ''e1'' launch_due = Some launch_lock \<and> e_order_id launch_lock = ''e1'' \<and>
   st_get_nonce (Addr 2) launch_due \<le> u64_max"
  using stored_records_are_typed [OF launch_due_steps(2) fresh_launch] launch_run(1) by blast

end
